(* ===== verification/Prelude.thy ===== *)
theory Prelude
  imports Main "HOL-Library.Word"
begin

text \<open>
  Shared vocabulary of the packet-encoding development (neqo-transport,
  \<^verbatim>\<open>src/neqo-transport/src/packet2.rs\<close>): bytes as \<open>8 word\<close>, the output buffer as a
  byte list, the Rust \<^verbatim>\<open>Res\<close> type and panics as values of a sum type, the checked
  slice indexing of Rust (a read or write out of range panics), and the monadic bind
  that the \<^verbatim>\<open>?\<close> operator stands for.  The model follows a debug build of the
  crate: \<^verbatim>\<open>debug_assert!\<close> and arithmetic underflow panic.
\<close>

unbundle bit_operations_syntax

section \<open>Types\<close>

type_synonym byte = "8 word"
type_synonym bytes = "byte list"
type_synonym u64 = "64 word"

text \<open>
  Why a computation stops.  \<open>CryptoError\<close> and \<open>InternalError\<close> are the variants of
  the crate's \<^verbatim>\<open>Error\<close> that this code can return; a Rust panic (an \<^verbatim>\<open>assert!\<close>,
  a \<^verbatim>\<open>debug_assert!\<close>, a \<^verbatim>\<open>panic!\<close>, an index out of range, a \<^verbatim>\<open>usize\<close>
  underflow) is a \<open>Panic\<close> carrying its cause.
\<close>

datatype panic_cause = ExplicitPanic | IndexOutOfBounds | DebugAssertion
  | ArithmeticOverflow | AssertionFailed

datatype error = CryptoError | InternalError | Panic panic_cause

type_synonym 'a res = "error + 'a"

named_theorems res_simps "equations that evaluate the Res plumbing"

section \<open>The ? operator\<close>

definition bind_res :: "'a res \<Rightarrow> ('a \<Rightarrow> 'b res) \<Rightarrow> 'b res" where
  "bind_res r f = (case r of Inl e \<Rightarrow> Inl e | Inr x \<Rightarrow> f x)"

lemma bind_res_Inl [simp, res_simps]: "bind_res (Inl e) f = Inl e"
  by (simp add: bind_res_def)

lemma bind_res_Inr [simp, res_simps]: "bind_res (Inr x) f = f x"
  by (simp add: bind_res_def)

lemma bind_res_eq_Inr:
  "bind_res r f = Inr y \<longleftrightarrow> (\<exists>x. r = Inr x \<and> f x = Inr y)"
  by (cases r) auto

lemma bind_res_eq_Inl:
  "bind_res r f = Inl e \<longleftrightarrow> r = Inl e \<or> (\<exists>x. r = Inr x \<and> f x = Inl e)"
  by (cases r) auto

lemma bind_res_assoc:
  "bind_res (bind_res r f) g = bind_res r (\<lambda>x. bind_res (f x) g)"
  by (cases r) simp_all

text \<open>\<^verbatim>\<open>Result::unwrap\<close>: the value, or a panic on an error.\<close>

definition unwrap :: "'a res \<Rightarrow> 'a res" where
  "unwrap r = (case r of Inl _ \<Rightarrow> Inl (Panic ExplicitPanic) | Inr x \<Rightarrow> Inr x)"

lemma unwrap_Inl [simp, res_simps]: "unwrap (Inl e) = Inl (Panic ExplicitPanic)"
  by (simp add: unwrap_def)

lemma unwrap_Inr [simp, res_simps]: "unwrap (Inr x) = Inr x"
  by (simp add: unwrap_def)

section \<open>Checked indexing\<close>

text \<open>\<^verbatim>\<open>v[i]\<close> on a slice: the element, or a panic when \<open>i\<close> is out of range.\<close>

definition get :: "'a list \<Rightarrow> nat \<Rightarrow> 'a res" where
  "get xs i = (if i < length xs then Inr (xs ! i) else Inl (Panic IndexOutOfBounds))"

text \<open>\<^verbatim>\<open>v[i] = x\<close>: the update, or a panic when \<open>i\<close> is out of range.\<close>

definition set_at :: "'a list \<Rightarrow> nat \<Rightarrow> 'a \<Rightarrow> 'a list res" where
  "set_at xs i x = (if i < length xs then Inr (xs[i := x]) else Inl (Panic IndexOutOfBounds))"

lemma get_in_range [simp, res_simps]: "i < length xs \<Longrightarrow> get xs i = Inr (xs ! i)"
  by (simp add: get_def)

lemma get_out_of_range [simp, res_simps]:
  "\<not> i < length xs \<Longrightarrow> get xs i = Inl (Panic IndexOutOfBounds)"
  by (simp add: get_def)

lemma set_at_in_range [simp, res_simps]: "i < length xs \<Longrightarrow> set_at xs i x = Inr (xs[i := x])"
  by (simp add: set_at_def)

lemma get_eq_Inr: "get xs i = Inr x \<longleftrightarrow> i < length xs \<and> x = xs ! i"
  by (auto simp: get_def)

section \<open>Byte lists\<close>

text \<open>\<^verbatim>\<open>&v[a..b]\<close> for an in-range slice.\<close>

definition slice :: "'a list \<Rightarrow> nat \<Rightarrow> nat \<Rightarrow> 'a list" where
  "slice xs a b = take (b - a) (drop a xs)"

lemma length_slice [simp]: "b \<le> length xs \<Longrightarrow> length (slice xs a b) = b - a"
  by (simp add: slice_def)

lemma slice_append_left [simp]:
  "length xs = a \<Longrightarrow> slice (xs @ ys) a b = take (b - a) ys"
  by (simp add: slice_def)

lemma slice_middle: "length b = n \<Longrightarrow> slice (a @ b @ c) (length a) (length a + n) = b"
  by (simp add: slice_def)

lemma slice_whole [simp]: "slice xs a (length xs) = drop a xs"
  by (simp add: slice_def)

text \<open>Updates and reads past a prefix of known length.\<close>

lemma list_update_append_right:
  "length xs \<le> i \<Longrightarrow> (xs @ ys)[i := v] = xs @ ys[i - length xs := v]"
  by (simp add: list_update_append)

lemma take_list_update_ge [simp]: "n \<le> i \<Longrightarrow> take n (xs[i := v]) = take n xs"
  by simp

lemma xor_xor_cancel [simp]: "(a XOR m) XOR m = (a :: 'a::len word)"
  by (simp add: xor.assoc)

section \<open>Bits of naturals and words\<close>

text \<open>OR with a value below the shifted part adds.\<close>

lemma push_bit_or_small: "(x::nat) < 2 ^ k \<Longrightarrow> push_bit k c OR x = push_bit k c + x"
proof -
  assume x: "x < 2 ^ k"
  have "push_bit k c AND x = 0"
  proof (rule bit_eqI)
    fix n
    have "take_bit k x = x" using x by (rule take_bit_nat_eq_self)
    then have "bit x n \<Longrightarrow> n < k" by (metis bit_take_bit_iff)
    then show "bit (push_bit k c AND x) n = bit 0 n"
      by (auto simp: bit_and_iff bit_push_bit_iff)
  qed
  then show ?thesis by (simp add: disjunctive_add_eq_or)
qed

lemma and_low_mask_nat: "(x::nat) AND (2 ^ k - 1) = x mod 2 ^ k"
  by (metis mask_eq_exp_minus_1 take_bit_eq_mask take_bit_eq_mod)

lemma unat_of_nat_small: "x < 2 ^ LENGTH('a) \<Longrightarrow> unat (of_nat x :: 'a::len word) = x"
  by (rule of_nat_inverse [OF refl])

end
