(* ===== verification/Encoder.thy ===== *)
theory Encoder
  imports Prelude
begin

text \<open>
  The growable output buffer \<^verbatim>\<open>neqo_common::Encoder\<close>.  Its source is not part of the
  repository excerpt, so its operations are modelled from the specification: an encoder
  is its byte sequence, and every \<^verbatim>\<open>encode_*\<close> appends.  \<open>encode_uint n v\<close> writes
  the low \<open>n\<close> bytes of \<open>v\<close> big-endian, byte \<open>i\<close> being
  \<^verbatim>\<open>((v >> (8 * (n - i - 1))) & 0xff) as u8\<close>; \<open>encode_vec n\<close> prefixes a field with
  its length on \<open>n\<close> bytes; \<open>encode_varint\<close> is the QUIC variable-length integer
  (1, 2, 4 or 8 bytes, tagged in the top two bits), \<open>encode_vvec\<close> a field prefixed by
  its length as a varint.  The theory proves the lengths of each, that the byte loop of
  \<open>encode_uint\<close> equals a recursive reference \<open>be_bytes\<close>, and that big-endian
  decoding inverts it.
\<close>

unbundle bit_operations_syntax

type_synonym encoder = bytes

named_theorems enc_simps "the length and content equations of the encoder"

section \<open>Operations\<close>

definition encode_byte :: "byte \<Rightarrow> encoder \<Rightarrow> encoder" where
  "encode_byte b enc = enc @ [b]"

definition encode :: "bytes \<Rightarrow> encoder \<Rightarrow> encoder" where
  "encode v enc = enc @ v"

definition encode_uint :: "nat \<Rightarrow> u64 \<Rightarrow> encoder \<Rightarrow> encoder" where
  "encode_uint n v enc =
     enc @ map (\<lambda>i. ucast (drop_bit (8 * (n - i - 1)) v AND 0xff)) [0..<n]"

definition encode_vec :: "nat \<Rightarrow> bytes \<Rightarrow> encoder \<Rightarrow> encoder" where
  "encode_vec n v enc = encode v (encode_uint n (of_nat (length v)) enc)"

definition encode_varint :: "u64 \<Rightarrow> encoder \<Rightarrow> encoder res" where
  "encode_varint v enc =
     (if v < 2 ^ 6 then Inr (encode_uint 1 v enc)
      else if v < 2 ^ 14 then Inr (encode_uint 2 (v OR push_bit 14 1) enc)
      else if v < 2 ^ 30 then Inr (encode_uint 4 (v OR push_bit 30 2) enc)
      else if v < 2 ^ 62 then Inr (encode_uint 8 (v OR push_bit 62 3) enc)
      else Inl (Panic ExplicitPanic))"

definition encode_vvec :: "bytes \<Rightarrow> encoder \<Rightarrow> encoder res" where
  "encode_vvec v enc = bind_res (encode_varint (of_nat (length v)) enc) (\<lambda>e. Inr (encode v e))"

section \<open>A recursive reference for the byte loop, and decoding\<close>

fun be_bytes :: "nat \<Rightarrow> u64 \<Rightarrow> bytes" where
  "be_bytes 0 v = []"
| "be_bytes (Suc n) v = be_bytes n (drop_bit 8 v) @ [ucast v]"

definition decode_be :: "bytes \<Rightarrow> nat" where
  "decode_be bs = foldl (\<lambda>acc b. acc * 256 + unat b) 0 bs"

lemma length_be_bytes [simp]: "length (be_bytes n v) = n"
  by (induction n arbitrary: v) auto

lemma ucast_and_ff: "(ucast (w AND 0xff) :: byte) = ucast (w :: u64)"
proof -
  have "w AND 0xff = take_bit 8 w"
    by (simp add: take_bit_eq_mask mask_eq_exp_minus_1)
  moreover have "take_bit 8 (x :: byte) = x" for x
    using take_bit_length_eq [of x] by simp
  ultimately show ?thesis by (simp add: unsigned_take_bit_eq)
qed

lemma encode_uint_be_bytes: "encode_uint n v enc = enc @ be_bytes n v"
proof -
  have "map (\<lambda>i. ucast (drop_bit (8 * (n - i - 1)) v)) [0..<n] = be_bytes n v" for n v
  proof (induction n arbitrary: v)
    case 0
    show ?case by simp
  next
    case (Suc n)
    let ?F = "\<lambda>i. ucast (drop_bit (8 * (Suc n - i - 1)) v) :: byte"
    have eq: "map ?F [0..<n] = map (\<lambda>i. ucast (drop_bit (8 * (n - i - 1)) (drop_bit 8 v))) [0..<n]"
    proof (rule map_cong)
      fix i assume "i \<in> set [0..<n]"
      then have "8 * (Suc n - i - 1) = 8 * (n - i - 1) + 8" by auto
      then show "(ucast (drop_bit (8 * (Suc n - i - 1)) v) :: byte)
          = ucast (drop_bit (8 * (n - i - 1)) (drop_bit 8 v))"
        by (simp only: drop_bit_drop_bit)
    qed simp
    have "map ?F [0..<Suc n] = map ?F [0..<n] @ [?F n]" by simp
    also have "map ?F [0..<n] = be_bytes n (drop_bit 8 v)"
      by (rule trans [OF eq Suc.IH])
    finally show ?case by simp
  qed
  then show ?thesis by (simp add: encode_uint_def ucast_and_ff)
qed

lemma decode_be_append:
  "decode_be (xs @ ys) = decode_be xs * 256 ^ length ys + decode_be ys"
proof (induction ys rule: rev_induct)
  case Nil
  show ?case by (simp add: decode_be_def)
next
  case (snoc y ys)
  then show ?case by (simp add: decode_be_def algebra_simps)
qed

lemma decode_be_single [simp]: "decode_be [b] = unat b"
  by (simp add: decode_be_def)

lemma decode_be_Nil [simp]: "decode_be [] = 0"
  by (simp add: decode_be_def)

lemma decode_be_bytes: "decode_be (be_bytes n v) = unat v mod 2 ^ (8 * n)"
proof (induction n arbitrary: v)
  case 0
  show ?case by simp
next
  case (Suc n)
  have "decode_be (be_bytes (Suc n) v) = (unat v div 256 mod 2 ^ (8 * n)) * 256 + unat v mod 256"
    by (simp add: decode_be_append Suc unat_drop_bit_eq unsigned_ucast_eq drop_bit_eq_div take_bit_eq_mod unat_div)
  also have "\<dots> = unat v mod (256 * 2 ^ (8 * n))"
    by (simp add: mod_mult2_eq)
  finally show ?case by (simp add: power_add)
qed

section \<open>Lengths\<close>

lemma length_encode_byte [simp, enc_simps]: "length (encode_byte b enc) = Suc (length enc)"
  by (simp add: encode_byte_def)

lemma length_encode [simp, enc_simps]: "length (encode v enc) = length enc + length v"
  by (simp add: encode_def)

lemma length_encode_uint [simp, enc_simps]: "length (encode_uint n v enc) = length enc + n"
  by (simp add: encode_uint_def)

lemma length_encode_vec [simp, enc_simps]:
  "length (encode_vec n v enc) = length enc + n + length v"
  by (simp add: encode_vec_def)

lemma encode_varint_prefix:
  "encode_varint v enc = Inr enc' \<Longrightarrow> \<exists>t. enc' = enc @ t \<and> length t \<in> {1, 2, 4, 8}"
  by (auto simp: encode_varint_def encode_uint_be_bytes split: if_splits)

lemma encode_vvec_prefix:
  "encode_vvec v enc = Inr enc' \<Longrightarrow> \<exists>t. enc' = enc @ t"
  by (auto simp: encode_vvec_def bind_res_eq_Inr encode_def dest!: encode_varint_prefix)

lemma encode_varint_small [simp]: "v < 64 \<Longrightarrow> encode_varint v enc = Inr (enc @ [ucast v])"
  by (simp add: encode_varint_def encode_uint_be_bytes)

lemma encode_varint_append: "encode_varint v enc = map_sum id (\<lambda>t. enc @ t) (encode_varint v [])"
  by (simp add: encode_varint_def encode_uint_def)

lemma encode_vvec_append: "encode_vvec v enc = map_sum id (\<lambda>t. enc @ t) (encode_vvec v [])"
  by (cases "encode_varint (of_nat (length v)) []")
    (simp_all add: encode_vvec_def encode_def encode_varint_append [of _ enc])

end
