(* ===== verification/Packet_Type.thy ===== *)
theory Packet_Type
  imports Encoder
begin

text \<open>
  The wire constants of \<^verbatim>\<open>packet2.rs\<close> (lines 21--30), the enumeration
  \<^verbatim>\<open>PacketType\<close> and its 2-bit long-header type code \<^verbatim>\<open>PacketType::code\<close>, which
  panics for the two kinds that have no such field.  \<^verbatim>\<open>QUIC_VERSION\<close> lives in the
  crate root, outside the excerpt; its value is the one the tests' golden vectors carry
  (draft-24, \<open>0xff000018\<close>).
\<close>

unbundle bit_operations_syntax

section \<open>Constants\<close>

definition PACKET_TYPE_INITIAL :: byte where "PACKET_TYPE_INITIAL = 0x0"
definition PACKET_TYPE_0RTT :: byte where "PACKET_TYPE_0RTT = 0x01"
definition PACKET_TYPE_HANDSHAKE :: byte where "PACKET_TYPE_HANDSHAKE = 0x2"
definition PACKET_TYPE_RETRY :: byte where "PACKET_TYPE_RETRY = 0x03"

definition PACKET_BIT_LONG :: byte where "PACKET_BIT_LONG = 0x80"
definition PACKET_BIT_SHORT :: byte where "PACKET_BIT_SHORT = 0x00"
definition PACKET_BIT_FIXED_QUIC :: byte where "PACKET_BIT_FIXED_QUIC = 0x40"

definition SAMPLE_SIZE :: nat where "SAMPLE_SIZE = 16"

definition QUIC_VERSION :: u64 where "QUIC_VERSION = 0xff000018"

lemmas packet_consts = PACKET_TYPE_INITIAL_def PACKET_TYPE_0RTT_def PACKET_TYPE_HANDSHAKE_def
  PACKET_TYPE_RETRY_def PACKET_BIT_LONG_def PACKET_BIT_SHORT_def PACKET_BIT_FIXED_QUIC_def
  SAMPLE_SIZE_def QUIC_VERSION_def

section \<open>Packet types\<close>

datatype packet_type = VersionNegotiation | Initial | Handshake | ZeroRtt | Retry | Short

fun code :: "packet_type \<Rightarrow> byte res" where
  "code Initial = Inr PACKET_TYPE_INITIAL"
| "code ZeroRtt = Inr PACKET_TYPE_0RTT"
| "code Handshake = Inr PACKET_TYPE_HANDSHAKE"
| "code Retry = Inr PACKET_TYPE_RETRY"
| "code _ = Inl (Panic ExplicitPanic)"

text \<open>
  The type codes of the specification's table (Packet Type: Initial \<open>0x0\<close>, 0-RTT
  \<open>0x1\<close>, Handshake \<open>0x2\<close>, Retry \<open>0x3\<close>; none for Version Negotiation and
  Short), written from the specification and not from \<open>code\<close>.
\<close>

fun spec_long_type :: "packet_type \<Rightarrow> byte option" where
  "spec_long_type Initial = Some 0x0"
| "spec_long_type ZeroRtt = Some 0x1"
| "spec_long_type Handshake = Some 0x2"
| "spec_long_type Retry = Some 0x3"
| "spec_long_type VersionNegotiation = None"
| "spec_long_type Short = None"

end
