(* ===== verification/Crypto.thy ===== *)
theory Crypto
  imports Packet_Type
begin

text \<open>
  The packet-protection provider \<^verbatim>\<open>CryptoDxState\<close> (\<^verbatim>\<open>crate::crypto\<close>, outside the
  excerpt) as an interface: a record of its three operations over an abstract provider
  state \<open>'c\<close>.  \<open>cx_encrypt\<close> takes \<^verbatim>\<open>&mut self\<close> and so returns the new state;
  \<open>cx_compute_mask\<close> and \<open>cx_expansion\<close> only read it.  Every lemma of the builder is
  stated over an arbitrary provider; where a lemma needs what the specification promises
  of an AEAD (the ciphertext is the plaintext plus \<open>expansion\<close> bytes, the mask is five
  bytes), it assumes \<open>aead_contract\<close>.  \<open>toy_crypto\<close> is a concrete provider that meets
  the contract, used by the witnesses: it is no cipher, only a deterministic stand-in.
\<close>

unbundle bit_operations_syntax

record 'c crypto_ops =
  cx_expansion :: "'c \<Rightarrow> nat"
  cx_encrypt :: "'c \<Rightarrow> u64 \<Rightarrow> bytes \<Rightarrow> bytes \<Rightarrow> (bytes \<times> 'c) res"
  cx_compute_mask :: "'c \<Rightarrow> bytes \<Rightarrow> bytes res"

text \<open>What the specification promises of the provider when it succeeds.\<close>

definition aead_contract :: "'c crypto_ops \<Rightarrow> bool" where
  "aead_contract ops \<longleftrightarrow>
     (\<forall>c v hdr body ct c'. cx_encrypt ops c v hdr body = Inr (ct, c') \<longrightarrow>
         length ct = length body + cx_expansion ops c) \<and>
     (\<forall>c s m. cx_compute_mask ops c s = Inr m \<longrightarrow> length m = 5)"

lemma aead_contract_encrypt:
  "aead_contract ops \<Longrightarrow> cx_encrypt ops c v hdr body = Inr (ct, c') \<Longrightarrow>
     length ct = length body + cx_expansion ops c"
  unfolding aead_contract_def by blast

lemma aead_contract_mask:
  "aead_contract ops \<Longrightarrow> cx_compute_mask ops c s = Inr m \<Longrightarrow> length m = 5"
  by (simp add: aead_contract_def)

text \<open>A provider whose operations never fail, in any state.\<close>

definition provider_total :: "'c crypto_ops \<Rightarrow> bool" where
  "provider_total ops \<longleftrightarrow>
     (\<forall>c v hdr body. \<exists>r. cx_encrypt ops c v hdr body = Inr r) \<and>
     (\<forall>c s. \<exists>m. cx_compute_mask ops c s = Inr m)"

section \<open>A concrete provider\<close>

text \<open>
  State: the next packet number the provider accepts (the real provider refuses to skip
  packet numbers).  Encryption XORs the body with a key byte and appends a 16-byte tag;
  the mask is the first five sample bytes.
\<close>

definition toy_crypto :: "byte \<Rightarrow> u64 crypto_ops" where
  "toy_crypto k =
     \<lparr>cx_expansion = (\<lambda>_. 16),
      cx_encrypt = (\<lambda>next v hdr body.
         if v < next then Inl CryptoError
         else Inr (map (\<lambda>x. x XOR k) body @ replicate 16 k, v + 1)),
      cx_compute_mask = (\<lambda>_ s. Inr (take 5 (s @ replicate 5 0)))\<rparr>"

text \<open>The same stand-in without the packet-number check: it never fails.\<close>

definition toy_crypto_total :: "byte \<Rightarrow> unit crypto_ops" where
  "toy_crypto_total k =
     \<lparr>cx_expansion = (\<lambda>_. 16),
      cx_encrypt = (\<lambda>_ v hdr body. Inr (map (\<lambda>x. x XOR k) body @ replicate 16 k, ())),
      cx_compute_mask = (\<lambda>_ s. Inr (take 5 (s @ replicate 5 0)))\<rparr>"

lemma toy_crypto_contract: "aead_contract (toy_crypto k)"
  by (auto simp: aead_contract_def toy_crypto_def split: if_splits)

lemma toy_crypto_total_contract: "aead_contract (toy_crypto_total k) \<and> provider_total (toy_crypto_total k)"
  by (auto simp: aead_contract_def provider_total_def toy_crypto_total_def min_def)

end
