(* ===== verification/Builder.thy ===== *)
theory Builder
  imports Crypto
begin

text \<open>
  \<^verbatim>\<open>PacketBuilder\<close> (\<^verbatim>\<open>packet2.rs\<close> lines 76--217 and 272--290): the state as two
  records, mirroring \<^verbatim>\<open>PacketBuilderoffsets\<close> and \<^verbatim>\<open>PacketBuilder\<close>, with a
  \<^verbatim>\<open>Range<usize>\<close> as the record \<open>pb_range\<close>; one definition per method.  Methods
  that take \<^verbatim>\<open>&mut self\<close> return the updated builder, methods that consume
  \<^verbatim>\<open>self\<close> return the encoder.  Every index, slice, \<^verbatim>\<open>debug_assert!\<close>,
  \<^verbatim>\<open>assert!\<close> and \<^verbatim>\<open>usize\<close> subtraction of the source is a branch that returns
  \<open>Panic\<close>; errors of the provider propagate as the \<^verbatim>\<open>?\<close> operator does.
\<close>

unbundle bit_operations_syntax

section \<open>State\<close>

record pb_range =
  r_start :: nat
  r_end :: nat

text \<open>\<^verbatim>\<open>ExactSizeIterator::len\<close> of a range: empty when the end is not past the start.\<close>

definition r_len :: "pb_range \<Rightarrow> nat" where
  "r_len r = r_end r - r_start r"

record packet_builder_offsets =
  first_byte_mask :: byte
  offsets_len :: nat
  offsets_pn :: pb_range

record packet_builder =
  encoder :: encoder
  builder_pn :: u64
  header :: pb_range
  offsets :: packet_builder_offsets

section \<open>Starting a packet\<close>

definition short :: "encoder \<Rightarrow> bool \<Rightarrow> bytes \<Rightarrow> packet_builder" where
  "short enc key_phase dcid =
     (let header_start = length enc;
          enc = encode_byte (PACKET_BIT_SHORT OR PACKET_BIT_FIXED_QUIC
                               OR push_bit 2 (of_bool key_phase)) enc;
          enc = encode dcid enc
      in \<lparr>encoder = enc, builder_pn = - 1,
          header = \<lparr>r_start = header_start, r_end = header_start\<rparr>,
          offsets = \<lparr>first_byte_mask = 0x1f, offsets_len = 0,
                     offsets_pn = \<lparr>r_start = 0, r_end = 0\<rparr>\<rparr>\<rparr>)"

definition long :: "encoder \<Rightarrow> packet_type \<Rightarrow> bytes \<Rightarrow> bytes \<Rightarrow> packet_builder res" where
  "long enc pt dcid scid =
     bind_res (code pt) (\<lambda>c.
       let header_start = length enc;
           enc = encode_byte (PACKET_BIT_LONG OR PACKET_BIT_FIXED_QUIC OR push_bit 4 c) enc;
           enc = encode_uint 4 QUIC_VERSION enc;
           enc = encode_vec 1 dcid enc;
           enc = encode_vec 1 scid enc
       in Inr \<lparr>encoder = enc, builder_pn = - 1,
               header = \<lparr>r_start = header_start, r_end = header_start\<rparr>,
               offsets = \<lparr>first_byte_mask = 0x0f, offsets_len = 0,
                          offsets_pn = \<lparr>r_start = 0, r_end = 0\<rparr>\<rparr>\<rparr>)"

definition initial_token :: "packet_builder \<Rightarrow> bytes \<Rightarrow> packet_builder res" where
  "initial_token b token =
     bind_res (get (encoder b) (r_start (header b))) (\<lambda>fb.
       if fb AND 0xb0 \<noteq> (PACKET_BIT_LONG OR push_bit 4 PACKET_TYPE_INITIAL)
       then Inl (Panic DebugAssertion)
       else bind_res (encode_vvec token (encoder b)) (\<lambda>enc. Inr (b\<lparr>encoder := enc\<rparr>)))"

section \<open>The packet number\<close>

text \<open>
  The length placeholder is reserved when bit 7 of the first byte marks a long header;
  then the packet number is written, its range recorded, its length minus one ORed into
  the first byte, and the header closed at its end.
\<close>

definition reserve_len :: "packet_builder \<Rightarrow> byte \<Rightarrow> packet_builder" where
  "reserve_len b fb =
     (if fb AND 0x80 = PACKET_BIT_LONG
      then b\<lparr>offsets := (offsets b)\<lparr>offsets_len := length (encoder b)\<rparr>,
             encoder := encode [0, 0] (encoder b)\<rparr>
      else b)"

definition pn :: "packet_builder \<Rightarrow> u64 \<Rightarrow> nat \<Rightarrow> packet_builder res" where
  "pn b v pn_len =
     bind_res (get (encoder b) (r_start (header b))) (\<lambda>fb.
       let b = reserve_len b fb
       in if \<not> (pn_len \<le> 4 \<and> 0 < pn_len) then Inl (Panic DebugAssertion)
       else
         let pn_offset = length (encoder b);
             enc = encode_uint pn_len v (encoder b);
             hs = r_start (header b)
         in bind_res (get enc hs) (\<lambda>fb'.
            bind_res (set_at enc hs (fb' OR of_nat (pn_len - 1))) (\<lambda>enc.
              Inr (b\<lparr>encoder := enc,
                     offsets := (offsets b)\<lparr>offsets_pn := \<lparr>r_start = pn_offset, r_end = length enc\<rparr>\<rparr>,
                     header := (header b)\<lparr>r_end := length enc\<rparr>,
                     builder_pn := v\<rparr>))))"

section \<open>Finishing a packet\<close>

definition write_len :: "packet_builder \<Rightarrow> nat \<Rightarrow> packet_builder res" where
  "write_len b expansion =
     (let enc = encoder b; off = offsets_len (offsets b)
      in if length enc < off + 2 then Inl (Panic ArithmeticOverflow)
      else
        let len = length enc - (off + 2) + expansion
        in bind_res (set_at enc off (0x40 OR of_nat (drop_bit 8 len AND 0x3f))) (\<lambda>enc.
           bind_res (set_at enc (off + 1) (of_nat (len AND 0xff))) (\<lambda>enc.
             Inr (b\<lparr>encoder := enc\<rparr>))))"

text \<open>
  The loop \<^verbatim>\<open>for (i, j) in (1..=pn_len).zip(pn_range) { encoder[j] ^= mask[i] }\<close>.
\<close>

fun xor_pn :: "bytes \<Rightarrow> bytes \<Rightarrow> (nat \<times> nat) list \<Rightarrow> bytes res" where
  "xor_pn enc msk [] = Inr enc"
| "xor_pn enc msk ((i, j) # ijs) =
     bind_res (get msk i) (\<lambda>m.
     bind_res (get enc j) (\<lambda>x.
     bind_res (set_at enc j (x XOR m)) (\<lambda>enc. xor_pn enc msk ijs)))"

definition pn_indices :: "pb_range \<Rightarrow> (nat \<times> nat) list" where
  "pn_indices r = zip [1..<r_len r + 1] [r_start r..<r_end r]"

definition apply_mask :: "packet_builder \<Rightarrow> bytes \<Rightarrow> bytes res" where
  "apply_mask b msk =
     bind_res (get msk 0) (\<lambda>m0.
     bind_res (get (encoder b) (r_start (header b))) (\<lambda>fb.
     bind_res (set_at (encoder b) (r_start (header b)) (fb XOR (m0 AND first_byte_mask (offsets b))))
       (\<lambda>enc. xor_pn enc msk (pn_indices (offsets_pn (offsets b))))))"

text \<open>
  The body of \<^verbatim>\<open>build\<close> after the length is written: encrypt the body with the
  header as associated data, sample the ciphertext, mask the header in place, replace
  the plaintext body by the ciphertext.
\<close>

definition encrypt_in_place ::
  "'c crypto_ops \<Rightarrow> 'c \<Rightarrow> packet_builder \<Rightarrow> (encoder \<times> 'c) res" where
  "encrypt_in_place ops c b =
     (let enc = encoder b; hs = r_start (header b); he = r_end (header b)
      in if \<not> (hs \<le> he \<and> he \<le> length enc) then Inl (Panic IndexOutOfBounds)
      else bind_res (cx_encrypt ops c (builder_pn b) (slice enc hs he) (drop he enc)) (\<lambda>(ct, c).
        let pnl = r_len (offsets_pn (offsets b))
        in if 4 < pnl then Inl (Panic ArithmeticOverflow)
        else
          let offset = 4 - pnl
          in if \<not> (offset + SAMPLE_SIZE \<le> length ct) then Inl (Panic AssertionFailed)
          else bind_res (cx_compute_mask ops c (slice ct offset (offset + SAMPLE_SIZE))) (\<lambda>msk.
               bind_res (apply_mask b msk) (\<lambda>enc.
                 Inr (encode ct (take he enc), c)))))"

definition build :: "'c crypto_ops \<Rightarrow> 'c \<Rightarrow> packet_builder \<Rightarrow> (encoder \<times> 'c) res" where
  "build ops c b =
     bind_res (if 0 < offsets_len (offsets b) then write_len b (cx_expansion ops c) else Inr b)
       (encrypt_in_place ops c)"

definition abort :: "packet_builder \<Rightarrow> encoder" where
  "abort b = take (r_start (header b)) (encoder b)"

definition is_empty :: "packet_builder \<Rightarrow> bool" where
  "is_empty b \<longleftrightarrow> length (encoder b) = r_end (header b)"

text \<open>Reading the buffer through \<^verbatim>\<open>Deref\<close> (\<^verbatim>\<open>builder.len()\<close>, \<^verbatim>\<open>&builder[..]\<close>).\<close>

definition deref :: "packet_builder \<Rightarrow> encoder" where
  "deref b = encoder b"

text \<open>Writing payload through \<^verbatim>\<open>DerefMut\<close>: \<^verbatim>\<open>builder.encode(bytes)\<close>.\<close>

definition builder_encode :: "bytes \<Rightarrow> packet_builder \<Rightarrow> packet_builder" where
  "builder_encode v b = b\<lparr>encoder := encode v (encoder b)\<rparr>"

definition into_encoder :: "packet_builder \<Rightarrow> encoder" where
  "into_encoder b = encoder b"

end
