(* ===== verification/Wire.thy ===== *)
theory Wire
  imports Crypto
begin

text \<open>
  The wire format the builder must produce, stated directly from the specification's
  table (section 6) rather than from the code: the plain short and long headers, the
  2-byte length field, header protection as an XOR of mask bytes onto the first byte
  and the packet-number bytes, and \<open>seal\<close>, the protection procedure (encrypt the body
  with the header as associated data, sample the ciphertext at \<open>4 - pn_len\<close>, mask
  the header).  The builder theories prove that the incremental builder computes
  exactly this.
\<close>

unbundle bit_operations_syntax

section \<open>Header protection\<close>

definition xor_span :: "nat \<Rightarrow> nat \<Rightarrow> nat \<Rightarrow> bytes \<Rightarrow> bytes \<Rightarrow> bytes" where
  "xor_span s n a msk h =
     map (\<lambda>(i, x). if s \<le> i \<and> i < s + n then x XOR msk ! (i - s + a) else x) (zip [0..<length h] h)"

definition first_byte_xor :: "byte \<Rightarrow> bytes \<Rightarrow> bytes" where
  "first_byte_xor m h = h[0 := h ! 0 XOR m]"

definition protect :: "byte \<Rightarrow> nat \<Rightarrow> nat \<Rightarrow> bytes \<Rightarrow> bytes \<Rightarrow> bytes" where
  "protect fbm k l msk h = xor_span k l 1 msk (first_byte_xor (msk ! 0 AND fbm) h)"

lemma length_xor_span [simp]: "length (xor_span s n a msk h) = length h"
  by (simp add: xor_span_def)

lemma nth_xor_span:
  "i < length h \<Longrightarrow>
     xor_span s n a msk h ! i = (if s \<le> i \<and> i < s + n then h ! i XOR msk ! (i - s + a) else h ! i)"
  by (simp add: xor_span_def)

lemma xor_span_involution [simp]: "xor_span s n a msk (xor_span s n a msk h) = h"
  by (rule nth_equalityI) (simp_all add: nth_xor_span)

lemma xor_span_append_left:
  "length p \<le> s \<Longrightarrow> xor_span s n a msk (p @ h) = p @ xor_span (s - length p) n a msk h"
  by (rule nth_equalityI) (auto simp: nth_xor_span nth_append)

lemma length_first_byte_xor [simp]: "length (first_byte_xor m h) = length h"
  by (simp add: first_byte_xor_def)

lemma nth_first_byte_xor:
  "i < length h \<Longrightarrow> first_byte_xor m h ! i = (if i = 0 then h ! 0 XOR m else h ! i)"
  by (cases "i = 0") (simp_all add: first_byte_xor_def)

lemma first_byte_xor_involution [simp]: "first_byte_xor m (first_byte_xor m h) = h"
  by (rule nth_equalityI) (auto simp: nth_first_byte_xor)

lemma xor_span_first_byte_xor_commute:
  "0 < k \<Longrightarrow> xor_span k l a msk (first_byte_xor m h) = first_byte_xor m (xor_span k l a msk h)"
  by (rule nth_equalityI) (auto simp: nth_xor_span nth_first_byte_xor)

lemma length_protect [simp]: "length (protect fbm k l msk h) = length h"
  by (simp add: protect_def)

section \<open>The length field\<close>

definition length_field :: "nat \<Rightarrow> bytes" where
  "length_field n = [of_nat (64 + n div 256 mod 64), of_nat (n mod 256)]"

lemma length_length_field [simp]: "length (length_field n) = 2"
  by (simp add: length_field_def)

lemma code_len_bytes:
  "[0x40 OR of_nat (drop_bit 8 n AND 0x3f), of_nat (n AND 0xff)] = length_field n"
proof -
  have a: "drop_bit 8 n AND 0x3f = n div 256 mod 64"
    using and_low_mask_nat [of "n div 256" 6] by (simp add: drop_bit_eq_div)
  have b: "n AND 0xff = n mod 256"
    using and_low_mask_nat [of n 8] by simp
  have c: "(64::nat) OR n div 256 mod 64 = 64 + n div 256 mod 64"
    using push_bit_or_small [of "n div 256 mod 64" 6 1] by simp
  have "(0x40 OR of_nat (n div 256 mod 64) :: byte) = of_nat (64 OR n div 256 mod 64)"
    by (simp add: of_nat_or_eq)
  then show ?thesis by (simp add: length_field_def a b c)
qed

lemma decode_length_field: "decode_be (length_field n) = 16384 + n mod 16384"
proof -
  have a: "unat (of_nat (64 + n div 256 mod 64) :: byte) = 64 + n div 256 mod 64"
    by (rule unat_of_nat_small) simp
  have b: "unat (of_nat (n mod 256) :: byte) = n mod 256"
    by (rule unat_of_nat_small) simp
  have "decode_be (length_field n)
      = unat (of_nat (64 + n div 256 mod 64) :: byte) * 256 + unat (of_nat (n mod 256) :: byte)"
    unfolding length_field_def
    using decode_be_append [of "[of_nat (64 + n div 256 mod 64)]" "[of_nat (n mod 256)]"]
    by (simp del: of_nat_add)
  also have "\<dots> = 16384 + n mod 16384"
    unfolding a b using mod_mult2_eq [of n 256 64] by simp
  finally show ?thesis .
qed

section \<open>Plain headers\<close>

lemma ucast_of_nat_byte: "(ucast (of_nat n :: u64) :: byte) = of_nat n"
  by (simp add: unsigned_of_nat word_of_nat_eq_iff take_bit_take_bit)

lemma be_bytes_one [simp]: "be_bytes 1 v = [ucast v]"
  by (simp add: numeral_eq_Suc)

lemma nth_protect:
  "i < length h \<Longrightarrow> protect fbm k l msk h ! i =
     (if k \<le> i \<and> i < k + l then first_byte_xor (msk ! 0 AND fbm) h ! i XOR msk ! (i - k + 1)
      else first_byte_xor (msk ! 0 AND fbm) h ! i)"
  by (simp add: protect_def nth_xor_span)

definition short_header :: "bool \<Rightarrow> bytes \<Rightarrow> nat \<Rightarrow> u64 \<Rightarrow> bytes" where
  "short_header key_phase dcid l v =
     [0x40 OR push_bit 2 (of_bool key_phase) OR of_nat (l - 1)] @ dcid @ be_bytes l v"

definition long_header :: "byte \<Rightarrow> bytes \<Rightarrow> bytes \<Rightarrow> bytes \<Rightarrow> nat \<Rightarrow> nat \<Rightarrow> u64 \<Rightarrow> bytes" where
  "long_header c dcid scid tok n l v =
     [0xc0 OR push_bit 4 c OR of_nat (l - 1)] @ be_bytes 4 QUIC_VERSION
     @ [of_nat (length dcid)] @ dcid @ [of_nat (length scid)] @ scid @ tok
     @ length_field n @ be_bytes l v"

section \<open>Sealing a packet\<close>

text \<open>
  \<open>seal ops c v fbm k l hdr body\<close>: the protected packet for the plain header \<open>hdr\<close>
  whose packet number (\<open>l\<close> bytes) starts at offset \<open>k\<close>.
\<close>

definition seal ::
  "'c crypto_ops \<Rightarrow> 'c \<Rightarrow> u64 \<Rightarrow> byte \<Rightarrow> nat \<Rightarrow> nat \<Rightarrow> bytes \<Rightarrow> bytes \<Rightarrow> (bytes \<times> 'c) res"
where
  "seal ops c v fbm k l hdr body =
     bind_res (cx_encrypt ops c v hdr body) (\<lambda>(ct, c').
       if length ct < 4 - l + SAMPLE_SIZE then Inl (Panic AssertionFailed)
       else bind_res (cx_compute_mask ops c' (slice ct (4 - l) (4 - l + SAMPLE_SIZE))) (\<lambda>msk.
         Inr (protect fbm k l msk hdr @ ct, c')))"

section \<open>Removing header protection\<close>

text \<open>
  What a receiver does (RFC 9001, 5.4.1), written independently of the builder: it
  removes mask byte 0 from the first byte under the mask its long-header bit selects
  (\<open>0x0f\<close> long, \<open>0x1f\<close> short), reads the packet-number length from the two low
  bits it has just recovered, and removes mask bytes \<open>1..pn_len\<close> from the packet
  number at offset \<open>po\<close>.  \<open>hs\<close> is the offset of the packet's first byte.
\<close>

definition unprotect :: "nat \<Rightarrow> nat \<Rightarrow> bytes \<Rightarrow> bytes \<Rightarrow> bytes" where
  "unprotect hs po msk bs =
     (let fb = bs ! hs XOR (msk ! 0 AND (if bs ! hs AND 0x80 = 0x80 then 0x0f else 0x1f));
          l = unat (fb AND 3) + 1
      in xor_span po l 1 msk (bs[hs := fb]))"

section \<open>What sealing leaves alone\<close>

lemma protect_keeps_prefix:
  "Suc (length T) \<le> k \<Longrightarrow>
     protect fbm k l msk (x # T @ R) = (x XOR (msk ! 0 AND fbm)) # T @ xor_span (k - Suc (length T)) l 1 msk R"
proof -
  assume k: "Suc (length T) \<le> k"
  have "protect fbm k l msk (x # T @ R) = xor_span k l 1 msk (((x XOR (msk ! 0 AND fbm)) # T) @ R)"
    by (simp add: protect_def first_byte_xor_def)
  also have "\<dots> = ((x XOR (msk ! 0 AND fbm)) # T) @ xor_span (k - Suc (length T)) l 1 msk R"
    using k by (subst xor_span_append_left) simp_all
  finally show ?thesis by simp
qed

lemma long_bit_after_mask: "(y XOR (m AND 0x0f) :: byte) AND 0x80 = y AND 0x80"
  by (simp add: bit.conj_xor_distrib2 and.assoc)

lemma seal_Inr:
  "seal ops c v fbm k l hdr body = Inr (x, c') \<Longrightarrow>
     \<exists>msk ct. x = protect fbm k l msk hdr @ ct"
  by (auto simp: seal_def bind_res_eq_Inr split: if_splits prod.splits)

end
