(* ===== verification/Builder_Correct.thy ===== *)
theory Builder_Correct
  imports Builder Wire
begin

text \<open>
  Refinement of the builder to the wire format of \<open>Wire\<close>: the masking loop equals
  \<open>xor_span\<close>, builders are described by the layouts \<open>open_builder\<close> (header open)
  and \<open>numbered\<close> (packet number written), each method is computed on these layouts,
  and the whole pipeline \<^verbatim>\<open>short\<close>/\<^verbatim>\<open>long\<close>, \<^verbatim>\<open>initial_token\<close>, \<^verbatim>\<open>pn\<close>,
  payload, \<^verbatim>\<open>build\<close> appends exactly \<open>seal\<close> of the specification's header (C1--C3),
  with witnesses at the inputs of the unit tests.
\<close>

unbundle bit_operations_syntax

section \<open>The header-protection loop\<close>

lemma xor_span_zero [simp]: "xor_span s 0 a msk h = h"
  by (rule nth_equalityI) (auto simp: nth_xor_span)

lemma xor_span_step:
  "s < length h \<Longrightarrow>
     xor_span (Suc s) n (Suc a) msk (h[s := h ! s XOR msk ! a]) = xor_span s (Suc n) a msk h"
  by (rule nth_equalityI) (auto simp: nth_xor_span nth_list_update Suc_diff_Suc)

lemma xor_pn_span:
  "s + n \<le> length enc \<Longrightarrow> a + n \<le> length msk \<Longrightarrow>
     xor_pn enc msk (zip [a..<a + n] [s..<s + n]) = Inr (xor_span s n a msk enc)"
proof (induction n arbitrary: a s enc)
  case 0
  then show ?case by simp
next
  case (Suc n)
  have z: "zip [a..<a + Suc n] [s..<s + Suc n] = (a, s) # zip [Suc a..<Suc a + n] [Suc s..<Suc s + n]"
    by (simp add: upt_conv_Cons)
  have "xor_pn enc msk (zip [a..<a + Suc n] [s..<s + Suc n])
      = xor_pn enc msk ((a, s) # zip [Suc a..<Suc a + n] [Suc s..<Suc s + n])"
    by (simp only: z)
  also have "\<dots> = xor_pn (enc[s := enc ! s XOR msk ! a]) msk (zip [Suc a..<Suc a + n] [Suc s..<Suc s + n])"
    using Suc.prems by (simp del: upt_Suc)
  also have "\<dots> = Inr (xor_span (Suc s) n (Suc a) msk (enc[s := enc ! s XOR msk ! a]))"
    using Suc.prems by (intro Suc.IH) simp_all
  also have "\<dots> = Inr (xor_span s (Suc n) a msk enc)"
    using Suc.prems by (simp add: xor_span_step)
  finally show ?case .
qed

lemma xor_span_append_right:
  "s + n \<le> length h \<Longrightarrow> xor_span s n a msk (h @ t) = xor_span s n a msk h @ t"
  by (rule nth_equalityI) (auto simp: nth_xor_span nth_append)

lemma first_byte_xor_append:
  "h \<noteq> [] \<Longrightarrow> first_byte_xor m (h @ t) = first_byte_xor m h @ t"
  by (cases h) (simp_all add: first_byte_xor_def)

section \<open>Builder layouts\<close>

text \<open>
  A builder whose header \<open>h\<close> is closed (\<^verbatim>\<open>pn\<close> was called, the packet number is
  the last \<open>l\<close> bytes of \<open>h\<close>), written after the earlier packets \<open>P\<close> and
  followed by the payload \<open>body\<close>.
\<close>

definition numbered ::
  "encoder \<Rightarrow> bytes \<Rightarrow> bytes \<Rightarrow> byte \<Rightarrow> nat \<Rightarrow> nat \<Rightarrow> u64 \<Rightarrow> packet_builder" where
  "numbered P h body fbm lo l v =
     \<lparr>encoder = P @ h @ body, builder_pn = v,
      header = \<lparr>r_start = length P, r_end = length P + length h\<rparr>,
      offsets = \<lparr>first_byte_mask = fbm, offsets_len = lo,
                 offsets_pn = \<lparr>r_start = length P + length h - l, r_end = length P + length h\<rparr>\<rparr>\<rparr>"

lemma builder_encode_numbered [simp]:
  "builder_encode t (numbered P h body fbm lo l v) = numbered P h (body @ t) fbm lo l v"
  by (simp add: builder_encode_def numbered_def encode_def)

lemma set_first_after_prefix:
  "h \<noteq> [] \<Longrightarrow> (P @ h @ t)[length P := x] = P @ h[0 := x] @ t"
  by (cases h) (simp_all add: list_update_append)

lemma apply_mask_numbered:
  assumes "l < length msk" and "l < length h"
  shows "apply_mask (numbered P h body fbm lo l v) msk = Inr (P @ protect fbm (length h - l) l msk h @ body)"
proof -
  let ?fx = "first_byte_xor (msk ! 0 AND fbm) h"
  from assms have h: "h \<noteq> []" and m: "0 < length msk" by auto
  have idx: "pn_indices \<lparr>r_start = length P + length h - l, r_end = length P + length h\<rparr>
      = zip [1..<1 + l] [length P + (length h - l)..<length P + (length h - l) + l]"
    using assms by (simp add: pn_indices_def r_len_def add.commute)
  have upd: "(P @ h @ body)[length P := h ! 0 XOR (msk ! 0 AND fbm)] = P @ ?fx @ body"
    using h by (simp add: set_first_after_prefix first_byte_xor_def)
  have "xor_pn (P @ ?fx @ body) msk (zip [1..<1 + l] [length P + (length h - l)..<length P + (length h - l) + l])
      = Inr (xor_span (length P + (length h - l)) l 1 msk (P @ ?fx @ body))"
    using assms by (intro xor_pn_span) simp_all
  also have "xor_span (length P + (length h - l)) l 1 msk (P @ ?fx @ body)
      = P @ xor_span (length h - l) l 1 msk ?fx @ body"
    using assms by (simp add: xor_span_append_left xor_span_append_right)
  finally show ?thesis
    using h m by (simp add: apply_mask_def numbered_def idx upd nth_append protect_def)
qed

lemma encrypt_in_place_numbered:
  assumes ops: "aead_contract ops" and l: "0 < l" "l \<le> 4" "l < length h"
  shows "encrypt_in_place ops c (numbered P h body fbm lo l v)
    = map_sum id (\<lambda>(x, c'). (P @ x, c')) (seal ops c v fbm (length h - l) l h body)"
proof (cases "cx_encrypt ops c v h body")
  case (Inl e)
  then show ?thesis
    by (simp add: encrypt_in_place_def seal_def numbered_def slice_def)
next
  case (Inr r)
  obtain ct c' where r: "r = (ct, c')" by (cases r)
  have rl: "r_len \<lparr>r_start = length P + length h - l, r_end = length P + length h\<rparr> = l"
    using l by (simp add: r_len_def)
  show ?thesis
  proof (cases "cx_compute_mask ops c' (slice ct (4 - l) (4 - l + SAMPLE_SIZE))")
    case (Inl e)
    with Inr r l show ?thesis
      by (simp add: encrypt_in_place_def seal_def numbered_def slice_def rl Let_def)
  next
    case (Inr msk)
    have "length msk = 5" using ops Inr by (rule aead_contract_mask)
    with l have am: "apply_mask (numbered P h body fbm lo l v) msk
        = Inr (P @ protect fbm (length h - l) l msk h @ body)"
      by (intro apply_mask_numbered) simp_all
    from \<open>cx_encrypt ops c v h body = Inr r\<close> r l Inr am show ?thesis
      by (simp add: encrypt_in_place_def seal_def numbered_def slice_def rl Let_def encode_def)
  qed
qed

lemma write_len_numbered:
  assumes "length pnb = l"
  shows "write_len (numbered P (h1 @ [x, y] @ pnb) body fbm (length P + length h1) l v) e
    = Inr (numbered P (h1 @ length_field (l + length body + e) @ pnb) body fbm (length P + length h1) l v)"
proof -
  have n: "length P + length h1 + 2 + l + length body - (length P + length h1 + 2) + e = l + length body + e"
    by simp
  have "[0x40 OR of_nat (drop_bit 8 (l + length body + e) AND 0x3f), of_nat ((l + length body + e) AND 0xff)]
      = length_field (l + length body + e)"
    by (rule code_len_bytes)
  then obtain b0 b1 where lf: "length_field (l + length body + e) = [b0, b1]"
    and b0: "b0 = 0x40 OR of_nat (drop_bit 8 (l + length body + e) AND 0x3f)"
    and b1: "b1 = of_nat ((l + length body + e) AND 0xff)"
    by simp
  show ?thesis
    using assms
    by (simp add: write_len_def numbered_def Let_def list_update_append lf b0 b1 n)
qed

definition open_builder :: "encoder \<Rightarrow> bytes \<Rightarrow> byte \<Rightarrow> packet_builder" where
  "open_builder P h fbm =
     \<lparr>encoder = P @ h, builder_pn = - 1,
      header = \<lparr>r_start = length P, r_end = length P\<rparr>,
      offsets = \<lparr>first_byte_mask = fbm, offsets_len = 0, offsets_pn = \<lparr>r_start = 0, r_end = 0\<rparr>\<rparr>\<rparr>"

lemma pn_open:
  assumes "h \<noteq> []" and "0 < l" and "l \<le> 4"
  shows "pn (open_builder P h fbm) v l = Inr
    (if h ! 0 AND 0x80 = PACKET_BIT_LONG
     then numbered P (h[0 := h ! 0 OR of_nat (l - 1)] @ [0, 0] @ be_bytes l v) [] fbm (length P + length h) l v
     else numbered P (h[0 := h ! 0 OR of_nat (l - 1)] @ be_bytes l v) [] fbm 0 l v)"
proof -
  have h0: "(P @ h @ t) ! length P = h ! 0" for t
    using assms(1) by (simp add: nth_append)
  show ?thesis
    using assms h0 [of "[]"] h0 [of "[0, 0] @ be_bytes l v"] h0 [of "be_bytes l v"]
    by (simp add: pn_def open_builder_def reserve_len_def numbered_def encode_def
        encode_uint_be_bytes set_first_after_prefix Let_def)
qed

lemma build_numbered_no_len:
  "build ops c (numbered P h body fbm 0 l v) = encrypt_in_place ops c (numbered P h body fbm 0 l v)"
  by (simp add: build_def numbered_def)

lemma build_numbered_len:
  assumes "length pnb = l" and "h1 \<noteq> []"
  shows "build ops c (numbered P (h1 @ [x, y] @ pnb) body fbm (length P + length h1) l v)
    = encrypt_in_place ops c
        (numbered P (h1 @ length_field (l + length body + cx_expansion ops c) @ pnb) body fbm
           (length P + length h1) l v)"
proof -
  have "0 < offsets_len (offsets (numbered P (h1 @ [x, y] @ pnb) body fbm (length P + length h1) l v))"
    using assms(2) by (simp add: numbered_def)
  then show ?thesis
    using assms(1) by (simp only: build_def if_True write_len_numbered bind_res_Inr)
qed

section \<open>Starting a packet, in layout form\<close>

lemma short_open: "short P key_phase dcid = open_builder P ((0x40 OR push_bit 2 (of_bool key_phase)) # dcid) 0x1f"
  by (simp add: short_def open_builder_def PACKET_BIT_SHORT_def PACKET_BIT_FIXED_QUIC_def
      encode_byte_def encode_def Let_def)

lemma long_fixed_bits: "(PACKET_BIT_LONG OR PACKET_BIT_FIXED_QUIC OR x) = 0xc0 OR x"
  by (simp add: PACKET_BIT_LONG_def PACKET_BIT_FIXED_QUIC_def flip: or.assoc)

definition long_prefix :: "byte \<Rightarrow> bytes \<Rightarrow> bytes \<Rightarrow> bytes" where
  "long_prefix c dcid scid =
     (0xc0 OR push_bit 4 c) # be_bytes 4 QUIC_VERSION @ [of_nat (length dcid)] @ dcid
       @ [of_nat (length scid)] @ scid"

lemma long_open:
  "code pt = Inr c \<Longrightarrow> long P pt dcid scid = Inr (open_builder P (long_prefix c dcid scid) 0x0f)"
  by (simp add: long_def open_builder_def long_prefix_def long_fixed_bits Let_def
      encode_byte_def encode_def encode_vec_def encode_uint_be_bytes ucast_of_nat_byte)

lemma code_first_byte_long:
  "code pt = Inr c \<Longrightarrow> (0xc0 OR push_bit 4 c) AND 0x80 = PACKET_BIT_LONG"
  by (cases pt) (simp_all add: packet_consts)

lemma initial_token_open:
  "initial_token (open_builder P (long_prefix PACKET_TYPE_INITIAL dcid scid) fbm) token
     = bind_res (encode_vvec token []) (\<lambda>t.
         Inr (open_builder P (long_prefix PACKET_TYPE_INITIAL dcid scid @ t) fbm))"
  by (cases "encode_vvec token []")
    (simp_all add: initial_token_def open_builder_def long_prefix_def nth_append packet_consts
      encode_vvec_append [of _ "P @ _"])

section \<open>End to end: the builder produces the sealed wire format\<close>

lemma first_or_pn_len:
  "h \<noteq> [] \<Longrightarrow> h[0 := h ! 0 OR x] = (h ! 0 OR x) # tl h"
  by (cases h) simp_all

lemma short_pipeline:
  assumes "aead_contract ops" and "0 < l" and "l \<le> 4"
  shows "bind_res (pn (short P key_phase dcid) v l) (\<lambda>b. build ops c (builder_encode payload b))
    = map_sum id (\<lambda>(x, c'). (P @ x, c'))
        (seal ops c v 0x1f (Suc (length dcid)) l (short_header key_phase dcid l v) payload)"
proof -
  let ?h = "(0x40 OR push_bit 2 (of_bool key_phase)) # dcid"
  have fb: "?h ! 0 AND 0x80 \<noteq> PACKET_BIT_LONG"
    by (cases key_phase) (simp_all add: PACKET_BIT_LONG_def)
  have hdr: "?h[0 := ?h ! 0 OR of_nat (l - 1)] @ be_bytes l v = short_header key_phase dcid l v"
    by (cases key_phase) (simp_all add: short_header_def flip: or.assoc)
  have "pn (open_builder P ?h 0x1f) v l = Inr
      (if ?h ! 0 AND 0x80 = PACKET_BIT_LONG
       then numbered P (?h[0 := ?h ! 0 OR of_nat (l - 1)] @ [0, 0] @ be_bytes l v) [] 0x1f (length P + length ?h) l v
       else numbered P (?h[0 := ?h ! 0 OR of_nat (l - 1)] @ be_bytes l v) [] 0x1f 0 l v)"
    using assms by (intro pn_open) simp_all
  then have "pn (short P key_phase dcid) v l = Inr (numbered P (short_header key_phase dcid l v) [] 0x1f 0 l v)"
    by (simp only: short_open fb hdr if_False)
  moreover have "length (short_header key_phase dcid l v) - l = Suc (length dcid)"
    by (simp add: short_header_def)
  moreover have "l < length (short_header key_phase dcid l v)"
    by (simp add: short_header_def)
  ultimately show ?thesis
    using assms by (simp add: build_numbered_no_len encrypt_in_place_numbered)
qed

text \<open>
  C1. Building a short-header packet (\<^verbatim>\<open>short\<close>, \<^verbatim>\<open>pn\<close>, payload, \<^verbatim>\<open>build\<close>)
  appends to the buffer exactly the sealed packet of the specification: the plain header
  \<open>0x40 | key_phase << 2 | (pn_len - 1)\<close>, the raw destination CID and the packet
  number, protected with mask byte 0 restricted to \<open>0x1f\<close> and mask bytes
  \<open>1..pn_len\<close> on the packet number, followed by the ciphertext; every error of the
  provider and the sampling assertion are passed through unchanged.
\<close>

theorem short_packet_wire:
  assumes "aead_contract ops" and "0 < l" and "l \<le> 4"
  shows "bind_res (pn (short P key_phase dcid) v l) (\<lambda>b. build ops c (builder_encode payload b))
    = map_sum id (\<lambda>(x, c'). (P @ x, c'))
        (seal ops c v 0x1f (Suc (length dcid)) l (short_header key_phase dcid l v) payload)"
  using assms by (rule short_pipeline)

lemma long_open_pipeline:
  assumes ops: "aead_contract ops" and l: "0 < l" "l \<le> 4"
    and h: "h \<noteq> []" "h ! 0 AND 0x80 = PACKET_BIT_LONG"
  shows "bind_res (pn (open_builder P h 0x0f) v l) (\<lambda>b. build ops c (builder_encode payload b))
    = map_sum id (\<lambda>(x, c'). (P @ x, c'))
        (seal ops c v 0x0f (length h + 2) l
           (h[0 := h ! 0 OR of_nat (l - 1)] @ length_field (l + length payload + cx_expansion ops c)
              @ be_bytes l v) payload)"
proof -
  let ?h' = "h[0 := h ! 0 OR of_nat (l - 1)]"
  let ?lf = "length_field (l + length payload + cx_expansion ops c)"
  have "pn (open_builder P h 0x0f) v l = Inr (numbered P (?h' @ [0, 0] @ be_bytes l v) [] 0x0f (length P + length ?h') l v)"
    using h l by (simp add: pn_open)
  moreover have "build ops c (numbered P (?h' @ [0, 0] @ be_bytes l v) payload 0x0f (length P + length ?h') l v)
      = encrypt_in_place ops c (numbered P (?h' @ ?lf @ be_bytes l v) payload 0x0f (length P + length ?h') l v)"
    using h(1) by (intro build_numbered_len) simp_all
  moreover have "encrypt_in_place ops c (numbered P (?h' @ ?lf @ be_bytes l v) payload 0x0f (length P + length ?h') l v)
      = map_sum id (\<lambda>(x, c'). (P @ x, c')) (seal ops c v 0x0f (length h + 2) l (?h' @ ?lf @ be_bytes l v) payload)"
    using encrypt_in_place_numbered [OF ops l, of "?h' @ ?lf @ be_bytes l v"] by simp
  ultimately show ?thesis by simp
qed

lemma long_pipeline:
  assumes "aead_contract ops" and "0 < l" and "l \<le> 4" and "code pt = Inr c0"
  shows "bind_res (long P pt dcid scid)
      (\<lambda>b. bind_res (pn b v l) (\<lambda>b. build ops c (builder_encode payload b)))
    = map_sum id (\<lambda>(x, c'). (P @ x, c'))
        (seal ops c v 0x0f (9 + length dcid + length scid) l
           (long_header c0 dcid scid [] (l + length payload + cx_expansion ops c) l v) payload)"
proof -
  have h: "long_prefix c0 dcid scid \<noteq> []"
    "long_prefix c0 dcid scid ! 0 AND 0x80 = PACKET_BIT_LONG"
    using code_first_byte_long [OF assms(4)] by (simp_all add: long_prefix_def)
  show ?thesis
    using long_open_pipeline [OF assms(1-3) h, of P v c payload] assms(4)
    by (simp add: long_open long_prefix_def long_header_def or.assoc add.assoc)
qed

text \<open>
  C2. Building a long-header packet of any type with a type code (\<^verbatim>\<open>long\<close>,
  \<^verbatim>\<open>pn\<close>, payload, \<^verbatim>\<open>build\<close>) appends exactly the sealed packet whose plain
  header is \<open>0xc0 | code << 4 | (pn_len - 1)\<close>, the version, both CIDs length-prefixed,
  the 2-byte length field of \<open>pn_len + payload + expansion\<close> and the packet number,
  protected with mask \<open>0x0f\<close>.  Without \<^verbatim>\<open>initial_token\<close> an Initial packet
  gets no token field at all.
\<close>

theorem long_packet_wire:
  assumes "aead_contract ops" and "0 < l" and "l \<le> 4" and "code pt = Inr c0"
  shows "bind_res (long P pt dcid scid)
      (\<lambda>b. bind_res (pn b v l) (\<lambda>b. build ops c (builder_encode payload b)))
    = map_sum id (\<lambda>(x, c'). (P @ x, c'))
        (seal ops c v 0x0f (9 + length dcid + length scid) l
           (long_header c0 dcid scid [] (l + length payload + cx_expansion ops c) l v) payload)"
  using assms by (rule long_pipeline)

lemma initial_pipeline:
  assumes "aead_contract ops" and "0 < l" and "l \<le> 4"
  shows "bind_res (long P Initial dcid scid)
      (\<lambda>b. bind_res (initial_token b token)
      (\<lambda>b. bind_res (pn b v l) (\<lambda>b. build ops c (builder_encode payload b))))
    = bind_res (encode_vvec token []) (\<lambda>t. map_sum id (\<lambda>(x, c'). (P @ x, c'))
        (seal ops c v 0x0f (9 + length dcid + length scid + length t) l
           (long_header PACKET_TYPE_INITIAL dcid scid t (l + length payload + cx_expansion ops c) l v)
           payload))"
proof -
  have ci: "code Initial = Inr PACKET_TYPE_INITIAL" by simp
  show ?thesis
  proof (cases "encode_vvec token []")
  case (Inl e)
  then show ?thesis
    by (simp add: long_open [OF ci] initial_token_open)
next
  case (Inr t)
  have h: "long_prefix PACKET_TYPE_INITIAL dcid scid @ t \<noteq> []"
    "(long_prefix PACKET_TYPE_INITIAL dcid scid @ t) ! 0 AND 0x80 = PACKET_BIT_LONG"
    using code_first_byte_long [OF ci] by (simp_all add: long_prefix_def)
  have "bind_res (long P Initial dcid scid)
      (\<lambda>b. bind_res (initial_token b token)
      (\<lambda>b. bind_res (pn b v l) (\<lambda>b. build ops c (builder_encode payload b))))
    = bind_res (pn (open_builder P (long_prefix PACKET_TYPE_INITIAL dcid scid @ t) 0x0f) v l)
        (\<lambda>b. build ops c (builder_encode payload b))"
    by (simp add: long_open [OF ci] initial_token_open Inr)
  also have "\<dots> = map_sum id (\<lambda>(x, c'). (P @ x, c'))
        (seal ops c v 0x0f (9 + length dcid + length scid + length t) l
           (long_header PACKET_TYPE_INITIAL dcid scid t (l + length payload + cx_expansion ops c) l v)
           payload)"
    using long_open_pipeline [OF assms(1-3) h, of P v c payload]
    by (simp add: long_prefix_def long_header_def or.assoc add.assoc)
  finally show ?thesis by (simp add: Inr)
qed
qed

text \<open>
  C3. An Initial packet built with \<^verbatim>\<open>initial_token\<close> carries the token as a
  varint-length-prefixed field between the source CID and the length field; otherwise
  it is sealed as in C2, and a token too long for a varint makes the whole build fail.
\<close>

theorem initial_packet_wire:
  assumes "aead_contract ops" and "0 < l" and "l \<le> 4"
  shows "bind_res (long P Initial dcid scid)
      (\<lambda>b. bind_res (initial_token b token)
      (\<lambda>b. bind_res (pn b v l) (\<lambda>b. build ops c (builder_encode payload b))))
    = bind_res (encode_vvec token []) (\<lambda>t. map_sum id (\<lambda>(x, c'). (P @ x, c'))
        (seal ops c v 0x0f (9 + length dcid + length scid + length t) l
           (long_header PACKET_TYPE_INITIAL dcid scid t (l + length payload + cx_expansion ops c) l v)
           payload))"
  using assms by (rule initial_pipeline)

section \<open>The tests' inputs\<close>

text \<open>The connection IDs of the unit tests of \<^verbatim>\<open>packet2.rs\<close>.\<close>

definition CLIENT_CID :: bytes where
  "CLIENT_CID = [0x83, 0x94, 0xc8, 0xf0, 0x3e, 0x51, 0x57, 0x08]"

definition SERVER_CID :: bytes where
  "SERVER_CID = [0xf0, 0x67, 0xa5, 0x50, 0x2a, 0x42, 0x62, 0xb5]"

text \<open>\<^verbatim>\<open>build_short\<close>: one packet-number byte and three payload bytes make 29 bytes.\<close>

theorem short_packet_wire_witness:
  "aead_contract (toy_crypto 7) \<and>
   map_sum id (length \<circ> fst)
     (bind_res (pn (short [] True SERVER_CID) 0 1) (\<lambda>b. build (toy_crypto 7) 0 (builder_encode [0, 0, 0] b)))
   = Inr 29"
proof -
  have "bind_res (pn (short [] True SERVER_CID) 0 1) (\<lambda>b. build (toy_crypto 7) 0 (builder_encode [0, 0, 0] b))
      = map_sum id (\<lambda>(x, c'). ([] @ x, c'))
          (seal (toy_crypto 7) 0 0 0x1f (Suc (length SERVER_CID)) 1 (short_header True SERVER_CID 1 0) [0, 0, 0])"
    by (rule short_packet_wire [OF toy_crypto_contract]) simp_all
  then have "map_sum id (length \<circ> fst)
     (bind_res (pn (short [] True SERVER_CID) 0 1) (\<lambda>b. build (toy_crypto 7) 0 (builder_encode [0, 0, 0] b)))
     = Inr 29"
    by (simp add: seal_def toy_crypto_def short_header_def SERVER_CID_def SAMPLE_SIZE_def slice_def)
  with toy_crypto_contract show ?thesis by simp
qed

text \<open>\<^verbatim>\<open>build_two\<close>: the Handshake packet is 45 bytes.\<close>

theorem long_packet_wire_witness:
  "aead_contract (toy_crypto 7) \<and> code Handshake = Inr PACKET_TYPE_HANDSHAKE \<and>
   map_sum id (length \<circ> fst)
     (bind_res (long [] Handshake SERVER_CID CLIENT_CID)
        (\<lambda>b. bind_res (pn b 0 1) (\<lambda>b. build (toy_crypto 7) 0 (builder_encode [0, 0, 0] b))))
   = Inr 45"
proof -
  have "bind_res (long [] Handshake SERVER_CID CLIENT_CID)
        (\<lambda>b. bind_res (pn b 0 1) (\<lambda>b. build (toy_crypto 7) 0 (builder_encode [0, 0, 0] b)))
      = map_sum id (\<lambda>(x, c'). ([] @ x, c'))
          (seal (toy_crypto 7) 0 0 0x0f (9 + length SERVER_CID + length CLIENT_CID) 1
             (long_header PACKET_TYPE_HANDSHAKE SERVER_CID CLIENT_CID [] (1 + 3 + 16) 1 0) [0, 0, 0])"
    using long_packet_wire [OF toy_crypto_contract, of 1 Handshake PACKET_TYPE_HANDSHAKE]
    by (simp add: toy_crypto_def)
  then have "map_sum id (length \<circ> fst)
     (bind_res (long [] Handshake SERVER_CID CLIENT_CID)
        (\<lambda>b. bind_res (pn b 0 1) (\<lambda>b. build (toy_crypto 7) 0 (builder_encode [0, 0, 0] b))))
     = Inr 45"
    by (simp add: seal_def toy_crypto_def long_header_def SERVER_CID_def
        CLIENT_CID_def SAMPLE_SIZE_def slice_def length_field_def)
  with toy_crypto_contract show ?thesis by simp
qed

text \<open>
  \<^verbatim>\<open>sample_server_initial\<close>: with an empty token, a 2-byte packet number and the
  98-byte payload, the packet is 134 bytes and the bytes after the first, up to the
  packet number, are those of the test's golden vector (version, connection IDs, token
  length, and the length field \<open>0x4074\<close>, that is 116 = 2 + 98 + 16), which header
  protection leaves in the clear.
\<close>

theorem initial_packet_wire_witness:
  "aead_contract (toy_crypto 7) \<and>
   map_sum id (\<lambda>(x, _). (length x, take 17 (drop 1 x)))
     (bind_res (long [] Initial [] SERVER_CID)
        (\<lambda>b. bind_res (initial_token b [])
        (\<lambda>b. bind_res (pn b 1 2) (\<lambda>b. build (toy_crypto 7) 0 (builder_encode (replicate 98 0) b)))))
   = Inr (134, [0xff, 0x00, 0x00, 0x18, 0x00, 0x08, 0xf0, 0x67, 0xa5, 0x50, 0x2a, 0x42, 0x62, 0xb5,
                0x00, 0x40, 0x74])"
proof -
  have eq: "bind_res (long [] Initial [] SERVER_CID)
        (\<lambda>b. bind_res (initial_token b [])
        (\<lambda>b. bind_res (pn b 1 2) (\<lambda>b. build (toy_crypto 7) 0 (builder_encode (replicate 98 0) b))))
      = bind_res (encode_vvec [] []) (\<lambda>t. map_sum id (\<lambda>(x, c'). ([] @ x, c'))
          (seal (toy_crypto 7) 0 1 0x0f (9 + length ([] :: bytes) + length SERVER_CID + length t) 2
             (long_header PACKET_TYPE_INITIAL [] SERVER_CID t
                (2 + length (replicate 98 (0::byte)) + cx_expansion (toy_crypto 7) 0) 2 1)
             (replicate 98 0)))"
    by (rule initial_packet_wire [OF toy_crypto_contract]) simp_all
  have "map_sum id (\<lambda>(x, _). (length x, take 17 (drop 1 x)))
     (bind_res (long [] Initial [] SERVER_CID)
        (\<lambda>b. bind_res (initial_token b [])
        (\<lambda>b. bind_res (pn b 1 2) (\<lambda>b. build (toy_crypto 7) 0 (builder_encode (replicate 98 0) b)))))
   = Inr (134, [0xff, 0x00, 0x00, 0x18, 0x00, 0x08, 0xf0, 0x67, 0xa5, 0x50, 0x2a, 0x42, 0x62, 0xb5,
                0x00, 0x40, 0x74])"
    apply (simp only: eq)
    by code_simp
  with toy_crypto_contract show ?thesis by simp
qed

end
