(* ===== verification/Builder_Invariant.thy ===== *)
theory Builder_Invariant
  imports Builder_Correct
begin

text \<open>
  The builder's life cycle as a state machine: \<open>builder_op\<close> names the calls a caller
  makes between \<^verbatim>\<open>short\<close>/\<^verbatim>\<open>long\<close> and \<^verbatim>\<open>build\<close>/\<^verbatim>\<open>abort\<close>,
  \<open>exec_op\<close> runs one, and \<open>builder_reach P\<close> is the set of builders reachable on a
  buffer \<open>P\<close>.  The invariant \<open>builder_wf\<close> is preserved by every step (C4); from it
  follow \<^verbatim>\<open>abort\<close> (C5) and the errors of \<^verbatim>\<open>build\<close> (C6).
\<close>

unbundle bit_operations_syntax

section \<open>The builder's life cycle as a step relation\<close>

datatype builder_op = InitialToken bytes | Pn u64 nat | Encode bytes

fun exec_op :: "packet_builder \<Rightarrow> builder_op \<Rightarrow> packet_builder res" where
  "exec_op b (InitialToken t) = initial_token b t"
| "exec_op b (Pn v l) = pn b v l"
| "exec_op b (Encode t) = Inr (builder_encode t b)"

inductive builder_reach :: "encoder \<Rightarrow> packet_builder \<Rightarrow> bool" where
  start_short: "builder_reach P (short P key_phase dcid)"
| start_long: "long P pt dcid scid = Inr b \<Longrightarrow> builder_reach P b"
| step: "builder_reach P b \<Longrightarrow> exec_op b op = Inr b' \<Longrightarrow> builder_reach P b'"

definition is_long_byte :: "byte \<Rightarrow> bool" where
  "is_long_byte x \<longleftrightarrow> x AND 0x80 = PACKET_BIT_LONG"

definition builder_wf :: "encoder \<Rightarrow> packet_builder \<Rightarrow> bool" where
  "builder_wf P b \<longleftrightarrow>
     (let enc = encoder b; hd = header b; off = offsets b; pnr = offsets_pn off
      in r_start hd = length P \<and> take (length P) enc = P \<and> length P < length enc
       \<and> r_start hd \<le> r_end hd \<and> r_end hd \<le> length enc
       \<and> r_start pnr \<le> r_end pnr \<and> r_end pnr \<le> r_end hd \<and> r_len pnr \<le> 4
       \<and> (0 < r_len pnr \<longrightarrow> length P < r_start pnr)
       \<and> (0 < offsets_len off \<longrightarrow> length P < offsets_len off \<and> offsets_len off + 2 \<le> r_start pnr)
       \<and> (0 < offsets_len off \<longleftrightarrow> is_long_byte (enc ! length P) \<and> r_start hd < r_end hd)
       \<and> first_byte_mask off = (if is_long_byte (enc ! length P) then 0x0f else 0x1f))"

lemma is_long_byte_or_small:
  "n < 4 \<Longrightarrow> is_long_byte (x OR of_nat n) = is_long_byte x"
proof -
  assume "n < 4"
  then have "n = 0 \<or> n = 1 \<or> n = 2 \<or> n = 3" by arith
  then have "(of_nat n :: byte) AND 0x80 = 0" by auto
  then show ?thesis by (simp add: is_long_byte_def bit.conj_disj_distrib2)
qed

lemma wf_short: "builder_wf P (short P key_phase dcid)"
  by (cases key_phase) (simp_all add: builder_wf_def short_open open_builder_def is_long_byte_def
      PACKET_BIT_LONG_def r_len_def)

lemma wf_long: "long P pt dcid scid = Inr b \<Longrightarrow> builder_wf P b"
  by (cases pt) (auto simp: builder_wf_def long_def open_builder_def is_long_byte_def packet_consts
      r_len_def encode_byte_def encode_def encode_vec_def encode_uint_def Let_def nth_append)

lemma wf_encode: "builder_wf P b \<Longrightarrow> builder_wf P (builder_encode t b)"
  by (auto simp: builder_wf_def builder_encode_def encode_def Let_def nth_append)

lemma wf_initial_token: "builder_wf P b \<Longrightarrow> initial_token b t = Inr b' \<Longrightarrow> builder_wf P b'"
  by (auto simp: builder_wf_def initial_token_def bind_res_eq_Inr Let_def nth_append get_eq_Inr
      dest!: encode_vvec_prefix split: if_splits)

lemma wf_pn:
  assumes wf: "builder_wf P b" and r: "pn b v l = Inr b'"
  shows "builder_wf P b'"
proof -
  from r have l: "0 < l" "l \<le> 4"
    by (auto simp: pn_def bind_res_eq_Inr Let_def split: if_splits)
  from wf have hs: "r_start (header b) = length P" "length P < length (encoder b)"
    by (simp_all add: builder_wf_def Let_def)
  let ?fb = "encoder b ! length P"
  let ?b1 = "reserve_len b ?fb"
  let ?enc = "encoder ?b1 @ be_bytes l v"
  have b1: "encoder ?b1 = encoder b @ (if is_long_byte ?fb then [0, 0] else [])"
    "header ?b1 = header b" "first_byte_mask (offsets ?b1) = first_byte_mask (offsets b)"
    "offsets_pn (offsets ?b1) = offsets_pn (offsets b)"
    "offsets_len (offsets ?b1) = (if is_long_byte ?fb then length (encoder b) else offsets_len (offsets b))"
    by (simp_all add: reserve_len_def is_long_byte_def encode_def)
  have hs1: "length P < length ?enc" using hs b1(1) by simp
  have b': "b' = ?b1\<lparr>encoder := ?enc[length P := ?enc ! length P OR of_nat (l - 1)],
      offsets := (offsets ?b1)\<lparr>offsets_pn := \<lparr>r_start = length (encoder ?b1), r_end = length ?enc\<rparr>\<rparr>,
      header := (header ?b1)\<lparr>r_end := length ?enc\<rparr>, builder_pn := v\<rparr>"
    using r l hs hs1 b1(2) by (simp add: pn_def encode_uint_be_bytes Let_def)
  have fb': "?enc ! length P = ?fb"
    using hs b1(1) by (simp add: nth_append)
  have long': "is_long_byte (?enc[length P := ?fb OR of_nat (l - 1)] ! length P) = is_long_byte ?fb"
    using hs1 l is_long_byte_or_small [of "l - 1" ?fb] by simp
  show ?thesis
    using wf l hs b1 long' unfolding b' fb'
    by (auto simp: builder_wf_def Let_def r_len_def take_list_update_ge nth_append)
qed

lemma wf_exec_op: "builder_wf P b \<Longrightarrow> exec_op b op = Inr b' \<Longrightarrow> builder_wf P b'"
  by (cases op) (auto intro: wf_initial_token wf_pn simp: wf_encode)


lemma reach_wf: "builder_reach P b \<Longrightarrow> builder_wf P b"
proof (induction rule: builder_reach.induct)
  case (start_short P key_phase dcid)
  then show ?case by (rule wf_short)
next
  case (start_long P pt dcid scid b)
  then show ?case by (rule wf_long)
next
  case (step P b op b')
  then show ?case by (blast intro: wf_exec_op)
qed

text \<open>
  C4. Every builder reachable from \<^verbatim>\<open>short\<close> or \<^verbatim>\<open>long\<close> on a buffer \<open>P\<close>, by any
  sequence of \<^verbatim>\<open>initial_token\<close>, \<^verbatim>\<open>pn\<close> and payload writes, is well formed: the
  header starts at \<open>|P|\<close> and \<open>P\<close> is untouched,
  \<open>header_start \<le> header_end \<le> len\<close>, the packet-number range lies in the header
  and is at most 4 bytes, the length placeholder exists exactly for a long header whose
  packet number is set and lies before the packet number, and the first-byte mask is
  \<open>0x0f\<close> for a long header and \<open>0x1f\<close> for a short one.
\<close>

theorem reachable_wf: "builder_reach P b \<Longrightarrow> builder_wf P b"
  by (rule reach_wf)

lemma reach_example: "builder_reach [] (short [] True SERVER_CID)"
  by (rule builder_reach.start_short)

theorem reachable_wf_witness:
  "builder_reach [] (short [] True SERVER_CID) \<and> builder_wf [] (short [] True SERVER_CID)"
  using reachable_wf [OF reach_example] reach_example by simp

text \<open>
  C5. \<^verbatim>\<open>abort\<close> on any reachable builder returns exactly the buffer the builder was
  started on: nothing of the discarded packet is left and nothing before it is changed.
\<close>

theorem abort_restores: "builder_reach P b \<Longrightarrow> abort b = P"
proof -
  assume "builder_reach P b"
  then have "builder_wf P b" by (rule reach_wf)
  then show "abort b = P" by (simp add: builder_wf_def abort_def Let_def)
qed

theorem abort_restores_witness:
  "builder_reach [1, 2, 3] (short [1, 2, 3] False SERVER_CID)
   \<and> abort (short [1, 2, 3] False SERVER_CID) = [1, 2, 3]"
proof -
  have r: "builder_reach [1, 2, 3] (short [1, 2, 3] False SERVER_CID)"
    by (rule builder_reach.start_short)
  show ?thesis using abort_restores [OF r] r by simp
qed

section \<open>Finishing a reachable builder\<close>

lemma write_len_wf:
  assumes wf: "builder_wf P b" and off: "0 < offsets_len (offsets b)"
  shows "\<exists>b'. write_len b e = Inr b' \<and> builder_wf P b' \<and> header b' = header b
    \<and> offsets b' = offsets b \<and> builder_pn b' = builder_pn b"
proof -
  let ?o = "offsets_len (offsets b)"
  let ?enc = "encoder b"
  let ?n = "length ?enc - (?o + 2) + e"
  let ?x = "0x40 OR of_nat (drop_bit 8 ?n AND 0x3f) :: byte"
  let ?y = "of_nat (?n AND 0xff) :: byte"
  from wf off have o: "length P < ?o" "?o + 2 \<le> length ?enc"
    by (auto simp: builder_wf_def Let_def)
  then have "write_len b e = Inr (b\<lparr>encoder := ?enc[?o := ?x, Suc ?o := ?y]\<rparr>)"
    by (simp add: write_len_def Let_def)
  moreover have "builder_wf P (b\<lparr>encoder := ?enc[?o := ?x, Suc ?o := ?y]\<rparr>)"
    using wf o by (simp add: builder_wf_def Let_def nth_list_update_neq)
  ultimately show ?thesis by auto
qed

lemma pn_indices_span:
  "r_start r \<le> r_end r \<Longrightarrow> pn_indices r = zip [1..<1 + r_len r] [r_start r..<r_start r + r_len r]"
  by (simp add: pn_indices_def r_len_def add.commute)

lemma apply_mask_wf:
  assumes wf: "builder_wf P b" and m: "5 \<le> length msk"
  shows "apply_mask b msk = Inr (xor_span (r_start (offsets_pn (offsets b))) (r_len (offsets_pn (offsets b))) 1 msk
      ((encoder b)[length P := encoder b ! length P XOR (msk ! 0 AND first_byte_mask (offsets b))]))"
proof -
  let ?r = "offsets_pn (offsets b)"
  let ?enc = "(encoder b)[length P := encoder b ! length P XOR (msk ! 0 AND first_byte_mask (offsets b))]"
  from wf have r: "r_start ?r \<le> r_end ?r" "r_start ?r + r_len ?r \<le> length (encoder b)" "r_len ?r \<le> 4"
    and hs: "r_start (header b) = length P" "length P < length (encoder b)"
    by (auto simp: builder_wf_def Let_def r_len_def)
  have "xor_pn ?enc msk (zip [1..<1 + r_len ?r] [r_start ?r..<r_start ?r + r_len ?r])
      = Inr (xor_span (r_start ?r) (r_len ?r) 1 msk ?enc)"
    using r m by (intro xor_pn_span) simp_all
  moreover have "0 < length msk" using m by (cases msk) auto
  ultimately show ?thesis
    using hs r(1) by (simp del: upt_Suc add: apply_mask_def pn_indices_span)
qed

lemma encrypt_in_place_errors:
  assumes wf: "builder_wf P b" and ops: "aead_contract ops" and err: "encrypt_in_place ops c b = Inl e"
  shows "e = Panic AssertionFailed \<or> (\<exists>v h body. cx_encrypt ops c v h body = Inl e)
    \<or> (\<exists>c' s. cx_compute_mask ops c' s = Inl e)"
proof -
  let ?hs = "r_start (header b)" and ?he = "r_end (header b)" and ?enc = "encoder b"
  let ?pnl = "r_len (offsets_pn (offsets b))"
  from wf have b: "?hs \<le> ?he" "?he \<le> length ?enc" "?pnl \<le> 4"
    by (simp_all add: builder_wf_def Let_def)
  show ?thesis
  proof (cases "cx_encrypt ops c (builder_pn b) (slice ?enc ?hs ?he) (drop ?he ?enc)")
    case (Inl e')
    with err b show ?thesis by (auto simp: encrypt_in_place_def)
  next
    case (Inr r)
    obtain ct c' where r: "r = (ct, c')" by (cases r)
    show ?thesis
    proof (cases "cx_compute_mask ops c' (slice ct (4 - ?pnl) (4 - ?pnl + SAMPLE_SIZE))")
      case (Inl e')
      with err b Inr r show ?thesis by (auto simp: encrypt_in_place_def Let_def split: if_splits)
    next
      case (Inr msk)
      have "length msk = 5" using ops Inr by (rule aead_contract_mask)
      then have "\<exists>enc. apply_mask b msk = Inr enc" using wf by (simp add: apply_mask_wf)
      with err b \<open>cx_encrypt ops c _ _ _ = Inr r\<close> r Inr show ?thesis
        by (auto simp: encrypt_in_place_def Let_def split: if_splits)
    qed
  qed
qed

text \<open>
  C6. On any reachable builder and with a provider that meets the AEAD contract,
  \<^verbatim>\<open>build\<close> never panics on an index, a slice or a \<^verbatim>\<open>usize\<close> underflow: it
  fails only with an error the provider returned or with the sampling assertion
  (too little ciphertext after the packet number).
\<close>

theorem build_errors:
  assumes ops: "aead_contract ops" and reach: "builder_reach P b" and err: "build ops c b = Inl e"
  shows "e = Panic AssertionFailed \<or> (\<exists>v h body. cx_encrypt ops c v h body = Inl e)
    \<or> (\<exists>c' s. cx_compute_mask ops c' s = Inl e)"
proof -
  from reach have wf: "builder_wf P b" by (rule reach_wf)
  show ?thesis
  proof (cases "0 < offsets_len (offsets b)")
    case True
    then obtain b' where w: "write_len b (cx_expansion ops c) = Inr b'" and wf': "builder_wf P b'"
      using write_len_wf [OF wf] by blast
    from True err w have "encrypt_in_place ops c b' = Inl e" by (simp add: build_def)
    then show ?thesis by (rule encrypt_in_place_errors [OF wf' ops])
  next
    case False
    with err have "encrypt_in_place ops c b = Inl e" by (simp add: build_def)
    then show ?thesis by (rule encrypt_in_place_errors [OF wf ops])
  qed
qed

text \<open>An empty short header with no packet number is too small to sample.\<close>

theorem build_errors_witness:
  "aead_contract (toy_crypto 7) \<and> builder_reach [] (short [] True [])
   \<and> build (toy_crypto 7) 0 (short [] True []) = Inl (Panic AssertionFailed)
   \<and> (Panic AssertionFailed = Panic AssertionFailed
      \<or> (\<exists>v h body. cx_encrypt (toy_crypto 7) 0 v h body = Inl (Panic AssertionFailed))
      \<or> (\<exists>c' s. cx_compute_mask (toy_crypto 7) c' s = Inl (Panic AssertionFailed)))"
proof -
  have r: "builder_reach [] (short [] True [])" by (rule builder_reach.start_short)
  have b: "build (toy_crypto 7) 0 (short [] True []) = Inl (Panic AssertionFailed)"
    by (simp add: build_def encrypt_in_place_def short_def toy_crypto_def encode_byte_def encode_def
        slice_def r_len_def SAMPLE_SIZE_def Let_def)
  show ?thesis
    using build_errors [OF toy_crypto_contract r b] toy_crypto_contract r b by blast
qed

end
