(* ===== verification/Builder_Properties.thy ===== *)
theory Builder_Properties
  imports Builder_Invariant
begin

text \<open>
  Properties of single \<^verbatim>\<open>PacketBuilder\<close> operations on reachable builders:
  \<^verbatim>\<open>is_empty\<close> before and after \<^verbatim>\<open>pn\<close>, the 14-bit length field written by
  \<^verbatim>\<open>write_len\<close>, and header protection (the loop of \<^verbatim>\<open>build\<close> modelled by
  \<open>apply_mask\<close>) touching only the protected bits.  Each
  claim is followed by a witness at a concrete builder reached from \<^verbatim>\<open>short\<close> or
  \<^verbatim>\<open>long\<close>.
\<close>

unbundle bit_operations_syntax

section \<open>Concrete builders\<close>

lemma pn_short:
  assumes "0 < l" and "l \<le> 4"
  shows "pn (short P key_phase dcid) v l = Inr (numbered P (short_header key_phase dcid l v) [] 0x1f 0 l v)"
proof -
  let ?h = "(0x40 OR push_bit 2 (of_bool key_phase)) # dcid"
  have fb: "?h ! 0 AND 0x80 \<noteq> PACKET_BIT_LONG"
    by (cases key_phase) (simp_all add: PACKET_BIT_LONG_def)
  have hdr: "?h[0 := ?h ! 0 OR of_nat (l - 1)] @ be_bytes l v = short_header key_phase dcid l v"
    by (cases key_phase) (simp_all add: short_header_def flip: or.assoc)
  show ?thesis
    using pn_open [where h = ?h and l = l and P = P and fbm = "0x1f" and v = v] assms by (simp only: short_open fb hdr if_False) simp
qed

lemma reach_pn:
  "builder_reach P b \<Longrightarrow> pn b v l = Inr b' \<Longrightarrow> builder_reach P b'"
  by (rule builder_reach.step [where op = "Pn v l"]) simp_all

section \<open>Emptiness\<close>

lemma pn_closes_header: "pn b v l = Inr b' \<Longrightarrow> r_end (header b') = length (encoder b')"
  by (auto simp: pn_def bind_res_eq_Inr Let_def set_at_def split: if_splits)

lemma is_empty_encode:
  "is_empty b \<Longrightarrow> is_empty (builder_encode t b) \<longleftrightarrow> t = []"
  by (simp add: is_empty_def builder_encode_def encode_def)

text \<open>
  C7. Right after \<^verbatim>\<open>pn\<close> the builder is empty, and it stays empty after a payload
  write exactly when the payload written is empty.
\<close>

theorem is_empty_after_pn:
  "pn b v l = Inr b' \<Longrightarrow> is_empty b' \<and> (is_empty (builder_encode t b') \<longleftrightarrow> t = [])"
  using pn_closes_header [of b v l b'] is_empty_encode [of b' t] by (simp add: is_empty_def)

text \<open>
  C8. Before \<^verbatim>\<open>pn\<close> (the header range is still empty) a reachable builder is never
  empty, even though no payload has been written: \<^verbatim>\<open>is_empty\<close> compares the
  buffer with the end of the header, which \<^verbatim>\<open>pn\<close> sets, so the unfinished header
  counts as payload.
\<close>

theorem not_empty_before_pn:
  "builder_reach P b \<Longrightarrow> r_end (header b) = r_start (header b) \<Longrightarrow> \<not> is_empty b"
  by (drule reach_wf) (simp add: builder_wf_def is_empty_def Let_def)

section \<open>The length field\<close>

lemma update_two_splice:
  assumes "i + 2 \<le> length xs"
  shows "xs[i := a, Suc i := c] = take i xs @ [a, c] @ drop (i + 2) xs"
proof -
  let ?r = "drop (i + 2) xs"
  have d: "drop i xs = xs ! i # xs ! Suc i # ?r"
    using assms by (simp add: Cons_nth_drop_Suc)
  have xs: "xs = take i xs @ xs ! i # xs ! Suc i # ?r"
    unfolding d [symmetric] by simp
  have "xs[i := a, Suc i := c] = (take i xs @ xs ! i # xs ! Suc i # ?r)[i := a, Suc i := c]"
    by (rule arg_cong [where f = "\<lambda>l. l[i := a, Suc i := c]", OF xs])
  also have "\<dots> = take i xs @ [a, c] @ ?r"
    using assms by (simp add: list_update_append)
  finally show ?thesis .
qed

lemma write_len_splice:
  assumes wf: "builder_wf P b" and off: "0 < offsets_len (offsets b)"
  shows "write_len b e = Inr (b\<lparr>encoder := take (offsets_len (offsets b)) (encoder b)
      @ length_field (length (encoder b) - (offsets_len (offsets b) + 2) + e)
      @ drop (offsets_len (offsets b) + 2) (encoder b)\<rparr>)"
proof -
  let ?o = "offsets_len (offsets b)"
  let ?n = "length (encoder b) - (?o + 2) + e"
  from wf off have o: "?o + 2 \<le> length (encoder b)"
    by (auto simp: builder_wf_def Let_def)
  then show ?thesis
    by (simp add: write_len_def Let_def update_two_splice flip: code_len_bytes)
qed

text \<open>
  C9. On a reachable long-header builder, \<^verbatim>\<open>write_len\<close> fills the two reserved
  bytes with a 2-byte varint (tag \<open>01\<close>) whose value is the length of packet number,
  payload and AEAD expansion modulo \<open>2^14\<close>, and changes no length: a longer packet
  gets a silently wrapped length field instead of an error.
\<close>

theorem length_field_wraps:
  assumes "builder_reach P b" and "0 < offsets_len (offsets b)" and "write_len b e = Inr b'"
  shows "length (encoder b') = length (encoder b) \<and>
    decode_be (slice (encoder b') (offsets_len (offsets b)) (offsets_len (offsets b) + 2))
      = 16384 + (length (encoder b) - (offsets_len (offsets b) + 2) + e) mod 16384"
proof -
  have wf: "builder_wf P b" using assms(1) by (rule reach_wf)
  then have o: "offsets_len (offsets b) + 2 \<le> length (encoder b)"
    using assms(2) by (auto simp: builder_wf_def Let_def)
  from write_len_splice [OF wf assms(2), of e] assms(3) o show ?thesis
    by (simp add: slice_def decode_length_field min_def)
qed

section \<open>Header protection\<close>

lemma apply_mask_xor:
  assumes "r_start (header b) < length (encoder b)"
    and "r_start (offsets_pn (offsets b)) \<le> r_end (offsets_pn (offsets b))"
    and "r_end (offsets_pn (offsets b)) \<le> length (encoder b)" and "r_len (offsets_pn (offsets b)) \<le> 4"
    and "5 \<le> length msk"
  shows "apply_mask b msk = Inr (xor_span (r_start (offsets_pn (offsets b))) (r_len (offsets_pn (offsets b))) 1 msk
      ((encoder b)[r_start (header b) := encoder b ! r_start (header b) XOR (msk ! 0 AND first_byte_mask (offsets b))]))"
proof -
  let ?r = "offsets_pn (offsets b)" and ?hs = "r_start (header b)"
  let ?enc = "(encoder b)[?hs := encoder b ! ?hs XOR (msk ! 0 AND first_byte_mask (offsets b))]"
  have "xor_pn ?enc msk (zip [1..<1 + r_len ?r] [r_start ?r..<r_start ?r + r_len ?r])
      = Inr (xor_span (r_start ?r) (r_len ?r) 1 msk ?enc)"
    using assms by (intro xor_pn_span) (simp_all add: r_len_def)
  moreover have "0 < length msk" using assms(5) by (cases msk) auto
  ultimately show ?thesis
    using assms(1,2) by (simp del: upt_Suc add: apply_mask_def pn_indices_span)
qed

lemma xor_span_update_outside:
  assumes "\<not> (s \<le> i \<and> i < s + n)"
  shows "xor_span s n a m (h[i := x]) = (xor_span s n a m h)[i := x]"
proof (rule nth_equalityI)
  fix j assume "j < length (xor_span s n a m (h[i := x]))"
  then show "xor_span s n a m (h[i := x]) ! j = (xor_span s n a m h)[i := x] ! j"
    using assms by (cases "j = i") (auto simp: nth_xor_span nth_list_update)
qed simp

lemma wf_mask_facts:
  assumes "builder_wf P b"
  shows "r_start (header b) = length P" "length P < length (encoder b)"
    "r_start (offsets_pn (offsets b)) \<le> r_end (offsets_pn (offsets b))"
    "r_end (offsets_pn (offsets b)) \<le> length (encoder b)" "r_len (offsets_pn (offsets b)) \<le> 4"
    "\<not> (r_start (offsets_pn (offsets b)) \<le> length P
        \<and> length P < r_start (offsets_pn (offsets b)) + r_len (offsets_pn (offsets b)))"
  using assms by (auto simp: builder_wf_def Let_def r_len_def)

text \<open>
  C11. Header protection changes only the first byte of the packet, and there only the
  bits of the first-byte mask (\<open>0x1f\<close> short, \<open>0x0f\<close> long), and the
  packet-number bytes; every other byte of the buffer, the earlier packets included, is
  left as it was.
\<close>

theorem mask_frame:
  assumes reach: "builder_reach P b" and m: "5 \<le> length msk" and r: "apply_mask b msk = Inr enc"
  shows "length enc = length (encoder b)
    \<and> (\<forall>i < length enc. i \<noteq> length P \<and> \<not> (r_start (offsets_pn (offsets b)) \<le> i \<and> i < r_end (offsets_pn (offsets b)))
          \<longrightarrow> enc ! i = encoder b ! i)
    \<and> enc ! length P AND NOT (first_byte_mask (offsets b)) = encoder b ! length P AND NOT (first_byte_mask (offsets b))"
proof -
  let ?s = "r_start (offsets_pn (offsets b))" and ?n = "r_len (offsets_pn (offsets b))"
  let ?k = "msk ! 0 AND first_byte_mask (offsets b)" and ?E = "encoder b"
  have f: "r_start (header b) = length P" "length P < length ?E" "?s \<le> r_end (offsets_pn (offsets b))"
    "r_end (offsets_pn (offsets b)) \<le> length ?E" "?n \<le> 4" "\<not> (?s \<le> length P \<and> length P < ?s + ?n)"
    using wf_mask_facts [OF reach_wf [OF reach]] by blast+
  have enc: "enc = xor_span ?s ?n 1 msk (?E[length P := ?E ! length P XOR ?k])"
    using apply_mask_xor [of b msk] f m r by simp
  have o: "enc ! i = ?E ! i"
    if "i < length enc" "i \<noteq> length P" "\<not> (?s \<le> i \<and> i < r_end (offsets_pn (offsets b)))" for i
  proof -
    have "?s + ?n = r_end (offsets_pn (offsets b))" using f(3) by (simp add: r_len_def)
    with that show ?thesis by (auto simp: enc nth_xor_span)
  qed
  have e0: "enc ! length P = ?E ! length P XOR ?k"
    using f(2,6) by (auto simp: enc nth_xor_span)
  have x: "(x XOR ?k) AND NOT (first_byte_mask (offsets b)) = x AND NOT (first_byte_mask (offsets b))" for x
    by (simp add: bit.conj_xor_distrib2 and.assoc)
  have "length enc = length ?E" by (simp add: enc)
  then show ?thesis using o by (simp add: e0 x)
qed

section \<open>Witnesses\<close>

theorem is_empty_after_pn_witness:
  "pn (short [] True SERVER_CID) 0 1 = Inr (numbered [] (short_header True SERVER_CID 1 0) [] 0x1f 0 1 0)
   \<and> is_empty (numbered [] (short_header True SERVER_CID 1 0) [] 0x1f 0 1 0)
   \<and> \<not> is_empty (builder_encode [0] (numbered [] (short_header True SERVER_CID 1 0) [] 0x1f 0 1 0))"
proof -
  have p: "pn (short [] True SERVER_CID) 0 1 = Inr (numbered [] (short_header True SERVER_CID 1 0) [] 0x1f 0 1 0)"
    by (rule pn_short) simp_all
  from is_empty_after_pn [OF p, of "[0]"] p show ?thesis by simp
qed

theorem not_empty_before_pn_witness:
  "builder_reach [] (short [] True SERVER_CID)
   \<and> r_end (header (short [] True SERVER_CID)) = r_start (header (short [] True SERVER_CID))
   \<and> \<not> is_empty (short [] True SERVER_CID)"
proof -
  have h: "r_end (header (short [] True SERVER_CID)) = r_start (header (short [] True SERVER_CID))"
    by (simp add: short_def Let_def)
  have "\<not> is_empty (short [] True SERVER_CID)"
    by (rule not_empty_before_pn [OF reach_example h])
  with h reach_example show ?thesis by blast
qed

text \<open>A Handshake packet whose length is 16401 gets the length field of 17.\<close>

theorem length_field_wraps_witness:
  "\<exists>b b'. builder_reach [] b \<and> offsets_len (offsets b) = 7 \<and> length (encoder b) = 10
     \<and> write_len b 16400 = Inr b' \<and> decode_be (slice (encoder b') 7 9) = 16384 + 17"
proof -
  let ?h = "long_prefix PACKET_TYPE_HANDSHAKE [] []"
  let ?h1 = "?h[0 := ?h ! 0 OR of_nat (1 - 1)]"
  let ?b1 = "numbered [] (?h1 @ [0, 0] @ be_bytes 1 0) [] 0x0f (length ([] :: bytes) + length ?h1) 1 0"
  have ci: "code Handshake = Inr PACKET_TYPE_HANDSHAKE" by simp
  have r0: "builder_reach [] (open_builder [] ?h 0x0f)"
    by (rule builder_reach.start_long [OF long_open [OF ci]])
  have hb: "?h \<noteq> []" "?h ! 0 AND 0x80 = PACKET_BIT_LONG"
    using code_first_byte_long [OF ci] by (simp_all add: long_prefix_def)
  have p: "pn (open_builder [] ?h 0x0f) 0 1 = Inr ?b1"
    using pn_open [where h = ?h and l = 1 and P = "[]" and fbm = "0x0f" and v = 0] hb by simp
  have r1: "builder_reach [] ?b1" by (rule reach_pn [OF r0 p])
  have w: "write_len ?b1 16400
      = Inr (numbered [] (?h1 @ length_field (1 + length ([] :: bytes) + 16400) @ be_bytes 1 0) [] 0x0f
               (length ([] :: bytes) + length ?h1) 1 0)"
    by (rule write_len_numbered) simp
  have o: "0 < offsets_len (offsets ?b1)" "offsets_len (offsets ?b1) = 7" "length (encoder ?b1) = 10"
    by (simp_all add: numbered_def long_prefix_def)
  from length_field_wraps [OF r1 o(1) w] o
  have "decode_be (slice (encoder (numbered [] (?h1 @ length_field (1 + length ([] :: bytes) + 16400)
      @ be_bytes 1 0) [] 0x0f (length ([] :: bytes) + length ?h1) 1 0)) 7 9) = 16384 + 17"
    by simp
  with r1 o(2,3) w show ?thesis by blast
qed

lemma mask_example:
  "builder_reach [] (numbered [] (short_header True SERVER_CID 1 0) [] 0x1f 0 1 0)
   \<and> apply_mask (numbered [] (short_header True SERVER_CID 1 0) [] 0x1f 0 1 0) [1, 2, 3, 4, 5]
       = Inr (protect 0x1f 9 1 [1, 2, 3, 4, 5] (short_header True SERVER_CID 1 0))"
proof
  have p: "pn (short [] True SERVER_CID) 0 1 = Inr (numbered [] (short_header True SERVER_CID 1 0) [] 0x1f 0 1 0)"
    by (rule pn_short) simp_all
  show "builder_reach [] (numbered [] (short_header True SERVER_CID 1 0) [] 0x1f 0 1 0)"
    by (rule reach_pn [OF reach_example p])
  have "apply_mask (numbered [] (short_header True SERVER_CID 1 0) [] 0x1f 0 1 0) [1, 2, 3, 4, 5]
      = Inr ([] @ protect 0x1f (length (short_header True SERVER_CID 1 0) - 1) 1 [1, 2, 3, 4, 5]
          (short_header True SERVER_CID 1 0) @ [])"
    by (rule apply_mask_numbered) (simp_all add: short_header_def)
  moreover have "length (short_header True SERVER_CID 1 0) - 1 = 9"
    by (simp add: short_header_def SERVER_CID_def)
  ultimately show "apply_mask (numbered [] (short_header True SERVER_CID 1 0) [] 0x1f 0 1 0) [1, 2, 3, 4, 5]
       = Inr (protect 0x1f 9 1 [1, 2, 3, 4, 5] (short_header True SERVER_CID 1 0))"
    by (simp only: append_Nil append_Nil2)
qed

theorem mask_frame_witness:
  "\<exists>b enc. builder_reach [] b \<and> 5 \<le> length ([1, 2, 3, 4, 5] :: bytes)
     \<and> apply_mask b [1, 2, 3, 4, 5] = Inr enc \<and> length enc = 10 \<and> enc ! 1 = encoder b ! 1"
proof -
  let ?b = "numbered [] (short_header True SERVER_CID 1 0) [] 0x1f 0 1 0"
  let ?enc = "protect 0x1f 9 1 [1, 2, 3, 4, 5] (short_header True SERVER_CID 1 0)"
  have r: "builder_reach [] ?b" and a: "apply_mask ?b [1, 2, 3, 4, 5] = Inr ?enc"
    using mask_example by blast+
  have m: "5 \<le> length ([1, 2, 3, 4, 5] :: bytes)" by simp
  have l: "length (encoder ?b) = 10" "r_start (offsets_pn (offsets ?b)) = 9"
    by (simp_all add: numbered_def short_header_def SERVER_CID_def)
  have f: "length ?enc = length (encoder ?b) \<and> (\<forall>i < length ?enc. i \<noteq> length ([] :: bytes)
      \<and> \<not> (r_start (offsets_pn (offsets ?b)) \<le> i \<and> i < r_end (offsets_pn (offsets ?b)))
          \<longrightarrow> ?enc ! i = encoder ?b ! i)
    \<and> ?enc ! length ([] :: bytes) AND NOT (first_byte_mask (offsets ?b))
      = encoder ?b ! length ([] :: bytes) AND NOT (first_byte_mask (offsets ?b))"
    by (rule mask_frame [OF r m a])
  then have "length ?enc = 10 \<and> ?enc ! 1 = encoder ?b ! 1"
    using l by auto
  with r m a show ?thesis by blast
qed

end
