(* ===== verification/Builder_Preconditions.thy ===== *)
theory Builder_Preconditions
  imports Builder_Properties
begin

text \<open>
  The preconditions of \<^verbatim>\<open>PacketBuilder\<close> that the source checks only with
  \<^verbatim>\<open>debug_assert!\<close> or a panic (\<^verbatim>\<open>pn\<close>'s length, \<^verbatim>\<open>long\<close>'s packet
  type, \<^verbatim>\<open>initial_token\<close>'s packet type), what \<^verbatim>\<open>pn\<close> writes when they hold, and
  what is not checked: \<^verbatim>\<open>initial_token\<close> after \<^verbatim>\<open>pn\<close>.
\<close>

unbundle bit_operations_syntax

section \<open>The packet number\<close>

lemma pn_Inr_len: "pn b v l = Inr b' \<Longrightarrow> 0 < l \<and> l \<le> 4"
  by (auto simp: pn_def bind_res_eq_Inr Let_def split: if_splits)

lemma pn_wf_ok:
  assumes "builder_wf P b" and "0 < l" and "l \<le> 4"
  shows "\<exists>b'. pn b v l = Inr b'"
  using assms by (auto simp: pn_def builder_wf_def Let_def reserve_len_def encode_def
      encode_uint_def nth_append)

lemma pn_wf_bad:
  assumes "builder_wf P b" and "\<not> (0 < l \<and> l \<le> 4)"
  shows "pn b v l = Inl (Panic DebugAssertion)"
  using assms by (auto simp: pn_def builder_wf_def Let_def)

lemma low_bits_or:
  assumes "x AND 3 = 0" and "n < 4"
  shows "(x OR of_nat n :: byte) AND 3 = of_nat n"
proof -
  from assms(2) have "n = 0 \<or> n = 1 \<or> n = 2 \<or> n = 3" by arith
  then have "(of_nat n :: byte) AND 3 = of_nat n" by auto
  then show ?thesis using assms(1) by (simp add: bit.conj_disj_distrib2)
qed

lemma slice_suffix: "slice (xs @ ys) (length xs) (length xs + length ys) = ys"
  by (simp add: slice_def)

lemma pn_open_encoding:
  assumes h: "h \<noteq> []" "h ! 0 AND 3 = 0" and l: "0 < l" "l \<le> 4"
    and r: "pn (open_builder P h fbm) v l = Inr b'"
  shows "unat (encoder b' ! length P AND 3) = l - 1
    \<and> decode_be (slice (encoder b') (r_start (offsets_pn (offsets b'))) (r_end (offsets_pn (offsets b'))))
      = unat v mod 2 ^ (8 * l)"
proof -
  let ?h' = "h[0 := h ! 0 OR of_nat (l - 1)]"
  have "\<exists>x lo. b' = numbered P (?h' @ x @ be_bytes l v) [] fbm lo l v"
  proof (cases "h ! 0 AND 0x80 = PACKET_BIT_LONG")
    case True
    with r pn_open [OF h(1) l, of P fbm v]
    have "b' = numbered P (?h' @ [0, 0] @ be_bytes l v) [] fbm (length P + length h) l v" by simp
    then show ?thesis by blast
  next
    case False
    with r pn_open [OF h(1) l, of P fbm v]
    have "b' = numbered P (?h' @ [] @ be_bytes l v) [] fbm 0 l v" by simp
    then show ?thesis by blast
  qed
  then obtain x lo where b': "b' = numbered P (?h' @ x @ be_bytes l v) [] fbm lo l v" by blast
  have e: "encoder b' = (P @ ?h' @ x) @ be_bytes l v"
    "r_start (offsets_pn (offsets b')) = length (P @ ?h' @ x)"
    "r_end (offsets_pn (offsets b')) = length (P @ ?h' @ x) + length (be_bytes l v)"
    by (simp_all add: b' numbered_def)
  have f: "encoder b' ! length P = h ! 0 OR of_nat (l - 1)"
    using h(1) by (simp add: e(1) nth_append)
  have lb: "(h ! 0 OR of_nat (l - 1) :: byte) AND 3 = of_nat (l - 1)"
    using h(2) l by (intro low_bits_or) simp_all
  have u: "unat (of_nat (l - 1) :: byte) = l - 1"
    using l by (intro unat_of_nat_small) simp
  have "unat (encoder b' ! length P AND 3) = l - 1"
    unfolding f lb u ..
  moreover have "decode_be (slice (encoder b') (r_start (offsets_pn (offsets b'))) (r_end (offsets_pn (offsets b'))))
      = unat v mod 2 ^ (8 * l)"
    unfolding e slice_suffix by (rule decode_be_bytes)
  ultimately show ?thesis ..
qed

lemma short_low_bits: "(0x40 OR push_bit 2 (of_bool key_phase) :: byte) AND 3 = 0"
  by (cases key_phase) simp_all

lemma long_low_bits: "code pt = Inr c \<Longrightarrow> (0xc0 OR push_bit 4 c) AND 3 = 0"
  by (cases pt) (simp_all add: packet_consts)

lemma long_code: "long P pt dcid scid = Inr b \<Longrightarrow> \<exists>c. code pt = Inr c"
  by (cases pt) (simp_all add: long_def)

section \<open>Initial tokens\<close>

lemma encode_vvec_ok: "length t < 2 ^ 62 \<Longrightarrow> \<exists>e. encode_vvec t enc = Inr e"
proof -
  assume "length t < 2 ^ 62"
  then have "unat (of_nat (length t) :: u64) < 2 ^ 62"
    by (simp add: unat_of_nat_small)
  then have "(of_nat (length t) :: u64) < 2 ^ 62"
    by (simp add: word_less_nat_alt)
  then show ?thesis by (simp add: encode_vvec_def encode_varint_def)
qed

lemma encode_vvec_grows: "encode_vvec t enc = Inr enc' \<Longrightarrow> length enc < length enc'"
  by (auto simp: encode_vvec_def bind_res_eq_Inr dest!: encode_varint_prefix)

lemma initial_token_ok:
  assumes "r_start (header b) < length (encoder b)" and "encoder b ! r_start (header b) AND 0xb0 = 0x80"
    and "length t < 2 ^ 62"
  shows "\<exists>e. e \<noteq> [] \<and> initial_token b t = Inr (b\<lparr>encoder := encoder b @ e\<rparr>)"
proof -
  obtain enc where v: "encode_vvec t (encoder b) = Inr enc" using encode_vvec_ok [OF assms(3)] by blast
  then obtain e where ee: "enc = encoder b @ e" using encode_vvec_prefix by blast
  have "length (encoder b) < length enc" using v by (rule encode_vvec_grows)
  then have ne: "e \<noteq> []" using ee by auto
  from v ee assms have "initial_token b t = Inr (b\<lparr>encoder := encoder b @ e\<rparr>)"
    by (simp add: initial_token_def packet_consts)
  with ne show ?thesis by blast
qed

lemma initial_token_bad:
  assumes "r_start (header b) < length (encoder b)" and "encoder b ! r_start (header b) AND 0xb0 \<noteq> 0x80"
  shows "initial_token b t = Inl (Panic DebugAssertion)"
  using assms by (simp add: initial_token_def packet_consts)

lemma long_first_byte:
  "long P pt dcid scid = Inr b \<Longrightarrow> r_start (header b) = length P \<and> length P < length (encoder b)
     \<and> (encoder b ! length P AND 0xb0 = 0x80 \<longleftrightarrow> pt = Initial)"
  by (cases pt) (auto simp: long_def Let_def encode_byte_def encode_vec_def encode_uint_def encode_def
      nth_append packet_consts)

lemma first_byte_or_pn_len:
  "n < 4 \<Longrightarrow> ((x OR of_nat n) :: byte) AND 0xb0 = x AND 0xb0"
proof -
  assume "n < 4"
  then have "n = 0 \<or> n = 1 \<or> n = 2 \<or> n = 3" by arith
  then have "(of_nat n :: byte) AND 0xb0 = 0" by auto
  then show ?thesis by (simp add: bit.conj_disj_distrib2)
qed

section \<open>Claims\<close>

text \<open>
  C12. On every reachable builder \<^verbatim>\<open>pn\<close> succeeds exactly when the packet-number
  length is between 1 and 4; any other length is the \<^verbatim>\<open>debug_assert!\<close> panic, and no
  other panic (index or \<^verbatim>\<open>usize\<close> underflow) can occur.
\<close>

theorem pn_precondition:
  assumes "builder_reach P b"
  shows "((\<exists>b'. pn b v l = Inr b') \<longleftrightarrow> 0 < l \<and> l \<le> 4)
    \<and> (\<not> (0 < l \<and> l \<le> 4) \<longrightarrow> pn b v l = Inl (Panic DebugAssertion))"
  using pn_wf_ok [OF reach_wf [OF assms]] pn_wf_bad [OF reach_wf [OF assms]] by (auto dest: pn_Inr_len)

text \<open>
  C13. \<^verbatim>\<open>pn\<close> right after \<^verbatim>\<open>short\<close> or \<^verbatim>\<open>long\<close> encodes the packet-number
  length minus one in the two low bits of the first byte, and the recorded packet-number
  range holds the low \<open>pn_len\<close> bytes of the packet number big-endian: decoding it gives
  the packet number modulo \<open>2^(8 pn_len)\<close>.
\<close>

theorem pn_encoding:
  assumes "b = short P key_phase dcid \<or> long P pt dcid scid = Inr b" and "pn b v l = Inr b'"
  shows "unat (encoder b' ! length P AND 3) = l - 1
    \<and> decode_be (slice (encoder b') (r_start (offsets_pn (offsets b'))) (r_end (offsets_pn (offsets b'))))
      = unat v mod 2 ^ (8 * l)"
proof -
  have l: "0 < l" "l \<le> 4" using pn_Inr_len [OF assms(2)] by simp_all
  from assms(1) show ?thesis
  proof
    assume b: "b = short P key_phase dcid"
    show ?thesis
      using assms(2) short_low_bits [of key_phase] l
      by (intro pn_open_encoding [where h = "(0x40 OR push_bit 2 (of_bool key_phase)) # dcid" and fbm = "0x1f"])
        (simp_all add: b short_open)
  next
    assume b: "long P pt dcid scid = Inr b"
    then obtain c where c: "code pt = Inr c" using long_code by blast
    show ?thesis
      using assms(2) long_low_bits [OF c] l b long_open [OF c, of P dcid scid]
      by (intro pn_open_encoding [where h = "long_prefix c dcid scid" and fbm = "0x0f"])
        (simp_all add: long_prefix_def)
  qed
qed

text \<open>
  C14. \<^verbatim>\<open>long\<close> writes the long-header type code of the specification's table into
  bits 4 and 5 of the first byte (Initial \<open>0x0\<close>, 0-RTT \<open>0x1\<close>, Handshake
  \<open>0x2\<close>, Retry \<open>0x3\<close>), above the long-header and fixed bits \<open>0xc0\<close>; for
  Version Negotiation and Short, which have no type code, it panics in
  \<^verbatim>\<open>PacketType::code\<close>.
\<close>

theorem long_type_code:
  "case spec_long_type pt of
     None \<Rightarrow> long P pt dcid scid = Inl (Panic ExplicitPanic)
   | Some t \<Rightarrow> \<exists>b. long P pt dcid scid = Inr b \<and> encoder b ! length P AND 0xf0 = 0xc0 OR push_bit 4 t"
  by (cases pt) (simp_all add: long_def Let_def encode_byte_def encode_def encode_vec_def encode_uint_def
      nth_append packet_consts)

text \<open>
  C15. On a builder just started by \<^verbatim>\<open>long\<close>, \<^verbatim>\<open>initial_token\<close> (with a token
  shorter than \<open>2^62\<close>, the varint limit) succeeds exactly for an Initial packet;
  for every other type it is the \<^verbatim>\<open>debug_assert_eq!\<close> panic.
\<close>

theorem initial_token_type:
  assumes "long P pt dcid scid = Inr b" and "length t < 2 ^ 62"
  shows "((\<exists>b'. initial_token b t = Inr b') \<longleftrightarrow> pt = Initial)
    \<and> (pt \<noteq> Initial \<longrightarrow> initial_token b t = Inl (Panic DebugAssertion))"
  using long_first_byte [OF assms(1)] initial_token_ok [of b t] initial_token_bad [of b t] assms(2)
  by auto

text \<open>
  C16. The type check of \<^verbatim>\<open>initial_token\<close> does not see whether \<^verbatim>\<open>pn\<close> was
  already called: on an Initial builder after \<^verbatim>\<open>pn\<close> it succeeds, leaves the header
  range as it was and appends the token after the packet number, where \<^verbatim>\<open>build\<close>
  treats it as payload.
\<close>

theorem initial_token_after_pn:
  assumes "long P Initial dcid scid = Inr b" and "pn b v l = Inr b'" and "length t < 2 ^ 62"
  shows "\<exists>e. initial_token b' t = Inr (b'\<lparr>encoder := encoder b' @ e\<rparr>)
    \<and> r_end (header b') = length (encoder b') \<and> e \<noteq> []"
proof -
  have r: "builder_reach P b'" by (rule reach_pn [OF builder_reach.start_long [OF assms(1)] assms(2)])
  have wf: "builder_wf P b'" by (rule reach_wf [OF r])
  have lb: "encoder b ! length P AND 0xb0 = 0x80" "r_start (header b) = length P"
    using long_first_byte [OF assms(1)] by simp_all
  have hs: "r_start (header b') = length P" "length P < length (encoder b')"
    using wf by (simp_all add: builder_wf_def Let_def)
  have l: "0 < l" "l \<le> 4" using pn_Inr_len [OF assms(2)] by simp_all
  have fb: "encoder b' ! length P = encoder b ! length P OR of_nat (l - 1)"
    using assms(2) lb(2) long_first_byte [OF assms(1)]
    by (auto simp: pn_def bind_res_eq_Inr get_eq_Inr Let_def reserve_len_def encode_def encode_uint_def
        nth_append split: if_splits)
  have "encoder b' ! length P AND 0xb0 = 0x80"
    using l lb(1) first_byte_or_pn_len [of "l - 1" "encoder b ! length P"] by (simp only: fb)
  then obtain e where e: "e \<noteq> []" "initial_token b' t = Inr (b'\<lparr>encoder := encoder b' @ e\<rparr>)"
    using initial_token_ok [of b' t] hs assms(3) by auto
  then show ?thesis using pn_closes_header [OF assms(2)] by blast
qed

section \<open>Witnesses\<close>

theorem pn_precondition_witness:
  "builder_reach [] (short [] True SERVER_CID) \<and> (\<exists>b'. pn (short [] True SERVER_CID) 7 2 = Inr b')
   \<and> pn (short [] True SERVER_CID) 7 5 = Inl (Panic DebugAssertion)"
proof -
  have a: "\<exists>b'. pn (short [] True SERVER_CID) 7 2 = Inr b'"
    using pn_precondition [OF reach_example, of 7 2] by simp
  have b: "pn (short [] True SERVER_CID) 7 5 = Inl (Panic DebugAssertion)"
    using pn_precondition [OF reach_example, of 7 5] by simp
  from reach_example a b show ?thesis by blast
qed

theorem pn_encoding_witness:
  "pn (short [] True SERVER_CID) 0x1234 2 = Inr (numbered [] (short_header True SERVER_CID 2 0x1234) [] 0x1f 0 2 0x1234)
   \<and> unat (encoder (numbered [] (short_header True SERVER_CID 2 0x1234) [] 0x1f 0 2 0x1234) ! 0 AND 3) = 1
   \<and> decode_be (slice (encoder (numbered [] (short_header True SERVER_CID 2 0x1234) [] 0x1f 0 2 0x1234))
        (r_start (offsets_pn (offsets (numbered [] (short_header True SERVER_CID 2 0x1234) [] 0x1f 0 2 0x1234))))
        (r_end (offsets_pn (offsets (numbered [] (short_header True SERVER_CID 2 0x1234) [] 0x1f 0 2 0x1234)))))
     = 0x1234"
proof -
  have p: "pn (short [] True SERVER_CID) 0x1234 2
      = Inr (numbered [] (short_header True SERVER_CID 2 0x1234) [] 0x1f 0 2 0x1234)"
    by (rule pn_short) simp_all
  from pn_encoding [OF disjI1 [OF refl] p] p show ?thesis by simp
qed

theorem initial_token_type_witness:
  "long [] Initial [] [] = Inr (open_builder [] (long_prefix PACKET_TYPE_INITIAL [] []) 0x0f)
   \<and> (\<exists>b'. initial_token (open_builder [] (long_prefix PACKET_TYPE_INITIAL [] []) 0x0f) [] = Inr b')
   \<and> long [] Handshake [] [] = Inr (open_builder [] (long_prefix PACKET_TYPE_HANDSHAKE [] []) 0x0f)
   \<and> initial_token (open_builder [] (long_prefix PACKET_TYPE_HANDSHAKE [] []) 0x0f) []
       = Inl (Panic DebugAssertion)"
proof -
  have i: "long [] Initial [] [] = Inr (open_builder [] (long_prefix PACKET_TYPE_INITIAL [] []) 0x0f)"
    by (rule long_open) simp
  have h: "long [] Handshake [] [] = Inr (open_builder [] (long_prefix PACKET_TYPE_HANDSHAKE [] []) 0x0f)"
    by (rule long_open) simp
  have "length ([] :: bytes) < 2 ^ 62" by simp
  from initial_token_type [OF i this] initial_token_type [OF h this] i h show ?thesis by simp
qed

theorem initial_token_after_pn_witness:
  "\<exists>b b'. long [] Initial [] [] = Inr b \<and> pn b 0 1 = Inr b'
     \<and> (\<exists>e. initial_token b' [1, 2] = Inr (b'\<lparr>encoder := encoder b' @ e\<rparr>)
           \<and> r_end (header b') = length (encoder b') \<and> e \<noteq> [])"
proof -
  let ?h = "long_prefix PACKET_TYPE_INITIAL [] []"
  let ?b1 = "numbered [] (?h[0 := ?h ! 0 OR of_nat (1 - 1)] @ [0, 0] @ be_bytes 1 0) [] 0x0f
      (length ([] :: bytes) + length ?h) 1 0"
  have i: "long [] Initial [] [] = Inr (open_builder [] ?h 0x0f)"
    by (rule long_open) simp
  have hb: "?h \<noteq> []" "?h ! 0 AND 0x80 = PACKET_BIT_LONG"
    by (simp_all add: long_prefix_def packet_consts)
  have p: "pn (open_builder [] ?h 0x0f) 0 1 = Inr ?b1"
    using pn_open [where h = ?h and l = 1 and P = "[]" and fbm = "0x0f" and v = 0] hb by simp
  have "length ([1, 2] :: bytes) < 2 ^ 62" by simp
  from initial_token_after_pn [OF i p this] i p show ?thesis by blast
qed

end
