(* ===== verification/Builder_Finish.thy ===== *)
theory Builder_Finish
  imports Builder_Preconditions
begin

text \<open>
  \<^verbatim>\<open>build\<close> on a reachable builder: when it succeeds (exactly when the ciphertext is
  long enough to sample, if the provider itself never fails) and what it leaves in the
  buffer (the earlier packets untouched, the header, then exactly the ciphertext the
  provider returned for the unchanged payload, for a total growth of the AEAD
  expansion).
\<close>

unbundle bit_operations_syntax

section \<open>Reduction to the encryption step\<close>

lemma build_write_len:
  assumes wf: "builder_wf P b"
  shows "\<exists>b'. build ops c b = encrypt_in_place ops c b' \<and> builder_wf P b' \<and> header b' = header b
    \<and> offsets b' = offsets b \<and> builder_pn b' = builder_pn b \<and> length (encoder b') = length (encoder b)
    \<and> drop (r_end (header b)) (encoder b') = drop (r_end (header b)) (encoder b)"
proof (cases "0 < offsets_len (offsets b)")
  case True
  let ?o = "offsets_len (offsets b)"
  obtain b' where w: "write_len b (cx_expansion ops c) = Inr b'" "builder_wf P b'" "header b' = header b"
    "offsets b' = offsets b" "builder_pn b' = builder_pn b"
    using write_len_wf [OF wf True] by blast
  have o: "?o + 2 \<le> r_end (header b)" "r_end (header b) \<le> length (encoder b)"
    using wf True by (auto simp: builder_wf_def Let_def)
  have e: "encoder b' = take ?o (encoder b) @ length_field (length (encoder b) - (?o + 2) + cx_expansion ops c)
      @ drop (?o + 2) (encoder b)"
    using write_len_splice [OF wf True, of "cx_expansion ops c"] w(1) by simp
  have "drop (r_end (header b)) (encoder b') = drop (r_end (header b) - (?o + 2)) (drop (?o + 2) (encoder b))"
    using o by (simp add: e)
  also have "\<dots> = drop (r_end (header b)) (encoder b)"
  proof -
    have s: "r_end (header b) - (?o + 2) + (?o + 2) = r_end (header b)" using o by simp
    show ?thesis by (simp only: drop_drop s)
  qed
  finally have d: "drop (r_end (header b)) (encoder b') = drop (r_end (header b)) (encoder b)" .
  have "length (encoder b') = length (encoder b)"
    using o by (simp add: e)
  with True w d show ?thesis by (auto simp: build_def)
qed (use wf in \<open>auto simp: build_def\<close>)

lemma take_xor_span:
  "(0 < n \<longrightarrow> k \<le> s) \<Longrightarrow> take k (xor_span s n a m h) = take k h"
  by (rule nth_equalityI) (auto simp: nth_xor_span)

lemma encrypt_in_place_wf:
  assumes wf: "builder_wf P b" and ops: "aead_contract ops"
    and e: "cx_encrypt ops c (builder_pn b) (slice (encoder b) (r_start (header b)) (r_end (header b)))
      (drop (r_end (header b)) (encoder b)) = Inr (ct, c')"
  shows "encrypt_in_place ops c b =
    (let pnl = r_len (offsets_pn (offsets b))
     in if length ct < 4 - pnl + SAMPLE_SIZE then Inl (Panic AssertionFailed)
     else bind_res (cx_compute_mask ops c' (slice ct (4 - pnl) (4 - pnl + SAMPLE_SIZE))) (\<lambda>msk.
       Inr (take (r_end (header b)) (xor_span (r_start (offsets_pn (offsets b))) pnl 1 msk
         ((encoder b)[length P := encoder b ! length P XOR (msk ! 0 AND first_byte_mask (offsets b))])) @ ct, c')))"
proof -
  let ?pnl = "r_len (offsets_pn (offsets b))"
  have b: "r_start (header b) \<le> r_end (header b)" "r_end (header b) \<le> length (encoder b)" "?pnl \<le> 4"
    using wf by (simp_all add: builder_wf_def Let_def)
  show ?thesis
  proof (cases "cx_compute_mask ops c' (slice ct (4 - ?pnl) (4 - ?pnl + SAMPLE_SIZE))")
    case (Inl err)
    with e b show ?thesis by (simp add: encrypt_in_place_def Let_def)
  next
    case (Inr msk)
    have "length msk = 5" using ops Inr by (rule aead_contract_mask)
    then have "apply_mask b msk = Inr (xor_span (r_start (offsets_pn (offsets b))) ?pnl 1 msk
        ((encoder b)[length P := encoder b ! length P XOR (msk ! 0 AND first_byte_mask (offsets b))]))"
      using wf by (intro apply_mask_wf) simp_all
    with e b Inr show ?thesis by (simp add: encrypt_in_place_def Let_def encode_def)
  qed
qed

lemma encrypt_in_place_Inr:
  assumes wf: "builder_wf P b" and ops: "aead_contract ops" and r: "encrypt_in_place ops c b = Inr (enc, c')"
  shows "\<exists>ct msk. cx_encrypt ops c (builder_pn b) (slice (encoder b) (r_start (header b)) (r_end (header b)))
      (drop (r_end (header b)) (encoder b)) = Inr (ct, c')
    \<and> enc = take (r_end (header b)) (xor_span (r_start (offsets_pn (offsets b))) (r_len (offsets_pn (offsets b))) 1 msk
         ((encoder b)[length P := encoder b ! length P XOR (msk ! 0 AND first_byte_mask (offsets b))])) @ ct"
proof (cases "cx_encrypt ops c (builder_pn b) (slice (encoder b) (r_start (header b)) (r_end (header b)))
      (drop (r_end (header b)) (encoder b))")
  case (Inl err)
  have "r_start (header b) \<le> r_end (header b)" "r_end (header b) \<le> length (encoder b)"
    using wf by (simp_all add: builder_wf_def Let_def)
  with Inl r show ?thesis by (simp add: encrypt_in_place_def)
next
  case (Inr x)
  obtain ct c1 where x: "x = (ct, c1)" by (cases x)
  from r encrypt_in_place_wf [OF wf ops Inr [unfolded x]] Inr x show ?thesis
    by (auto simp: Let_def bind_res_eq_Inr split: if_splits)
qed

lemma provider_total_encrypt:
  "\<forall>v hdr body. \<exists>r. cx_encrypt ops c v hdr body = Inr r \<Longrightarrow>
     \<exists>ct c'. cx_encrypt ops c v hdr body = Inr (ct, c')"
  by (metis surj_pair)

section \<open>The tests' builders\<close>

text \<open>
  The short packet of \<^verbatim>\<open>build_short\<close> (one packet-number byte, three payload bytes)
  and the Handshake packet of \<^verbatim>\<open>build_two\<close> without its payload, as reachable
  builders.
\<close>

lemma reach_short_payload:
  "builder_reach [] (numbered [] (short_header True SERVER_CID 1 0) [0, 0, 0] 0x1f 0 1 0)"
proof -
  have p: "pn (short [] True SERVER_CID) 0 1 = Inr (numbered [] (short_header True SERVER_CID 1 0) [] 0x1f 0 1 0)"
    by (rule pn_short) simp_all
  have "builder_reach [] (builder_encode [0, 0, 0] (numbered [] (short_header True SERVER_CID 1 0) [] 0x1f 0 1 0))"
    by (rule builder_reach.step [OF reach_pn [OF reach_example p], where op = "Encode [0, 0, 0]"]) simp
  then show ?thesis by simp
qed

lemma reach_long_empty:
  "builder_reach [] (numbered []
     ((long_prefix PACKET_TYPE_HANDSHAKE [] [])[0 := long_prefix PACKET_TYPE_HANDSHAKE [] [] ! 0 OR of_nat (1 - 1)]
       @ [0, 0] @ be_bytes 1 0) [] 0x0f 7 1 0)"
proof -
  let ?h = "long_prefix PACKET_TYPE_HANDSHAKE [] []"
  have ci: "code Handshake = Inr PACKET_TYPE_HANDSHAKE" by simp
  have r0: "builder_reach [] (open_builder [] ?h 0x0f)"
    by (rule builder_reach.start_long [OF long_open [OF ci]])
  have hb: "?h \<noteq> []" "?h ! 0 AND 0x80 = PACKET_BIT_LONG"
    by (simp_all add: long_prefix_def packet_consts)
  have "pn (open_builder [] ?h 0x0f) 0 1 = Inr (numbered []
     (?h[0 := ?h ! 0 OR of_nat (1 - 1)] @ [0, 0] @ be_bytes 1 0) [] 0x0f (length ([] :: bytes) + length ?h) 1 0)"
    using pn_open [where h = ?h and l = 1 and P = "[]" and fbm = "0x0f" and v = 0] hb by simp
  moreover have "length ([] :: bytes) + length ?h = 7" by (simp add: long_prefix_def)
  ultimately show ?thesis using reach_pn [OF r0] by simp
qed

lemma toy_crypto_total:
  "\<forall>v hdr body. \<exists>r. cx_encrypt (toy_crypto k) 0 v hdr body = Inr r"
  "\<forall>c' s. \<exists>m. cx_compute_mask (toy_crypto k) c' s = Inr m"
  by (simp_all add: toy_crypto_def)

section \<open>Claims\<close>

text \<open>
  C17. With a provider that meets the AEAD contract and never fails, \<^verbatim>\<open>build\<close> on a
  reachable builder succeeds exactly when payload, AEAD expansion and packet-number length
  add up to at least 20 bytes, the sample needing \<open>4 - pn_len + 16\<close> bytes of
  ciphertext; below that it is the sampling assertion.
\<close>

theorem build_succeeds_iff:
  assumes ops: "aead_contract ops" and reach: "builder_reach P b"
    and enc: "\<forall>v hdr body. \<exists>r. cx_encrypt ops c v hdr body = Inr r"
    and msk: "\<forall>c' s. \<exists>m. cx_compute_mask ops c' s = Inr m"
  shows "(\<exists>r. build ops c b = Inr r)
    \<longleftrightarrow> 20 \<le> length (encoder b) - r_end (header b) + cx_expansion ops c + r_len (offsets_pn (offsets b))"
proof -
  have wf: "builder_wf P b" by (rule reach_wf [OF reach])
  obtain b' where b': "build ops c b = encrypt_in_place ops c b'" "builder_wf P b'" "header b' = header b"
    "offsets b' = offsets b" "length (encoder b') = length (encoder b)"
    using build_write_len [OF wf, of ops c] by blast
  let ?hdr = "slice (encoder b') (r_start (header b')) (r_end (header b'))"
  let ?body = "drop (r_end (header b')) (encoder b')"
  let ?pnl = "r_len (offsets_pn (offsets b'))"
  obtain ct c' where e: "cx_encrypt ops c (builder_pn b') ?hdr ?body = Inr (ct, c')"
    using provider_total_encrypt [OF enc] by blast
  have lct: "length ct = length (encoder b) - r_end (header b) + cx_expansion ops c"
    using aead_contract_encrypt [OF ops e] b'(3,5) by simp
  have pnl: "?pnl \<le> 4" using b'(2) by (simp add: builder_wf_def Let_def)
  obtain m where m: "cx_compute_mask ops c' (slice ct (4 - ?pnl) (4 - ?pnl + SAMPLE_SIZE)) = Inr m"
    using msk by blast
  have "(\<exists>r. build ops c b = Inr r) \<longleftrightarrow> \<not> length ct < 4 - ?pnl + SAMPLE_SIZE"
    unfolding b'(1) encrypt_in_place_wf [OF b'(2) ops e] using m by (simp add: Let_def)
  also have "\<dots> \<longleftrightarrow> 20 \<le> length (encoder b) - r_end (header b) + cx_expansion ops c + r_len (offsets_pn (offsets b))"
    using pnl b'(4) by (simp add: lct SAMPLE_SIZE_def) arith
  finally show ?thesis .
qed

text \<open>
  C18. A successful \<^verbatim>\<open>build\<close> on a reachable builder leaves the earlier packets in
  the buffer untouched, grows the buffer by exactly the AEAD expansion, and ends the
  packet after its header with exactly the ciphertext the provider returned for the
  builder's packet number, a header of the header's length as associated data, and the
  unchanged payload as plaintext.
\<close>

theorem build_output:
  assumes ops: "aead_contract ops" and reach: "builder_reach P b" and r: "build ops c b = Inr (enc, c')"
  shows "take (length P) enc = P \<and> length enc = length (encoder b) + cx_expansion ops c
    \<and> (\<exists>hdr. length hdr = r_end (header b) - length P
        \<and> cx_encrypt ops c (builder_pn b) hdr (drop (r_end (header b)) (encoder b))
          = Inr (drop (r_end (header b)) enc, c'))"
proof -
  have wf: "builder_wf P b" by (rule reach_wf [OF reach])
  obtain b' where b': "build ops c b = encrypt_in_place ops c b'" "builder_wf P b'" "header b' = header b"
    "offsets b' = offsets b" "builder_pn b' = builder_pn b" "length (encoder b') = length (encoder b)"
    "drop (r_end (header b)) (encoder b') = drop (r_end (header b)) (encoder b)"
    using build_write_len [OF wf, of ops c] by blast
  let ?s = "r_start (offsets_pn (offsets b'))" and ?n = "r_len (offsets_pn (offsets b'))"
  let ?he = "r_end (header b')"
  have r': "encrypt_in_place ops c b' = Inr (enc, c')" using r b'(1) by simp
  obtain ct msk where e: "cx_encrypt ops c (builder_pn b') (slice (encoder b') (r_start (header b')) ?he)
      (drop ?he (encoder b')) = Inr (ct, c')"
    and enc: "enc = take ?he (xor_span ?s ?n 1 msk
         ((encoder b')[length P := encoder b' ! length P XOR (msk ! 0 AND first_byte_mask (offsets b'))])) @ ct"
    using encrypt_in_place_Inr [OF b'(2) ops r'] by blast
  have f: "r_start (header b') = length P" "length P \<le> ?he" "?he \<le> length (encoder b')"
    "0 < ?n \<longrightarrow> length P \<le> ?s" "take (length P) (encoder b') = P"
    using b'(2) by (auto simp: builder_wf_def Let_def)
  have lct: "length ct = length (encoder b) - r_end (header b) + cx_expansion ops c"
    using aead_contract_encrypt [OF ops e] b'(3,6,7) by simp
  have "take (length P) enc = take (length P) (xor_span ?s ?n 1 msk
         ((encoder b')[length P := encoder b' ! length P XOR (msk ! 0 AND first_byte_mask (offsets b'))]))"
    using f(2,3) by (simp add: enc min_def)
  also have "\<dots> = P" using f(4,5) by (simp add: take_xor_span)
  finally have t: "take (length P) enc = P" .
  have d: "drop ?he enc = ct" using f(3) by (simp add: enc)
  have l: "length enc = length (encoder b) + cx_expansion ops c"
    using f(3) b'(3,6) lct by (simp add: enc)
  have "length (slice (encoder b') (r_start (header b')) ?he) = r_end (header b) - length P"
    using f(1,3) b'(3) by simp
  with e d b'(3,5,7) have "\<exists>hdr. length hdr = r_end (header b) - length P
        \<and> cx_encrypt ops c (builder_pn b) hdr (drop (r_end (header b)) (encoder b))
          = Inr (drop (r_end (header b)) enc, c')"
    by auto
  with t l show ?thesis by blast
qed

section \<open>Witnesses\<close>

text \<open>
  The three-byte payload of \<^verbatim>\<open>build_short\<close> is exactly enough; the long header
  with a one-byte packet number and no payload, which the specification says must build
  with a 16-byte tag, does not.
\<close>

theorem build_succeeds_iff_witness:
  "\<exists>b1 b2. builder_reach [] b1 \<and> (\<exists>r. build (toy_crypto 7) 0 b1 = Inr r)
     \<and> builder_reach [] b2 \<and> r_len (offsets_pn (offsets b2)) = 1 \<and> length (encoder b2) = r_end (header b2)
     \<and> \<not> (\<exists>r. build (toy_crypto 7) 0 b2 = Inr r)"
proof -
  let ?b1 = "numbered [] (short_header True SERVER_CID 1 0) [0, 0, 0] 0x1f 0 1 0"
  let ?h = "long_prefix PACKET_TYPE_HANDSHAKE [] []"
  let ?b2 = "numbered [] (?h[0 := ?h ! 0 OR of_nat (1 - 1)] @ [0, 0] @ be_bytes 1 0) [] 0x0f 7 1 0"
  have c: "aead_contract (toy_crypto 7)" by (rule toy_crypto_contract)
  have "(\<exists>r. build (toy_crypto 7) 0 ?b1 = Inr r) \<longleftrightarrow> 20 \<le> length (encoder ?b1) - r_end (header ?b1)
      + cx_expansion (toy_crypto 7) 0 + r_len (offsets_pn (offsets ?b1))"
    by (rule build_succeeds_iff [OF c reach_short_payload toy_crypto_total])
  moreover have "20 \<le> length (encoder ?b1) - r_end (header ?b1)
      + cx_expansion (toy_crypto 7) 0 + r_len (offsets_pn (offsets ?b1))"
    by (simp add: numbered_def short_header_def SERVER_CID_def toy_crypto_def r_len_def)
  moreover have "(\<exists>r. build (toy_crypto 7) 0 ?b2 = Inr r) \<longleftrightarrow> 20 \<le> length (encoder ?b2) - r_end (header ?b2)
      + cx_expansion (toy_crypto 7) 0 + r_len (offsets_pn (offsets ?b2))"
    by (rule build_succeeds_iff [OF c reach_long_empty toy_crypto_total])
  moreover have "\<not> 20 \<le> length (encoder ?b2) - r_end (header ?b2)
      + cx_expansion (toy_crypto 7) 0 + r_len (offsets_pn (offsets ?b2))"
    "r_len (offsets_pn (offsets ?b2)) = 1" "length (encoder ?b2) = r_end (header ?b2)"
    by (simp_all add: numbered_def long_prefix_def toy_crypto_def r_len_def)
  ultimately show ?thesis using reach_short_payload reach_long_empty by blast
qed

theorem build_output_witness:
  "\<exists>b enc c'. builder_reach [] b \<and> build (toy_crypto 7) 0 b = Inr (enc, c')
     \<and> length enc = 29 \<and> drop 10 enc = [7, 7, 7] @ replicate 16 7"
proof -
  let ?b1 = "numbered [] (short_header True SERVER_CID 1 0) [0, 0, 0] 0x1f 0 1 0"
  have "\<exists>r. build (toy_crypto 7) 0 ?b1 = Inr r"
    by (simp add: build_def encrypt_in_place_def numbered_def short_header_def SERVER_CID_def
        toy_crypto_def r_len_def slice_def SAMPLE_SIZE_def apply_mask_def pn_indices_def Let_def)
  then obtain enc c' where r: "build (toy_crypto 7) 0 ?b1 = Inr (enc, c')" by auto
  have e: "length (encoder ?b1) = 13" "r_end (header ?b1) = 10" "drop 10 (encoder ?b1) = [0, 0, 0]"
    "builder_pn ?b1 = 0"
    by (simp_all add: numbered_def short_header_def SERVER_CID_def)
  have t: "cx_encrypt (toy_crypto 7) 0 0 hdr [0, 0, 0] = Inr ([7, 7, 7] @ replicate 16 7, 1)" for hdr
    by (simp add: toy_crypto_def)
  from build_output [OF toy_crypto_contract reach_short_payload r]
  have "length enc = 13 + 16 \<and> (\<exists>hdr. cx_encrypt (toy_crypto 7) 0 0 hdr [0, 0, 0] = Inr (drop 10 enc, c'))"
    unfolding e by (simp add: toy_crypto_def)
  then have "length enc = 29 \<and> drop 10 enc = [7, 7, 7] @ replicate 16 7"
    by (simp only: t) auto
  with reach_short_payload r show ?thesis by blast
qed

end
