(* ===== verification/Builder_Header.thy ===== *)
theory Builder_Header
  imports Builder_Finish
begin

text \<open>
  The first byte of a packet under construction, and the header-protection loop against
  its reference.  Every builder reachable from \<^verbatim>\<open>short\<close> or \<^verbatim>\<open>long\<close> keeps the
  QUIC fixed bit \<open>0x40\<close> in the first byte (Version Negotiation, built without the
  builder, deliberately does not); the loop \<^verbatim>\<open>for (i, j) in (1..=pn_len).zip(pn)\<close> of
  \<^verbatim>\<open>build\<close>, modelled by \<open>xor_pn\<close> over \<open>pn_indices\<close>, computes exactly the
  XOR of mask bytes \<open>1..pn_len\<close> onto the packet-number range, \<open>xor_span\<close>, and panics
  on an index exactly when the mask is too short.  A receiver that removes the
  protection with the specification's procedure \<open>unprotect\<close> gets the unmasked buffer
  back.
\<close>

unbundle bit_operations_syntax

section \<open>The fixed bit\<close>

definition fixed_bit :: "encoder \<Rightarrow> packet_builder \<Rightarrow> bool" where
  "fixed_bit P b \<longleftrightarrow> encoder b ! length P AND 0x40 = 0x40"

lemma or_pn_len_fixed: "n < 4 \<Longrightarrow> ((x OR of_nat n) :: byte) AND 0x40 = x AND 0x40"
proof -
  assume "n < 4"
  then have "n = 0 \<or> n = 1 \<or> n = 2 \<or> n = 3" by arith
  then have "(of_nat n :: byte) AND 0x40 = 0" by auto
  then show ?thesis by (simp add: bit.conj_disj_distrib2)
qed

lemma pn_first_byte:
  assumes "builder_wf P b" and "pn b v l = Inr b'"
  shows "encoder b' ! length P = encoder b ! length P OR of_nat (l - 1)"
proof -
  have "r_start (header b) = length P" "length P < length (encoder b)"
    using assms(1) by (simp_all add: builder_wf_def Let_def)
  with assms(2) show ?thesis
    by (auto simp: pn_def bind_res_eq_Inr get_eq_Inr Let_def reserve_len_def encode_def encode_uint_def
        nth_append split: if_splits)
qed

lemma fixed_bit_step:
  assumes wf: "builder_wf P b" and fx: "fixed_bit P b" and r: "exec_op b op = Inr b'"
  shows "fixed_bit P b'"
proof (cases op)
  case (InitialToken t)
  have "length P < length (encoder b)" "r_start (header b) = length P"
    using wf by (simp_all add: builder_wf_def Let_def)
  moreover from r InitialToken obtain e where "encoder b' = encoder b @ e"
    by (auto simp: initial_token_def bind_res_eq_Inr split: if_splits dest!: encode_vvec_prefix)
  ultimately show ?thesis using fx by (simp add: fixed_bit_def nth_append)
next
  case (Pn v l)
  with r have p: "pn b v l = Inr b'" by simp
  have "l - 1 < 4" using pn_Inr_len [OF p] by arith
  with fx show ?thesis
    by (simp add: fixed_bit_def pn_first_byte [OF wf p] or_pn_len_fixed)
next
  case (Encode t)
  have "length P < length (encoder b)" using wf by (simp add: builder_wf_def Let_def)
  with r Encode fx show ?thesis by (auto simp: fixed_bit_def builder_encode_def encode_def nth_append)
qed

lemma reach_fixed_bit: "builder_reach P b \<Longrightarrow> fixed_bit P b"
proof (induction rule: builder_reach.induct)
  case (start_short P key_phase dcid)
  then show ?case by (cases key_phase) (simp_all add: fixed_bit_def short_open open_builder_def)
next
  case (start_long P pt dcid scid b)
  then show ?case
    by (cases pt) (auto simp: fixed_bit_def long_def Let_def encode_byte_def encode_vec_def encode_uint_def
        encode_def nth_append packet_consts)
next
  case (step P b op b')
  then show ?case using fixed_bit_step reach_wf by blast
qed

section \<open>The header-protection loop\<close>

lemma xor_pn_short_mask:
  "s + n \<le> length enc \<Longrightarrow> length msk < a + n \<Longrightarrow> 0 < n \<Longrightarrow>
     xor_pn enc msk (zip [a..<a + n] [s..<s + n]) = Inl (Panic IndexOutOfBounds)"
proof (induction n arbitrary: a s enc)
  case 0
  then show ?case by simp
next
  case (Suc n)
  have z: "zip [a..<a + Suc n] [s..<s + Suc n] = (a, s) # zip [Suc a..<Suc a + n] [Suc s..<Suc s + n]"
    by (simp add: upt_conv_Cons)
  have "xor_pn enc msk (zip [a..<a + Suc n] [s..<s + Suc n])
      = xor_pn enc msk ((a, s) # zip [Suc a..<Suc a + n] [Suc s..<Suc s + n])"
    by (simp only: z)
  also have "\<dots> = Inl (Panic IndexOutOfBounds)"
  proof (cases "a < length msk")
    case True
    then have "0 < n" using Suc.prems(2) by simp
    then have "xor_pn (enc[s := enc ! s XOR msk ! a]) msk (zip [Suc a..<Suc a + n] [Suc s..<Suc s + n])
        = Inl (Panic IndexOutOfBounds)"
      using Suc.prems by (intro Suc.IH) simp_all
    with True Suc.prems(1) show ?thesis by (simp del: upt_Suc)
  next
    case False
    then show ?thesis by (simp del: upt_Suc add: get_def)
  qed
  finally show ?case .
qed

lemma small_and3: "n < 4 \<Longrightarrow> (of_nat n :: byte) AND 3 = of_nat n"
proof -
  assume "n < 4"
  then have "n = 0 \<or> n = 1 \<or> n = 2 \<or> n = 3" by arith
  then show ?thesis by auto
qed

lemma pn_long_layout:
  assumes "builder_wf P b" and "is_long_byte (encoder b ! length P)" and "pn b v l = Inr b'"
  shows "encoder b' = (encoder b @ [0, 0] @ be_bytes l v)[length P := encoder b ! length P OR of_nat (l - 1)]
    \<and> offsets_len (offsets b') = length (encoder b)"
proof -
  have "r_start (header b) = length P" "length P < length (encoder b)"
    using assms(1) by (simp_all add: builder_wf_def Let_def)
  with assms(2,3) show ?thesis
    by (auto simp: pn_def bind_res_eq_Inr get_eq_Inr Let_def reserve_len_def encode_def encode_uint_be_bytes
        is_long_byte_def nth_append split: if_splits)
qed

section \<open>Removing the protection\<close>

lemma pn_range_len: "pn b v l = Inr b' \<Longrightarrow> r_len (offsets_pn (offsets b')) = l"
  by (auto simp: pn_def bind_res_eq_Inr Let_def r_len_def set_at_def reserve_len_def encode_uint_def
      encode_def split: if_splits)

lemma reach_open_low_bits:
  "builder_reach P b \<Longrightarrow> r_len (offsets_pn (offsets b)) = 0 \<Longrightarrow> encoder b ! length P AND 3 = 0"
proof (induction rule: builder_reach.induct)
  case (start_short P key_phase dcid)
  then show ?case by (simp add: short_open open_builder_def short_low_bits)
next
  case (start_long P pt dcid scid b)
  obtain c where c: "code pt = Inr c" using long_code [OF start_long.hyps] by blast
  have "b = open_builder P (long_prefix c dcid scid) 0x0f"
    using start_long.hyps long_open [OF c] by simp
  then show ?case by (simp add: open_builder_def long_prefix_def long_low_bits [OF c])
next
  case (step P b op b')
  have wf: "length P < length (encoder b)" using reach_wf [OF step.hyps(1)] by (simp add: builder_wf_def Let_def)
  show ?case
  proof (cases op)
    case (InitialToken t)
    from step.hyps(2) InitialToken obtain e where "encoder b' = encoder b @ e" "offsets b' = offsets b"
      by (auto simp: initial_token_def bind_res_eq_Inr split: if_splits dest!: encode_vvec_prefix)
    then show ?thesis using step wf by (simp add: nth_append)
  next
    case (Pn v l)
    then have "r_len (offsets_pn (offsets b')) = l" "0 < l"
      using step.hyps(2) pn_range_len pn_Inr_len by auto
    then show ?thesis using step.prems by simp
  next
    case (Encode t)
    then show ?thesis using step wf by (auto simp: builder_encode_def encode_def nth_append)
  qed
qed

lemma low_bits_pn_len:
  assumes "x AND 3 = 0" and "0 < l" and "l \<le> 4"
  shows "unat ((x OR of_nat (l - 1) :: byte) AND 3) = l - 1"
proof -
  have "l - 1 < 4" using assms(2,3) by simp
  then have "(x OR of_nat (l - 1) :: byte) AND 3 = of_nat (l - 1)"
    using assms(1) by (simp add: bit.conj_disj_distrib2 small_and3)
  moreover have "unat (of_nat (l - 1) :: byte) = l - 1"
    using \<open>l - 1 < 4\<close> by (simp add: unat_of_nat)
  ultimately show ?thesis by simp
qed

lemma mask_keeps_long_bit:
  "fbm = 0x0f \<or> fbm = 0x1f \<Longrightarrow> (x XOR (m AND fbm) :: byte) AND 0x80 = x AND 0x80"
  by (auto simp: bit.conj_xor_distrib2 and.assoc)

section \<open>Claims\<close>

text \<open>
  C10. A receiver can remove the header protection the builder applies: after
  \<^verbatim>\<open>pn\<close> and any payload, the masked buffer that \<^verbatim>\<open>build\<close>'s masking step produces
  is restored byte for byte by the receiver's procedure \<open>unprotect\<close> of the
  specification, which chooses the first-byte mask from the long-header bit and reads
  the packet-number length from the unmasked low bits.
\<close>

theorem unprotect_restores:
  assumes reach: "builder_reach P b" and o: "r_len (offsets_pn (offsets b)) = 0"
    and p: "pn b v l = Inr b'" and m: "5 \<le> length msk"
    and r: "apply_mask (builder_encode body b') msk = Inr enc"
  shows "unprotect (length P) (r_start (offsets_pn (offsets b'))) msk enc = encoder (builder_encode body b')"
proof -
  let ?b = "builder_encode body b'"
  let ?E = "encoder ?b" and ?s = "r_start (offsets_pn (offsets b'))"
  let ?fbm = "first_byte_mask (offsets ?b)"
  let ?k = "msk ! 0 AND ?fbm"
  have reach2: "builder_reach P ?b"
    using reach_pn [OF reach p] by (rule builder_reach.step [where op = "Encode body"]) simp
  have wf2: "builder_wf P ?b" using reach2 by (rule reach_wf)
  have f: "r_start (header ?b) = length P" "length P < length ?E"
    "r_start (offsets_pn (offsets ?b)) \<le> r_end (offsets_pn (offsets ?b))"
    "r_end (offsets_pn (offsets ?b)) \<le> length ?E" "r_len (offsets_pn (offsets ?b)) \<le> 4"
    "\<not> (?s \<le> length P \<and> length P < ?s + r_len (offsets_pn (offsets ?b)))"
    using wf_mask_facts [OF wf2] by (simp_all add: builder_encode_def)
  have l: "r_len (offsets_pn (offsets ?b)) = l" "0 < l" "l \<le> 4"
    using pn_range_len [OF p] pn_Inr_len [OF p] by (simp_all add: builder_encode_def)
  have enc: "enc = xor_span ?s l 1 msk (?E[length P := ?E ! length P XOR ?k])"
    using apply_mask_xor [of ?b msk] f m r l(1) by (simp add: builder_encode_def)
  have e0: "enc ! length P = ?E ! length P XOR ?k"
    using f(2,6) l(1) by (auto simp: enc nth_xor_span builder_encode_def)
  have fbm: "?fbm = (if ?E ! length P AND 0x80 = 0x80 then 0x0f else 0x1f)"
    using wf2 by (simp add: builder_wf_def Let_def is_long_byte_def PACKET_BIT_LONG_def)
  have bit7: "enc ! length P AND 0x80 = ?E ! length P AND 0x80"
    unfolding e0 by (rule mask_keeps_long_bit) (simp add: fbm)
  have fb: "enc ! length P XOR (msk ! 0 AND (if enc ! length P AND 0x80 = 0x80 then 0x0f else 0x1f))
      = ?E ! length P"
  proof -
    have sel: "(if enc ! length P AND 0x80 = 0x80 then 0x0f else 0x1f) = ?fbm"
      using bit7 fbm by simp
    show ?thesis unfolding sel unfolding e0 by (simp add: xor.assoc)
  qed
  have E0: "?E ! length P = encoder b ! length P OR of_nat (l - 1)"
  proof -
    have "length P < length (encoder b')"
      using reach_wf [OF reach_pn [OF reach p]] by (simp add: builder_wf_def Let_def)
    then have "?E ! length P = encoder b' ! length P" by (simp add: builder_encode_def encode_def nth_append)
    also have "\<dots> = encoder b ! length P OR of_nat (l - 1)"
      using pn_first_byte [OF reach_wf [OF reach] p] .
    finally show ?thesis .
  qed
  have len: "unat (?E ! length P AND 3) + 1 = l"
    using low_bits_pn_len [OF reach_open_low_bits [OF reach o] l(2,3)] l(2) by (simp add: E0)
  have "enc[length P := ?E ! length P] = xor_span ?s l 1 msk ?E"
  proof -
    have "enc[length P := ?E ! length P]
        = xor_span ?s l 1 msk (?E[length P := ?E ! length P XOR ?k, length P := ?E ! length P])"
      unfolding enc using f(6) l(1) by (intro xor_span_update_outside [symmetric]) simp
    then show ?thesis by simp
  qed
  then show ?thesis
    unfolding unprotect_def Let_def fb len by simp
qed


text \<open>
  C24. The first byte of every builder reachable from \<^verbatim>\<open>short\<close> or \<^verbatim>\<open>long\<close> is a
  well-formed QUIC header byte: the fixed bit \<open>0x40\<close> is set, and the long-header bit
  is set exactly when the builder's first-byte protection mask is the long header's
  \<open>0x0f\<close>.
\<close>

theorem reachable_first_byte:
  assumes "builder_reach P b"
  shows "encoder b ! length P AND 0x40 = 0x40
    \<and> (encoder b ! length P AND 0x80 = 0x80 \<longleftrightarrow> first_byte_mask (offsets b) = 0x0f)"
proof -
  have "fixed_bit P b" using assms by (rule reach_fixed_bit)
  moreover have "builder_wf P b" using assms by (rule reach_wf)
  ultimately show ?thesis
    by (auto simp: fixed_bit_def builder_wf_def is_long_byte_def Let_def PACKET_BIT_LONG_def)
qed

text \<open>
  C25. The header-protection loop of \<^verbatim>\<open>build\<close> over a packet-number range inside the
  buffer is equivalent to its reference \<open>xor_span\<close>, XOR of mask bytes
  \<open>1..pn_len\<close> onto the range, when the mask has more than \<open>pn_len\<close> bytes (or the
  range is empty), and is the index panic otherwise.
\<close>

theorem mask_loop_equiv:
  assumes "r_start r \<le> r_end r" and "r_end r \<le> length enc"
  shows "xor_pn enc msk (pn_indices r)
    = (if r_len r < length msk \<or> r_len r = 0 then Inr (xor_span (r_start r) (r_len r) 1 msk enc)
       else Inl (Panic IndexOutOfBounds))"
proof -
  have idx: "pn_indices r = zip [1..<1 + r_len r] [r_start r..<r_start r + r_len r]"
    using assms(1) by (rule pn_indices_span)
  have len: "r_start r + r_len r \<le> length enc" using assms by (simp add: r_len_def)
  show ?thesis
  proof (cases "r_len r < length msk \<or> r_len r = 0")
    case True
    then have "xor_pn enc msk (zip [1..<1 + r_len r] [r_start r..<r_start r + r_len r])
        = Inr (xor_span (r_start r) (r_len r) 1 msk enc)"
    proof
      assume "r_len r < length msk"
      with len show ?thesis by (intro xor_pn_span) simp_all
    next
      assume "r_len r = 0"
      then show ?thesis by simp
    qed
    with True idx show ?thesis by simp
  next
    case False
    then have "xor_pn enc msk (zip [1..<1 + r_len r] [r_start r..<r_start r + r_len r])
        = Inl (Panic IndexOutOfBounds)"
      using len by (intro xor_pn_short_mask) simp_all
    with False idx show ?thesis by simp
  qed
qed

text \<open>
  C31. Nothing stops a second \<^verbatim>\<open>pn\<close> on a long-header builder, and it corrupts the
  header: the first length placeholder stays \<open>[0, 0]\<close> inside the header and is never
  written (\<^verbatim>\<open>build\<close> patches only the second one), a second placeholder and
  packet number follow, and both packet-number lengths are ORed into the first byte.
\<close>

theorem pn_twice_long:
  assumes "long P pt dcid scid = Inr b" and "pn b v1 l1 = Inr b1" and "pn b1 v2 l2 = Inr b2"
  shows "slice (encoder b2) (offsets_len (offsets b1)) (offsets_len (offsets b1) + 2) = [0, 0]
    \<and> offsets_len (offsets b2) = length (encoder b1)
    \<and> offsets_len (offsets b1) + 2 < r_end (header b2)
    \<and> encoder b2 ! length P AND 3 = (of_nat (l1 - 1) OR of_nat (l2 - 1))"
proof -
  have r0: "builder_reach P b" by (rule builder_reach.start_long [OF assms(1)])
  have r1: "builder_reach P b1" by (rule reach_pn [OF r0 assms(2)])
  have wf0: "builder_wf P b" and wf1: "builder_wf P b1" using r0 r1 by (simp_all add: reach_wf)
  have lb0: "is_long_byte (encoder b ! length P)" and c0: "encoder b ! length P AND 3 = 0"
  proof -
    from assms(1) obtain c where c: "code pt = Inr c" using long_code by blast
    have e: "encoder b ! length P = 0xc0 OR push_bit 4 c"
      using assms(1) long_open [OF c, of P dcid scid] by (auto simp: open_builder_def long_prefix_def)
    show "is_long_byte (encoder b ! length P)"
      using code_first_byte_long [OF c] by (simp add: e is_long_byte_def)
    show "encoder b ! length P AND 3 = 0" using long_low_bits [OF c] by (simp add: e)
  qed
  have l1: "l1 - 1 < 4" and l2: "l2 - 1 < 4"
    using pn_Inr_len [OF assms(2)] pn_Inr_len [OF assms(3)] by arith+
  have f1: "encoder b1 ! length P = encoder b ! length P OR of_nat (l1 - 1)"
    by (rule pn_first_byte [OF wf0 assms(2)])
  have lb1: "is_long_byte (encoder b1 ! length P)"
    using lb0 l1 by (simp add: f1 is_long_byte_or_small)
  have p1: "encoder b1 = (encoder b @ [0, 0] @ be_bytes l1 v1)[length P := encoder b ! length P OR of_nat (l1 - 1)]"
    "offsets_len (offsets b1) = length (encoder b)"
    using pn_long_layout [OF wf0 lb0 assms(2)] by blast+
  have p2: "encoder b2 = (encoder b1 @ [0, 0] @ be_bytes l2 v2)[length P := encoder b1 ! length P OR of_nat (l2 - 1)]"
    "offsets_len (offsets b2) = length (encoder b1)"
    using pn_long_layout [OF wf1 lb1 assms(3)] by blast+
  have lt: "length P < length (encoder b)" using wf0 by (simp add: builder_wf_def Let_def)
  have s: "slice (encoder b2) (offsets_len (offsets b1)) (offsets_len (offsets b1) + 2) = [0, 0]"
    unfolding p2(1) p1 using lt by (simp add: slice_def drop_update_cancel nth_append)
  have h: "offsets_len (offsets b1) + 2 < r_end (header b2)"
    using pn_closes_header [OF assms(3)] p1 p2 by simp
  have "encoder b2 ! length P = (encoder b ! length P OR of_nat (l1 - 1)) OR of_nat (l2 - 1)"
    using pn_first_byte [OF wf1 assms(3)] f1 by simp
  moreover have "(of_nat (l1 - 1) :: byte) AND 3 = of_nat (l1 - 1)" "(of_nat (l2 - 1) :: byte) AND 3 = of_nat (l2 - 1)"
    using l1 l2 by (simp_all only: small_and3)
  ultimately have "encoder b2 ! length P AND 3 = (of_nat (l1 - 1) OR of_nat (l2 - 1))"
    using c0 by (simp only: bit.conj_disj_distrib2) simp
  with s p2(2) h show ?thesis by blast
qed

section \<open>Witnesses\<close>

theorem unprotect_restores_witness:
  "\<exists>b' enc. builder_reach [] (short [] True SERVER_CID)
     \<and> r_len (offsets_pn (offsets (short [] True SERVER_CID))) = 0
     \<and> pn (short [] True SERVER_CID) 0 1 = Inr b' \<and> 5 \<le> length ([0xe5, 0x2b, 3, 4, 5] :: bytes)
     \<and> apply_mask (builder_encode [] b') [0xe5, 0x2b, 3, 4, 5] = Inr enc \<and> enc \<noteq> encoder b'
     \<and> unprotect 0 (r_start (offsets_pn (offsets b'))) [0xe5, 0x2b, 3, 4, 5] enc = encoder (builder_encode [] b')"
proof -
  let ?b' = "numbered [] (short_header True SERVER_CID 1 0) [] 0x1f 0 1 0"
  let ?m = "[0xe5, 0x2b, 3, 4, 5] :: bytes"
  let ?enc = "protect 0x1f (length (short_header True SERVER_CID 1 0) - 1) 1 ?m (short_header True SERVER_CID 1 0)"
  have r: "builder_reach [] (short [] True SERVER_CID)" by (rule builder_reach.start_short)
  have o: "r_len (offsets_pn (offsets (short [] True SERVER_CID))) = 0"
    by (simp add: short_open open_builder_def r_len_def)
  have p: "pn (short [] True SERVER_CID) 0 1 = Inr ?b'" by (rule pn_short) simp_all
  have m: "5 \<le> length ?m" by simp
  have a: "apply_mask (builder_encode [] ?b') ?m = Inr ?enc"
  proof -
    have "apply_mask ?b' ?m = Inr ([] @ ?enc @ [])"
      by (rule apply_mask_numbered) (simp_all add: short_header_def)
    then show ?thesis by simp
  qed
  have ne: "?enc \<noteq> encoder ?b'"
    by (simp add: protect_def xor_span_def first_byte_xor_def short_header_def SERVER_CID_def numbered_def)
  have u: "unprotect 0 (r_start (offsets_pn (offsets ?b'))) ?m ?enc = encoder (builder_encode [] ?b')"
    using unprotect_restores [OF r o p m a] by simp
  from r o p m a ne u show ?thesis by blast
qed


theorem reachable_first_byte_witness:
  "builder_reach [] (short [] True SERVER_CID)
   \<and> encoder (short [] True SERVER_CID) ! 0 AND 0x40 = 0x40
   \<and> first_byte_mask (offsets (short [] True SERVER_CID)) = 0x1f"
proof -
  from reachable_first_byte [OF reach_example] reach_example
  have "encoder (short [] True SERVER_CID) ! 0 AND 0x40 = 0x40" by simp
  moreover have "first_byte_mask (offsets (short [] True SERVER_CID)) = 0x1f"
    by (simp add: short_def Let_def)
  ultimately show ?thesis using reach_example by blast
qed

theorem mask_loop_equiv_witness:
  "xor_pn [0, 0, 0, 0] [9, 1, 2] (pn_indices \<lparr>r_start = 1, r_end = 3\<rparr>) = Inr [0, 1, 2, 0]
   \<and> xor_pn [0, 0, 0, 0] [9, 1] (pn_indices \<lparr>r_start = 1, r_end = 3\<rparr>) = Inl (Panic IndexOutOfBounds)"
proof -
  have a: "r_start \<lparr>r_start = 1, r_end = 3\<rparr> \<le> r_end \<lparr>r_start = 1, r_end = 3\<rparr>"
    "r_end \<lparr>r_start = 1, r_end = 3\<rparr> \<le> length ([0, 0, 0, 0] :: bytes)" by simp_all
  from mask_loop_equiv [OF a, of "[9, 1, 2]"] mask_loop_equiv [OF a, of "[9, 1]"]
  show ?thesis by (simp add: r_len_def xor_span_def)
qed

theorem pn_twice_long_witness:
  "\<exists>b b1 b2. long [] Handshake [] [] = Inr b \<and> pn b 0 1 = Inr b1 \<and> pn b1 0 2 = Inr b2
     \<and> slice (encoder b2) 7 9 = [0, 0] \<and> offsets_len (offsets b2) = 10 \<and> encoder b2 ! 0 AND 3 = 1"
proof -
  let ?h = "long_prefix PACKET_TYPE_HANDSHAKE [] []"
  let ?b1 = "numbered [] (?h[0 := ?h ! 0 OR of_nat (1 - 1)] @ [0, 0] @ be_bytes 1 0) [] 0x0f 7 1 0"
  have l: "long [] Handshake [] [] = Inr (open_builder [] ?h 0x0f)" by (rule long_open) simp
  have hb: "?h \<noteq> []" "?h ! 0 AND 0x80 = PACKET_BIT_LONG"
    by (simp_all add: long_prefix_def packet_consts)
  have p1: "pn (open_builder [] ?h 0x0f) 0 1 = Inr ?b1"
    using pn_open [where h = ?h and l = 1 and P = "[]" and fbm = "0x0f" and v = 0] hb
    by (simp add: long_prefix_def)
  obtain b2 where p2: "pn ?b1 0 2 = Inr b2"
    by (simp add: pn_def numbered_def reserve_len_def long_prefix_def encode_def encode_uint_def
        Let_def packet_consts)
  from pn_twice_long [OF l p1 p2]
  have "slice (encoder b2) 7 9 = [0, 0] \<and> offsets_len (offsets b2) = 10 \<and> encoder b2 ! 0 AND 3 = 1"
    by (simp add: numbered_def long_prefix_def)
  with l p1 p2 show ?thesis by blast
qed

end
