(* ===== verification/Retry.thy ===== *)
theory Retry
  imports Wire
begin

text \<open>
  \<^verbatim>\<open>PacketBuilder::retry\<close> (\<^verbatim>\<open>packet2.rs\<close> lines 219--251) with the fixed-key
  Retry protector it uses: \<^verbatim>\<open>make_retry_aead\<close> and the thread-local
  \<^verbatim>\<open>RETRY_AEAD\<close> (lines 57--74).  The protector's key import and AEAD live in
  \<^verbatim>\<open>neqo_crypto\<close>, outside the excerpt, and are an interface record \<open>retry_provider\<close>
  over abstract key and AEAD types.  The thread-local is a slot that is uninitialised
  until its first use, holds the AEAD afterwards, and is destroyed at thread exit;
  \<open>retry\<close> takes the slot and returns it updated, so a sequence of calls on one thread
  is a sequence of slot states.  \<^verbatim>\<open>random(1)[0]\<close> is the parameter \<open>rnd\<close>.
\<close>

unbundle bit_operations_syntax

section \<open>The fixed-key protector\<close>

definition RETRY_SECRET :: bytes where
  "RETRY_SECRET =
     [0x65, 0x6e, 0x61, 0xe3, 0x36, 0xae, 0x94, 0x17, 0xf7, 0xf0, 0xed, 0xd8, 0xd7, 0x8d,
      0x46, 0x1e, 0x2a, 0xa7, 0x08, 0x4a, 0xba, 0x7a, 0x14, 0xc1, 0xe9, 0xf7, 0x26, 0xd5,
      0x57, 0x09, 0x16, 0x9a]"

text \<open>
  \<open>rp_initialized\<close>: whether \<^verbatim>\<open>neqo_crypto\<close> was initialised (checked by
  \<^verbatim>\<open>assert_initialized\<close> in debug builds); \<open>rp_import_key\<close>:
  \<^verbatim>\<open>hkdf::import_key(TLS_VERSION_1_3, TLS_AES_128_GCM_SHA256, secret)\<close>;
  \<open>rp_aead_new\<close>: \<^verbatim>\<open>Aead::new(TLS_VERSION_1_3, TLS_AES_128_GCM_SHA256, key, label)\<close>;
  \<open>rp_encrypt a count aad input output\<close>: \<^verbatim>\<open>Aead::encrypt\<close>, returning the written
  part of the output buffer.
\<close>

record ('k, 'a) retry_provider =
  rp_initialized :: bool
  rp_import_key :: "bytes \<Rightarrow> 'k res"
  rp_aead_new :: "'k \<Rightarrow> string \<Rightarrow> 'a res"
  rp_expansion :: "'a \<Rightarrow> nat"
  rp_encrypt :: "'a \<Rightarrow> u64 \<Rightarrow> bytes \<Rightarrow> bytes \<Rightarrow> bytes \<Rightarrow> bytes res"

definition make_retry_aead :: "('k, 'a) retry_provider \<Rightarrow> 'a res" where
  "make_retry_aead rp =
     (if \<not> rp_initialized rp then Inl (Panic DebugAssertion)
      else bind_res (unwrap (rp_import_key rp RETRY_SECRET)) (\<lambda>secret.
           unwrap (rp_aead_new rp secret ''quic '')))"

text \<open>
  The thread-local slot, and \<^verbatim>\<open>LocalKey::try_with\<close> followed by
  \<^verbatim>\<open>.map_err(|_| Error::InternalError)??\<close>: a destroyed slot is an access error, turned
  into \<open>InternalError\<close>; an uninitialised slot runs the initialiser first, whose panic
  propagates and leaves the slot uninitialised; the closure's own error propagates.
\<close>

datatype 'a tls_slot = Uninit | Alive 'a | Destroyed

definition tls_try_with :: "'a res \<Rightarrow> 'a tls_slot \<Rightarrow> ('a \<Rightarrow> 'b res) \<Rightarrow> 'b res \<times> 'a tls_slot" where
  "tls_try_with init slot f =
     (case slot of
        Destroyed \<Rightarrow> (Inl InternalError, Destroyed)
      | Alive a \<Rightarrow> (f a, Alive a)
      | Uninit \<Rightarrow> (case init of Inl e \<Rightarrow> (Inl e, Uninit) | Inr a \<Rightarrow> (f a, Alive a)))"

section \<open>Building a Retry packet\<close>

text \<open>The closure passed to \<^verbatim>\<open>try_with\<close>: the integrity tag over the whole buffer.\<close>

definition retry_tag :: "('k, 'a) retry_provider \<Rightarrow> encoder \<Rightarrow> 'a \<Rightarrow> bytes res" where
  "retry_tag rp enc aead =
     (let buf = replicate (rp_expansion rp aead) 0
      in rp_encrypt rp aead 0 enc [] buf)"

definition retry ::
  "('k, 'a) retry_provider \<Rightarrow> 'a tls_slot \<Rightarrow> byte \<Rightarrow> bytes \<Rightarrow> bytes \<Rightarrow> bytes \<Rightarrow> bytes
     \<Rightarrow> bytes res \<times> 'a tls_slot" where
  "retry rp slot rnd dcid scid token odcid =
     (let enc = encode_vec 1 odcid [];
          start = length enc;
          enc = encode_byte (PACKET_BIT_LONG OR PACKET_BIT_FIXED_QUIC OR push_bit 4 PACKET_TYPE_RETRY
                               OR (rnd AND 0xf)) enc;
          enc = encode_uint 4 QUIC_VERSION enc;
          enc = encode_vec 1 dcid enc;
          enc = encode_vec 1 scid enc;
          enc = encode token enc;
          (tag, slot) = tls_try_with (make_retry_aead rp) slot (retry_tag rp enc)
      in (bind_res tag (\<lambda>tag. Inr (drop start (encode tag enc))), slot))"

section \<open>The Retry packet of the specification\<close>

definition retry_header :: "byte \<Rightarrow> bytes \<Rightarrow> bytes \<Rightarrow> bytes \<Rightarrow> bytes" where
  "retry_header rnd dcid scid token =
     [0xf0 OR (rnd AND 0x0f)] @ be_bytes 4 QUIC_VERSION
     @ [of_nat (length dcid)] @ dcid @ [of_nat (length scid)] @ scid @ token"

definition retry_pseudo :: "bytes \<Rightarrow> bytes \<Rightarrow> bytes" where
  "retry_pseudo odcid pkt = [of_nat (length odcid)] @ odcid @ pkt"

text \<open>The AEAD a call finds in the slot, initialising it if needed.\<close>

definition slot_aead :: "('k, 'a) retry_provider \<Rightarrow> 'a tls_slot \<Rightarrow> 'a res" where
  "slot_aead rp slot =
     (case slot of Uninit \<Rightarrow> make_retry_aead rp | Alive a \<Rightarrow> Inr a | Destroyed \<Rightarrow> Inl InternalError)"

definition slot_after :: "('k, 'a) retry_provider \<Rightarrow> 'a tls_slot \<Rightarrow> 'a tls_slot" where
  "slot_after rp slot =
     (case slot of Uninit \<Rightarrow> (case make_retry_aead rp of Inr a \<Rightarrow> Alive a | Inl _ \<Rightarrow> Uninit) | s \<Rightarrow> s)"

text \<open>
  A concrete protector for the witnesses: key import succeeds or fails as told, the AEAD
  is a key byte, and the tag is the output buffer filled with the key byte plus the length
  of the associated data.
\<close>

definition toy_retry :: "bool \<Rightarrow> (unit, byte) retry_provider" where
  "toy_retry ok =
     \<lparr>rp_initialized = True,
      rp_import_key = (\<lambda>s. if ok then Inr () else Inl CryptoError),
      rp_aead_new = (\<lambda>_ _. Inr 0x5a),
      rp_expansion = (\<lambda>_. 16),
      rp_encrypt = (\<lambda>a _ aad input buf. Inr (replicate (length buf) (a + of_nat (length aad))))\<rparr>"

section \<open>Layout lemmas\<close>

lemma retry_layout:
  "retry rp slot rnd dcid scid token odcid =
     (let hdr = retry_header rnd dcid scid token;
          (tag, slot') = tls_try_with (make_retry_aead rp) slot (retry_tag rp (retry_pseudo odcid hdr))
      in (bind_res tag (\<lambda>tag. Inr (hdr @ tag)), slot'))"
proof -
  have fb: "(PACKET_BIT_LONG OR PACKET_BIT_FIXED_QUIC OR push_bit 4 PACKET_TYPE_RETRY OR (rnd AND 0xf))
      = 0xf0 OR (rnd AND 0x0f)"
    by (simp add: packet_consts flip: or.assoc)
  have "encode token (encode_vec 1 scid (encode_vec 1 dcid (encode_uint 4 QUIC_VERSION
        (encode_byte (0xf0 OR (rnd AND 0x0f)) (encode_vec 1 odcid [])))))
      = retry_pseudo odcid (retry_header rnd dcid scid token)"
    by (simp add: retry_pseudo_def retry_header_def encode_def encode_byte_def encode_vec_def
        encode_uint_be_bytes ucast_of_nat_byte)
  moreover have "drop (length (encode_vec 1 odcid [])) (encode tag (retry_pseudo odcid h)) = h @ tag"
    for tag h by (simp add: encode_def retry_pseudo_def)
  ultimately show ?thesis
    unfolding retry_def Let_def fb by simp
qed

lemma tls_try_with_eq:
  "tls_try_with (make_retry_aead rp) slot f
     = (bind_res (slot_aead rp slot) f, slot_after rp slot)"
  by (cases slot; cases "make_retry_aead rp") (simp_all add: tls_try_with_def slot_aead_def slot_after_def)

lemma retry_eq:
  "retry rp slot rnd dcid scid token odcid =
     (bind_res (slot_aead rp slot) (\<lambda>a.
        bind_res (retry_tag rp (retry_pseudo odcid (retry_header rnd dcid scid token)) a) (\<lambda>tag.
          Inr (retry_header rnd dcid scid token @ tag))),
      slot_after rp slot)"
  by (simp add: retry_layout tls_try_with_eq bind_res_assoc Let_def)

lemma slot_aead_after: "slot_aead rp (slot_after rp slot) = slot_aead rp slot"
  by (cases slot; cases "make_retry_aead rp") (simp_all add: slot_aead_def slot_after_def)

lemma slot_after_idem [simp]: "slot_after rp (slot_after rp slot) = slot_after rp slot"
  by (cases slot; cases "make_retry_aead rp") (simp_all add: slot_after_def)

lemma make_retry_aead_errors:
  "make_retry_aead rp = Inl e \<Longrightarrow> e = Panic DebugAssertion \<or> e = Panic ExplicitPanic"
  by (auto simp: make_retry_aead_def bind_res_eq_Inl unwrap_def split: if_splits sum.splits)

section \<open>Claims\<close>

text \<open>
  C19. \<^verbatim>\<open>retry\<close> returns exactly the Retry packet of the specification: first byte
  \<open>0xf0\<close> with four random low bits, the version, both connection IDs
  length-prefixed, the raw token, then the integrity tag that the slot's AEAD computes
  with packet number 0, an empty plaintext, an output buffer of the AEAD's expansion and,
  as associated data, the packet preceded by the length-prefixed original destination
  CID, which is not sent.
\<close>

theorem retry_wire:
  "fst (retry rp slot rnd dcid scid token odcid)
   = bind_res (slot_aead rp slot) (\<lambda>a.
       bind_res (rp_encrypt rp a 0 (retry_pseudo odcid (retry_header rnd dcid scid token)) []
                   (replicate (rp_expansion rp a) 0)) (\<lambda>tag.
         Inr (retry_header rnd dcid scid token @ tag)))"
  by (simp add: retry_eq retry_tag_def)

text \<open>
  C20. \<^verbatim>\<open>retry\<close> fails only with \<open>InternalError\<close> on a destroyed slot, with the
  panic of \<^verbatim>\<open>make_retry_aead\<close> on an uninitialised slot, or with an error the AEAD's
  encryption returned.
\<close>

theorem retry_errors:
  assumes "fst (retry rp slot rnd dcid scid token odcid) = Inl e"
  shows "(slot = Destroyed \<and> e = InternalError) \<or> (slot = Uninit \<and> make_retry_aead rp = Inl e)
    \<or> (\<exists>a aad buf. rp_encrypt rp a 0 aad [] buf = Inl e)"
  using assms
  by (cases slot) (auto simp: retry_eq slot_aead_def retry_tag_def bind_res_eq_Inl)

text \<open>
  C21. When the fixed-key protector cannot be created (\<^verbatim>\<open>import_key\<close> or
  \<^verbatim>\<open>Aead::new\<close> fails), \<^verbatim>\<open>retry\<close> on an uninitialised slot does not return
  \<open>InternalError\<close>: it panics, in the \<^verbatim>\<open>unwrap\<close> of \<^verbatim>\<open>make_retry_aead\<close> (or its
  debug check that the crypto library is initialised), and the slot stays uninitialised.
\<close>

theorem retry_init_failure_panics:
  assumes "make_retry_aead rp = Inl e"
  shows "retry rp Uninit rnd dcid scid token odcid = (Inl e, Uninit)
    \<and> (e = Panic DebugAssertion \<or> e = Panic ExplicitPanic)"
  using assms make_retry_aead_errors [OF assms]
  by (simp add: retry_eq slot_aead_def slot_after_def)

section \<open>Witnesses\<close>

theorem retry_errors_witness:
  "fst (retry (toy_retry True) Destroyed 0 [1] [2] [] [3]) = Inl InternalError
   \<and> ((Destroyed :: byte tls_slot) = Destroyed \<and> InternalError = InternalError
      \<or> ((Destroyed :: byte tls_slot) = Uninit \<and> make_retry_aead (toy_retry True) = Inl InternalError)
      \<or> (\<exists>a aad buf. rp_encrypt (toy_retry True) a 0 aad [] buf = Inl InternalError))"
proof -
  have r: "fst (retry (toy_retry True) Destroyed 0 [1] [2] [] [3]) = Inl InternalError"
    by (simp add: retry_eq slot_aead_def)
  from retry_errors [OF r] r show ?thesis by blast
qed

theorem retry_init_failure_panics_witness:
  "make_retry_aead (toy_retry False) = Inl (Panic ExplicitPanic)
   \<and> retry (toy_retry False) Uninit 0 [1] [2] [] [3] = (Inl (Panic ExplicitPanic), Uninit)"
proof -
  have m: "make_retry_aead (toy_retry False) = Inl (Panic ExplicitPanic)"
    by (simp add: make_retry_aead_def toy_retry_def)
  from retry_init_failure_panics [OF m, of 0 "[1]" "[2]" "[]" "[3]"] m show ?thesis by simp
qed

end
