(* ===== verification/Version_Negotiation.thy ===== *)
theory Version_Negotiation
  imports Wire
begin

text \<open>
  \<^verbatim>\<open>PacketBuilder::version_negotiation\<close> (\<^verbatim>\<open>packet2.rs\<close> lines 253--269): a
  Version Negotiation packet from the two connection IDs and five random bytes
  \<^verbatim>\<open>random(5)\<close>, the parameter \<open>grease\<close>.  The loop that fixes the low nibble of the
  first four random bytes is \<open>grease_loop\<close>.  A decoder written from the specification's
  packet table, \<open>parse_vn\<close>, reads the packet back.
\<close>

unbundle bit_operations_syntax

section \<open>The constructor\<close>

text \<open>\<^verbatim>\<open>for g in &mut grease[0..4] { *g = *g & 0xf0 | 0x0a; }\<close>\<close>

primrec grease_loop :: "bytes \<Rightarrow> bytes" where
  "grease_loop [] = []"
| "grease_loop (g # gs) = (g AND 0xf0 OR 0x0a) # grease_loop gs"

definition version_negotiation :: "bytes \<Rightarrow> bytes \<Rightarrow> bytes \<Rightarrow> bytes res" where
  "version_negotiation dcid scid grease =
     bind_res (get grease 4) (\<lambda>g4.
       let enc = encode_byte (PACKET_BIT_LONG OR (g4 AND 0x7f)) [];
           enc = encode [0, 0, 0, 0] enc;
           enc = encode_vec 1 dcid enc;
           enc = encode_vec 1 scid enc;
           enc = encode_uint 4 QUIC_VERSION enc
       in if length grease < 4 then Inl (Panic IndexOutOfBounds)
          else
            let grease = grease_loop (take 4 grease) @ drop 4 grease
            in Inr (encode (take 4 grease) enc))"

section \<open>Reading a Version Negotiation packet\<close>

text \<open>
  The specification's layout: a first byte with bit 7 set, the zero version, the two
  length-prefixed connection IDs, then the supported versions, four bytes each.
\<close>

fun parse_versions :: "bytes \<Rightarrow> nat list option" where
  "parse_versions [] = Some []"
| "parse_versions (a # b # c # d # rest) =
     map_option (Cons (decode_be [a, b, c, d])) (parse_versions rest)"
| "parse_versions _ = None"

definition parse_cid :: "bytes \<Rightarrow> (bytes \<times> bytes) option" where
  "parse_cid bs =
     (case bs of [] \<Rightarrow> None
      | n # rest \<Rightarrow> if unat n \<le> length rest then Some (take (unat n) rest, drop (unat n) rest) else None)"

definition parse_vn :: "bytes \<Rightarrow> (bytes \<times> bytes \<times> nat list) option" where
  "parse_vn bs =
     (case bs of
        fb # v0 # v1 # v2 # v3 # rest \<Rightarrow>
          if fb AND 0x80 = 0x80 \<and> [v0, v1, v2, v3] = [0, 0, 0, 0] then
            (case parse_cid rest of None \<Rightarrow> None | Some (dcid, rest) \<Rightarrow>
             (case parse_cid rest of None \<Rightarrow> None | Some (scid, rest) \<Rightarrow>
              map_option (\<lambda>vs. (dcid, scid, vs)) (parse_versions rest)))
          else None
      | _ \<Rightarrow> None)"

section \<open>Layout\<close>

lemma length_grease_loop [simp]: "length (grease_loop gs) = length gs"
  by (induction gs) simp_all

lemma nth_grease_loop:
  "i < length gs \<Longrightarrow> grease_loop gs ! i = (gs ! i AND 0xf0 OR 0x0a)"
  by (induction gs arbitrary: i) (auto simp: nth_Cons split: nat.splits)

lemma vn_layout:
  assumes "4 < length grease"
  shows "version_negotiation dcid scid grease = Inr
    ([0x80 OR (grease ! 4 AND 0x7f)] @ [0, 0, 0, 0] @ [of_nat (length dcid)] @ dcid
     @ [of_nat (length scid)] @ scid @ be_bytes 4 QUIC_VERSION @ grease_loop (take 4 grease))"
  using assms
  by (simp add: version_negotiation_def encode_byte_def encode_def encode_vec_def encode_uint_be_bytes
      ucast_of_nat_byte packet_consts Let_def)

lemma grease_nibbles:
  assumes "i < 4" and "4 \<le> length grease"
  shows "grease_loop (take 4 grease) ! i AND 0x0f = 0x0a"
    and "grease_loop (take 4 grease) ! i AND 0xf0 = grease ! i AND 0xf0"
proof -
  have e: "grease_loop (take 4 grease) ! i = (grease ! i AND 0xf0 OR 0x0a)"
    using assms by (simp add: nth_grease_loop)
  show "grease_loop (take 4 grease) ! i AND 0x0f = 0x0a"
    unfolding e by (simp add: bit.conj_disj_distrib2 and.assoc)
  show "grease_loop (take 4 grease) ! i AND 0xf0 = grease ! i AND 0xf0"
    unfolding e by (simp add: bit.conj_disj_distrib2 and.assoc)
qed

lemma parse_cid_prefix:
  "length c < 256 \<Longrightarrow> parse_cid (of_nat (length c) # c @ rest) = Some (c, rest)"
  by (simp add: parse_cid_def unat_of_nat_small)

lemma parse_versions_4:
  "length xs = 4 \<Longrightarrow> parse_versions (xs @ rest) = map_option (Cons (decode_be xs)) (parse_versions rest)"
  by (cases xs rule: parse_versions.cases) (auto simp: numeral_eq_Suc)

lemma long_bit_set: "(0x80 OR (x AND 0x7f) :: byte) AND 0x80 = 0x80"
  by (simp add: bit.conj_disj_distrib2 and.assoc)

lemma decode_be_version: "decode_be (be_bytes 4 QUIC_VERSION) = unat QUIC_VERSION"
  by (simp add: decode_be_bytes QUIC_VERSION_def)

section \<open>Claims\<close>

text \<open>
  C22. From five random bytes \<^verbatim>\<open>version_negotiation\<close> always builds a packet of
  \<open>1 + 4 + (1 + |dcid|) + (1 + |scid|) + 4 + 4\<close> bytes whose first byte has the long-header
  bit set, whose version field is zero, whose first listed version is the supported
  \<^verbatim>\<open>QUIC_VERSION\<close>, and whose last four bytes (the greased version) each have the
  reserved low nibble \<open>0xa\<close> and the random byte's high nibble.
\<close>

theorem vn_shape:
  assumes "length grease = 5"
  shows "\<exists>out. version_negotiation dcid scid grease = Inr out
    \<and> length out = 1 + 4 + (1 + length dcid) + (1 + length scid) + 4 + 4
    \<and> out ! 0 AND 0x80 = 0x80 \<and> slice out 1 5 = [0, 0, 0, 0]
    \<and> slice out (length out - 8) (length out - 4) = be_bytes 4 QUIC_VERSION
    \<and> (\<forall>i < 4. out ! (length out - 4 + i) AND 0x0f = 0x0a
                 \<and> out ! (length out - 4 + i) AND 0xf0 = grease ! i AND 0xf0)"
proof -
  let ?g = "grease_loop (take 4 grease)"
  let ?pre = "[0x80 OR (grease ! 4 AND 0x7f)] @ [0, 0, 0, 0] @ [of_nat (length dcid)] @ dcid
     @ [of_nat (length scid)] @ scid @ be_bytes 4 QUIC_VERSION"
  have v: "version_negotiation dcid scid grease = Inr (?pre @ ?g)"
    using vn_layout [of grease dcid scid] assms by simp
  have lg: "length ?g = 4" and lp: "length ?pre = 1 + 4 + (1 + length dcid) + (1 + length scid) + 4"
    using assms by simp_all
  have n: "(?pre @ ?g) ! (length (?pre @ ?g) - 4 + i) = ?g ! i" if "i < 4" for i
    using that lg by (simp add: nth_append)
  have q: "slice (?pre @ ?g) (length (?pre @ ?g) - 8) (length (?pre @ ?g) - 4) = be_bytes 4 QUIC_VERSION"
  proof -
    let ?a = "[0x80 OR (grease ! 4 AND 0x7f)] @ [0, 0, 0, 0] @ [of_nat (length dcid)] @ dcid
       @ [of_nat (length scid)] @ scid"
    have e: "?pre @ ?g = ?a @ be_bytes 4 QUIC_VERSION @ ?g" by simp
    have "length (?pre @ ?g) - 8 = length ?a" "length (?pre @ ?g) - 4 = length ?a + 4"
      using lg by simp_all
    then show ?thesis unfolding e by (simp only:) (rule slice_middle, simp)
  qed
  have z: "slice (?pre @ ?g) 1 5 = [0, 0, 0, 0]"
    by (simp add: slice_def)
  have "\<forall>i < 4. (?pre @ ?g) ! (length (?pre @ ?g) - 4 + i) AND 0x0f = 0x0a
                 \<and> (?pre @ ?g) ! (length (?pre @ ?g) - 4 + i) AND 0xf0 = grease ! i AND 0xf0"
  proof (intro allI impI)
    fix i :: nat assume i: "i < 4"
    have "4 \<le> length grease" using assms by simp
    then show "(?pre @ ?g) ! (length (?pre @ ?g) - 4 + i) AND 0x0f = 0x0a
      \<and> (?pre @ ?g) ! (length (?pre @ ?g) - 4 + i) AND 0xf0 = grease ! i AND 0xf0"
      unfolding n [OF i] using grease_nibbles [OF i] by simp
  qed
  with v lg lp q z show ?thesis by (auto simp: long_bit_set)
qed

text \<open>
  C23. Decoding a Version Negotiation packet with the specification's layout gives back
  the two connection IDs (of at most 255 bytes) and the list of exactly two versions:
  \<^verbatim>\<open>QUIC_VERSION\<close> and the greased version.
\<close>

theorem vn_roundtrip:
  assumes "length grease = 5" and "length dcid < 256" and "length scid < 256"
  shows "map_sum id parse_vn (version_negotiation dcid scid grease)
    = Inr (Some (dcid, scid, [unat QUIC_VERSION, decode_be (grease_loop (take 4 grease))]))"
proof -
  let ?g = "grease_loop (take 4 grease)"
  have pv: "parse_versions (be_bytes 4 QUIC_VERSION @ ?g)
      = Some [unat QUIC_VERSION, decode_be ?g]"
    using parse_versions_4 [of ?g "[]"] parse_versions_4 [of "be_bytes 4 QUIC_VERSION" ?g] assms(1)
    by (simp add: decode_be_version)
  show ?thesis
    using assms(1) vn_layout [of grease dcid scid]
    by (simp add: parse_vn_def long_bit_set parse_cid_prefix assms(2,3) pv)
qed

section \<open>Witnesses\<close>

theorem vn_shape_witness:
  "length ([0x12, 0x34, 0x56, 0x78, 0x9a] :: bytes) = 5
   \<and> (\<exists>out. version_negotiation [1, 2] [3] [0x12, 0x34, 0x56, 0x78, 0x9a] = Inr out
        \<and> length out = 18 \<and> out ! 0 AND 0x80 = 0x80 \<and> out ! 14 AND 0x0f = 0x0a)"
proof -
  have g: "length ([0x12, 0x34, 0x56, 0x78, 0x9a] :: bytes) = 5" by simp
  from vn_shape [OF g, of "[1, 2]" "[3]"] g show ?thesis by fastforce
qed

theorem vn_roundtrip_witness:
  "map_sum id parse_vn (version_negotiation [1, 2] [3] [0x12, 0x34, 0x56, 0x78, 0x9a])
   = Inr (Some ([1, 2], [3], [0xff000018, 0x1a3a5a7a]))"
proof -
  have "map_sum id parse_vn (version_negotiation [1, 2] [3] [0x12, 0x34, 0x56, 0x78, 0x9a])
      = Inr (Some ([1, 2], [3], [unat QUIC_VERSION, decode_be (grease_loop (take 4 [0x12, 0x34, 0x56, 0x78, 0x9a]))]))"
    by (rule vn_roundtrip) simp_all
  then show ?thesis by (simp add: QUIC_VERSION_def decode_be_def)
qed

end
