(* ===== verification/Packet_Tests.thy ===== *)
theory Packet_Tests
  imports Builder_Header Retry Version_Negotiation "HOL-Library.While_Combinator"
begin

text \<open>
  The unit tests of \<^verbatim>\<open>packet2.rs\<close> (lines 292--469) as definitions: each test is a
  function that returns \<open>Inr ()\<close> when it passes and a panic when an \<^verbatim>\<open>assert!\<close>,
  \<^verbatim>\<open>expect\<close> or \<^verbatim>\<open>unwrap\<close> fires.  What the tests take from outside (the packet
  protector \<^verbatim>\<open>default_protector()\<close>, the Retry AEAD, \<^verbatim>\<open>random\<close>) is a parameter, so
  each theorem below says that the test passes for every protector meeting the stated
  contract and every random input, not only for the one run.  \<^verbatim>\<open>sample_server_initial\<close>
  compares against bytes produced by AES-GCM and AES header protection, which are not
  modelled: the theorem about it says what the protector must produce for the test to
  pass.
\<close>

unbundle bit_operations_syntax

section \<open>build_short, build_two, build_abort\<close>

definition test_build_short :: "'c crypto_ops \<Rightarrow> 'c \<Rightarrow> unit res" where
  "test_build_short ops prot =
     bind_res (pn (short [] True SERVER_CID) 0 1) (\<lambda>builder.
       let builder = builder_encode (replicate 3 0) builder
       in bind_res (unwrap (build ops prot builder)) (\<lambda>(packet, prot).
            if length packet \<noteq> 29 then Inl (Panic AssertionFailed) else Inr ()))"

definition test_build_two :: "'c crypto_ops \<Rightarrow> 'c \<Rightarrow> unit res" where
  "test_build_two ops prot =
     bind_res (long [] Handshake SERVER_CID CLIENT_CID) (\<lambda>builder.
     bind_res (pn builder 0 1) (\<lambda>builder.
       let builder = builder_encode (replicate 3 0) builder
       in bind_res (unwrap (build ops prot builder)) (\<lambda>(encoder, prot).
          if length encoder \<noteq> 45 then Inl (Panic AssertionFailed)
          else
            let first = encoder
            in bind_res (pn (short encoder False SERVER_CID) 1 3) (\<lambda>builder.
                 let builder = builder_encode [0] builder
                 in bind_res (unwrap (build ops prot builder)) (\<lambda>(encoder, prot).
                    if length encoder < length first then Inl (Panic IndexOutOfBounds)
                    else if first \<noteq> take (length first) encoder then Inl (Panic AssertionFailed)
                    else if length encoder \<noteq> 45 + 29 then Inl (Panic AssertionFailed)
                    else Inr ())))))"

definition test_build_abort :: "unit res" where
  "test_build_abort =
     bind_res (long [] Initial [] SERVER_CID) (\<lambda>builder.
     bind_res (initial_token builder []) (\<lambda>builder.
     bind_res (pn builder 1 2) (\<lambda>builder.
       let encoder = abort builder
       in if encoder \<noteq> [] then Inl (Panic AssertionFailed) else Inr ())))"

section \<open>sample_server_initial\<close>

text \<open>
  The test builds the server Initial packet of the RFC's sample (draft-24 vectors)
  with the protector \<open>prot\<close> of \<^verbatim>\<open>default_protector()\<close>, after burning one
  encryption so that packet number 1 is not refused.
\<close>

definition SAMPLE_PAYLOAD :: bytes where
  "SAMPLE_PAYLOAD =
     [0x0d, 0x00, 0x00, 0x00, 0x00, 0x18, 0x41, 0x0a, 0x02, 0x00, 0x00, 0x56, 0x03, 0x03,
        0xee, 0xfc, 0xe7, 0xf7, 0xb3, 0x7b, 0xa1, 0xd1, 0x63, 0x2e, 0x96, 0x67, 0x78, 0x25,
        0xdd, 0xf7, 0x39, 0x88, 0xcf, 0xc7, 0x98, 0x25, 0xdf, 0x56, 0x6d, 0xc5, 0x43, 0x0b,
        0x9a, 0x04, 0x5a, 0x12, 0x00, 0x13, 0x01, 0x00, 0x00, 0x2e, 0x00, 0x33, 0x00, 0x24,
        0x00, 0x1d, 0x00, 0x20, 0x9d, 0x3c, 0x94, 0x0d, 0x89, 0x69, 0x0b, 0x84, 0xd0, 0x8a,
        0x60, 0x99, 0x3c, 0x14, 0x4e, 0xca, 0x68, 0x4d, 0x10, 0x81, 0x28, 0x7c, 0x83, 0x4d,
        0x53, 0x11, 0xbc, 0xf3, 0x2b, 0xb9, 0xda, 0x1a, 0x00, 0x2b, 0x00, 0x02, 0x03, 0x04]"

definition SAMPLE_EXPECTED :: bytes where
  "SAMPLE_EXPECTED =
     [0xc9, 0xff, 0x00, 0x00, 0x18, 0x00, 0x08, 0xf0, 0x67, 0xa5, 0x50, 0x2a, 0x42, 0x62,
        0xb5, 0x00, 0x40, 0x74, 0x16, 0x8b, 0xf2, 0x2b, 0x70, 0x02, 0x59, 0x6f, 0x99, 0xae,
        0x67, 0xab, 0xf6, 0x5a, 0x58, 0x52, 0xf5, 0x4f, 0x58, 0xc3, 0x7c, 0x80, 0x86, 0x82,
        0xe2, 0xe4, 0x04, 0x92, 0xd8, 0xa3, 0x89, 0x9f, 0xb0, 0x4f, 0xc0, 0xaf, 0xe9, 0xaa,
        0xbc, 0x87, 0x67, 0xb1, 0x8a, 0x0a, 0xa4, 0x93, 0x53, 0x74, 0x26, 0x37, 0x3b, 0x48,
        0xd5, 0x02, 0x21, 0x4d, 0xd8, 0x56, 0xd6, 0x3b, 0x78, 0xce, 0xe3, 0x7b, 0xc6, 0x64,
        0xb3, 0xfe, 0x86, 0xd4, 0x87, 0xac, 0x7a, 0x77, 0xc5, 0x30, 0x38, 0xa3, 0xcd, 0x32,
        0xf0, 0xb5, 0x00, 0x4d, 0x9f, 0x57, 0x54, 0xc4, 0xf7, 0xf2, 0xd1, 0xf3, 0x5c, 0xf3,
        0xf7, 0x11, 0x63, 0x51, 0xc9, 0x2b, 0x58, 0x4d, 0x2d, 0xdd, 0x6c, 0x26, 0xc7, 0x8a,
        0x84, 0x07, 0xf0, 0x9e, 0xfd, 0xa4, 0xa3, 0x08]"

definition test_sample_server_initial :: "'c crypto_ops \<Rightarrow> 'c \<Rightarrow> unit res" where
  "test_sample_server_initial ops prot =
     bind_res (unwrap (cx_encrypt ops prot 0 [] [])) (\<lambda>(burn, prot).
       if length burn \<noteq> cx_expansion ops prot then Inl (Panic AssertionFailed)
       else bind_res (long [] Initial [] SERVER_CID) (\<lambda>builder.
            bind_res (initial_token builder []) (\<lambda>builder.
            bind_res (pn builder 1 2) (\<lambda>builder.
              let builder = builder_encode SAMPLE_PAYLOAD builder
              in bind_res (unwrap (build ops prot builder)) (\<lambda>(packet, prot).
                   if packet \<noteq> SAMPLE_EXPECTED then Inl (Panic AssertionFailed) else Inr ())))))"

text \<open>The plain header the test's packet should carry, for an AEAD expansion \<open>x\<close>.\<close>

abbreviation sample_header :: "nat \<Rightarrow> bytes" where
  "sample_header x \<equiv> long_header PACKET_TYPE_INITIAL [] SERVER_CID [0] (2 + 98 + x) 2 1"

text \<open>The builder of the test just before the payload is written.\<close>

definition sample_builder :: "packet_builder res" where
  "sample_builder =
     bind_res (long [] Initial [] SERVER_CID) (\<lambda>builder.
     bind_res (initial_token builder []) (\<lambda>builder. pn builder 1 2))"

section \<open>build_retry, build_retry_multiple\<close>

definition RETRY_EXPECTED :: bytes where
  "RETRY_EXPECTED =
     [0xff, 0xff, 0x00, 0x00, 0x18, 0x00, 0x08, 0xf0, 0x67, 0xa5, 0x50, 0x2a, 0x42, 0x62,
      0xb5, 0x74, 0x6f, 0x6b, 0x65, 0x6e, 0x43, 0xe0, 0x42, 0xc5, 0xcc, 0x3c, 0x5d, 0xa7,
      0x31, 0xee, 0xc9, 0xa9, 0xbc, 0x3c, 0xab, 0x32]"

text \<open>\<^verbatim>\<open>b"token"\<close>\<close>

definition TOKEN :: bytes where
  "TOKEN = [0x74, 0x6f, 0x6b, 0x65, 0x6e]"

text \<open>
  One run of \<^verbatim>\<open>build_retry\<close> on the thread whose Retry AEAD slot is \<open>slot\<close>, with
  \<open>rnd\<close> the byte \<^verbatim>\<open>random(1)[0]\<close> that \<^verbatim>\<open>retry\<close> draws; the slot is returned for
  the next run on the same thread.
\<close>

definition test_build_retry ::
  "('k, 'a) retry_provider \<Rightarrow> 'a tls_slot \<Rightarrow> byte \<Rightarrow> unit res \<times> 'a tls_slot" where
  "test_build_retry rp slot rnd =
     (let (r, slot) = retry rp slot rnd [] SERVER_CID TOKEN CLIENT_CID
      in (bind_res (unwrap r) (\<lambda>retry.
          bind_res (get retry 0) (\<lambda>r0.
          if r0 = RETRY_EXPECTED ! 0 then
            (if retry \<noteq> RETRY_EXPECTED then Inl (Panic AssertionFailed) else Inr ())
          else if r0 AND 0xf0 \<noteq> 0xf0 then Inl (Panic AssertionFailed)
          else if length retry < 16 then Inl (Panic ArithmeticOverflow)
          else if \<not> (1 \<le> length retry - 16 \<and> length retry - 16 \<le> length RETRY_EXPECTED)
            then Inl (Panic IndexOutOfBounds)
          else if slice retry 1 (length retry - 16) \<noteq> slice RETRY_EXPECTED 1 (length retry - 16)
            then Inl (Panic AssertionFailed)
          else Inr ())), slot))"

text \<open>
  \<^verbatim>\<open>for _ in 0..32 { build_retry(); }\<close> as a loop over the counter and the
  outcome of the last run: \<open>rnd i\<close> is the byte that run \<open>i\<close> draws, and a run that
  panics ends the loop (the panic unwinds out of the test).  The loop is a
  \<open>while_option\<close>, whose \<open>None\<close> would be a loop that never stops.
\<close>

definition retry_loop_step ::
  "('k, 'a) retry_provider \<Rightarrow> (nat \<Rightarrow> byte) \<Rightarrow>
   nat \<times> unit res \<times> 'a tls_slot \<Rightarrow> nat \<times> unit res \<times> 'a tls_slot" where
  "retry_loop_step rp rnd = (\<lambda>(i, _, slot).
     let (r, slot) = test_build_retry rp slot (rnd i) in (Suc i, r, slot))"

definition retry_loop ::
  "('k, 'a) retry_provider \<Rightarrow> (nat \<Rightarrow> byte) \<Rightarrow> 'a tls_slot \<Rightarrow>
   (nat \<times> unit res \<times> 'a tls_slot) option" where
  "retry_loop rp rnd slot =
     while_option (\<lambda>(i, r, _). i < 32 \<and> r = Inr ()) (retry_loop_step rp rnd) (0, Inr (), slot)"

definition test_build_retry_multiple ::
  "('k, 'a) retry_provider \<Rightarrow> (nat \<Rightarrow> byte) \<Rightarrow> 'a tls_slot \<Rightarrow> (unit res \<times> 'a tls_slot) option" where
  "test_build_retry_multiple rp rnd slot = map_option snd (retry_loop rp rnd slot)"

section \<open>build_vn\<close>

definition VN_EXPECTED :: bytes where
  "VN_EXPECTED =
     [0x80, 0x00, 0x00, 0x00, 0x00, 0x08, 0xf0, 0x67, 0xa5, 0x50, 0x2a, 0x42, 0x62, 0xb5,
      0x08, 0x83, 0x94, 0xc8, 0xf0, 0x3e, 0x51, 0x57, 0x08, 0xff, 0x00, 0x00, 0x18, 0x0a,
      0x0a, 0x0a, 0x0a]"

definition test_build_vn :: "bytes \<Rightarrow> unit res" where
  "test_build_vn grease =
     bind_res (version_negotiation SERVER_CID CLIENT_CID grease) (\<lambda>vn.
       if length vn \<noteq> length VN_EXPECTED then Inl (Panic AssertionFailed)
       else bind_res (get vn 0) (\<lambda>v0.
         let vn = vn[0 := v0 AND 0x80];
             vn = take (length VN_EXPECTED - 4) vn @ map (\<lambda>v. v AND 0x0f) (drop (length VN_EXPECTED - 4) vn)
         in if vn \<noteq> VN_EXPECTED then Inl (Panic AssertionFailed) else Inr ()))"

section \<open>Lemmas\<close>

lemma seal_total:
  assumes ops: "aead_contract ops" and tot: "provider_total ops"
    and n: "4 - l + SAMPLE_SIZE \<le> length body + cx_expansion ops c"
  shows "\<exists>x c'. seal ops c v fbm k l hdr body = Inr (x, c')
    \<and> length x = length hdr + length body + cx_expansion ops c"
proof -
  obtain r where e: "cx_encrypt ops c v hdr body = Inr r" using tot unfolding provider_total_def by blast
  obtain ct c' where r: "r = (ct, c')" by (cases r)
  obtain m where m: "cx_compute_mask ops c' (slice ct (4 - l) (4 - l + SAMPLE_SIZE)) = Inr m"
    using tot unfolding provider_total_def by blast
  have l: "length ct = length body + cx_expansion ops c"
    using aead_contract_encrypt [OF ops e [unfolded r]] .
  show ?thesis using e r m l n by (simp add: seal_def)
qed

lemma be_bytes_version: "be_bytes 4 QUIC_VERSION = [0xff, 0x00, 0x00, 0x18]"
  by code_simp

lemma replicate_four: "replicate 4 x = [x, x, x, x]"
  by (simp add: numeral_eq_Suc)

lemma grease_low_nibbles: "map (\<lambda>v. v AND 0x0f) (grease_loop gs) = replicate (length gs) 0x0a"
  by (induction gs) (simp_all add: bit.conj_disj_distrib2 and.assoc)

lemma short_test_build:
  assumes ops: "aead_contract ops" and tot: "provider_total ops"
    and "0 < l" and "l \<le> 4" and n: "4 - l + SAMPLE_SIZE \<le> length payload + cx_expansion ops c"
  shows "\<exists>x c'. build ops c (builder_encode payload (numbered P (short_header key_phase dcid l v) [] 0x1f 0 l v))
      = Inr (P @ x, c') \<and> length x = length (short_header key_phase dcid l v) + length payload + cx_expansion ops c"
proof -
  have p: "pn (short P key_phase dcid) v l = Inr (numbered P (short_header key_phase dcid l v) [] 0x1f 0 l v)"
    using assms(3,4) by (rule pn_short)
  obtain x c' where s: "seal ops c v 0x1f (Suc (length dcid)) l (short_header key_phase dcid l v) payload = Inr (x, c')"
    and lx: "length x = length (short_header key_phase dcid l v) + length payload + cx_expansion ops c"
    using seal_total [OF ops tot n] by blast
  have "build ops c (builder_encode payload (numbered P (short_header key_phase dcid l v) [] 0x1f 0 l v))
      = Inr (P @ x, c')"
    using short_pipeline [OF ops assms(3,4), of P key_phase dcid v c payload] p s by simp
  with lx show ?thesis by blast
qed

lemma retry_first_byte:
  assumes "rnd AND 0x0f \<noteq> 0x0f"
  shows "(0xf0 OR (rnd AND 0x0f) :: byte) \<noteq> 0xff" and "(0xf0 OR (rnd AND 0x0f) :: byte) AND 0xf0 = 0xf0"
proof -
  have lo: "(0xf0 OR (rnd AND 0x0f) :: byte) AND 0x0f = rnd AND 0x0f"
    by (simp add: bit.conj_disj_distrib2 and.assoc)
  show "(0xf0 OR (rnd AND 0x0f) :: byte) \<noteq> 0xff"
  proof
    assume "(0xf0 OR (rnd AND 0x0f) :: byte) = 0xff"
    then have "rnd AND 0x0f = (0xff :: byte) AND 0x0f" using lo by simp
    with assms show False by simp
  qed
  show "(0xf0 OR (rnd AND 0x0f) :: byte) AND 0xf0 = 0xf0"
    by (simp add: bit.conj_disj_distrib2 and.assoc)
qed

lemma test_build_retry_passes:
  assumes r: "rnd AND 0x0f \<noteq> 0x0f" and a: "slot_aead rp slot = Inr a" and x: "rp_expansion rp a = 16"
    and t: "\<forall>aad. \<exists>t. length t = 16 \<and> rp_encrypt rp a 0 aad [] (replicate 16 0) = Inr t"
  shows "test_build_retry rp slot rnd = (Inr (), slot_after rp slot)"
proof -
  let ?H = "retry_header rnd [] SERVER_CID TOKEN"
  obtain tag where tg: "length tag = 16"
    "rp_encrypt rp a 0 (retry_pseudo CLIENT_CID ?H) [] (replicate 16 0) = Inr tag"
    using t by blast
  have "retry rp slot rnd [] SERVER_CID TOKEN CLIENT_CID = (Inr (?H @ tag), slot_after rp slot)"
    using a x tg by (simp add: retry_eq retry_tag_def)
  moreover have "(?H @ tag) ! 0 = 0xf0 OR (rnd AND 0x0f)" by (simp add: retry_header_def)
  moreover have "length (?H @ tag) = 36" using tg by (simp add: retry_header_def SERVER_CID_def TOKEN_def)
  moreover have "slice (?H @ tag) 1 20 = slice RETRY_EXPECTED 1 20"
    by (simp add: retry_header_def slice_def be_bytes_version SERVER_CID_def TOKEN_def RETRY_EXPECTED_def)
  ultimately show ?thesis
    using retry_first_byte [OF r] by (simp add: test_build_retry_def RETRY_EXPECTED_def)
qed

lemma retry_loop_halts:
  "\<exists>i r s. retry_loop rp rnd slot = Some (i, r, s) \<and> i \<le> 32 \<and> (r = Inr () \<longrightarrow> i = 32)"
proof -
  let ?b = "\<lambda>(i, r, _). i < (32 :: nat) \<and> r = (Inr () :: unit res)"
  let ?P = "\<lambda>(i, _, _). i \<le> (32 :: nat)"
  have step: "?P (retry_loop_step rp rnd s) \<and> (\<lambda>(i, _, _). 32 - i) (retry_loop_step rp rnd s) < (\<lambda>(i, _, _). 32 - i) s"
    if "?P s" and "?b s" for s :: "nat \<times> unit res \<times> 'a tls_slot"
    using that by (auto simp: retry_loop_step_def split: prod.splits)
  obtain t where t: "while_option ?b (retry_loop_step rp rnd) (0, Inr (), slot) = Some t"
    using measure_while_option_Some [of ?P ?b "retry_loop_step rp rnd", OF step] by fastforce
  have "?P t"
    using while_option_rule [where P = ?P, OF _ t] step by auto
  moreover have "\<not> ?b t" using while_option_stop [OF t] .
  ultimately show ?thesis
    using t unfolding retry_loop_def by (cases t) auto
qed

lemma retry_loop_pass:
  assumes r: "\<forall>i < 32. rnd i AND 0x0f \<noteq> 0x0f" and a: "slot_aead rp slot = Inr a" and x: "rp_expansion rp a = 16"
    and t: "\<forall>aad. \<exists>t. length t = 16 \<and> rp_encrypt rp a 0 aad [] (replicate 16 0) = Inr t"
  shows "retry_loop rp rnd slot = Some (32, Inr (), slot_after rp slot)"
proof -
  let ?b = "\<lambda>(i, r, _). i < (32 :: nat) \<and> r = (Inr () :: unit res)"
  let ?Q = "\<lambda>(i, r, s). i \<le> 32 \<and> r = Inr () \<and> s = (if i = 0 then slot else slot_after rp slot)"
  obtain i r s where l: "retry_loop rp rnd slot = Some (i, r, s)"
    using retry_loop_halts by blast
  have w: "while_option ?b (retry_loop_step rp rnd) (0, Inr (), slot) = Some (i, r, s)"
    using l by (simp add: retry_loop_def)
  have inv: "?Q (retry_loop_step rp rnd st)" if q: "?Q st" and bq: "?b st" for st
  proof -
    obtain j s' where st: "st = (j, Inr (), s')" "j < 32" "s' = (if j = 0 then slot else slot_after rp slot)"
      using q bq by (cases st) auto
    have "slot_aead rp s' = Inr a" using a st(3) by (simp add: slot_aead_after)
    then have "test_build_retry rp s' (rnd j) = (Inr (), slot_after rp s')"
      using r st(2) x t by (intro test_build_retry_passes) simp_all
    then show ?thesis using st by (simp add: retry_loop_step_def slot_after_idem)
  qed
  have "?Q (i, r, s)" by (rule while_option_rule [where P = ?Q, OF _ w]) (use inv in auto)
  moreover have "\<not> ?b (i, r, s)" using while_option_stop [OF w] .
  ultimately show ?thesis using l by auto
qed

lemma sample_builder_bind:
  "bind_res sample_builder f =
     bind_res (long [] Initial [] SERVER_CID) (\<lambda>builder.
     bind_res (initial_token builder []) (\<lambda>builder. bind_res (pn builder 1 2) f))"
  by (simp add: sample_builder_def bind_res_assoc)

lemma sample_build:
  assumes "aead_contract ops"
  shows "\<exists>b. sample_builder = Inr b \<and>
    (\<forall>c. build ops c (builder_encode SAMPLE_PAYLOAD b)
       = seal ops c 1 0x0f 18 2 (sample_header (cx_expansion ops c)) SAMPLE_PAYLOAD)"
proof -
  let ?h = "long_prefix PACKET_TYPE_INITIAL [] SERVER_CID @ [0]"
  have t: "encode_vvec ([] :: bytes) [] = Inr [0]" by (simp add: encode_vvec_def encode_def)
  have l: "long [] Initial [] SERVER_CID = Inr (open_builder [] (long_prefix PACKET_TYPE_INITIAL [] SERVER_CID) 0x0f)"
    by (rule long_open) simp
  have "?h \<noteq> []" by simp
  then obtain b where p: "pn (open_builder [] ?h 0x0f) 1 2 = Inr b"
    using pn_open [where h = ?h and l = 2 and P = "[]" and fbm = "0x0f" and v = 1] by simp
  have sb: "sample_builder = Inr b"
    by (simp add: sample_builder_def l initial_token_open t p)
  have "build ops c (builder_encode SAMPLE_PAYLOAD b)
       = seal ops c 1 0x0f 18 2 (sample_header (cx_expansion ops c)) SAMPLE_PAYLOAD" for c
  proof -
    have "length SAMPLE_PAYLOAD = 98" by (simp add: SAMPLE_PAYLOAD_def)
    moreover have "map_sum id (\<lambda>(x, c'). ([] @ x, c')) s = s" for s :: "(bytes \<times> 'c) res"
      by (cases s) auto
    moreover have "length SERVER_CID = 8" by (simp add: SERVER_CID_def)
    ultimately have "bind_res sample_builder (\<lambda>b. build ops c (builder_encode SAMPLE_PAYLOAD b))
       = seal ops c 1 0x0f 18 2 (sample_header (cx_expansion ops c)) SAMPLE_PAYLOAD"
      using initial_pipeline [OF assms, of 2 "[]" "[]" SERVER_CID "[]" 1 c SAMPLE_PAYLOAD]
      by (simp add: t flip: sample_builder_bind)
    then show ?thesis unfolding sb bind_res_Inr .
  qed
  with sb show ?thesis by blast
qed

section \<open>Claims\<close>

text \<open>
  C26. \<^verbatim>\<open>build_short\<close> passes with every packet protector that meets the AEAD
  contract, never fails and adds a 16-byte tag: the short packet with a one-byte packet
  number and three payload bytes is 29 bytes.
\<close>

theorem test_build_short_passes:
  assumes "aead_contract ops" and "provider_total ops" and "cx_expansion ops prot = 16"
  shows "test_build_short ops prot = Inr ()"
proof -
  obtain x c' where b: "build ops prot (builder_encode (replicate 3 0) (numbered [] (short_header True SERVER_CID 1 0) [] 0x1f 0 1 0))
      = Inr ([] @ x, c')" and l: "length x = length (short_header True SERVER_CID 1 0) + length (replicate 3 (0::byte)) + cx_expansion ops prot"
    using short_test_build [OF assms(1,2), of 1 "replicate 3 0" prot "[]" True SERVER_CID 0] assms(3)
    by (auto simp: SAMPLE_SIZE_def)
  have p: "pn (short [] True SERVER_CID) 0 1 = Inr (numbered [] (short_header True SERVER_CID 1 0) [] 0x1f 0 1 0)"
    by (rule pn_short) simp_all
  have h: "length (short_header True SERVER_CID 1 0) = 10" by (simp add: short_header_def SERVER_CID_def)
  show ?thesis unfolding test_build_short_def p using b l h assms(3) by simp
qed

text \<open>
  C27. \<^verbatim>\<open>build_two\<close> passes with every such protector: a Handshake packet of 45
  bytes, then a short packet coalesced after it in the same buffer, which leaves the
  first packet as a prefix and adds exactly 29 bytes (the short packet's three-byte
  packet number and one payload byte are exactly the sampling minimum).
\<close>

theorem test_build_two_passes:
  assumes ops: "aead_contract ops" and tot: "provider_total ops" and e: "\<forall>c. cx_expansion ops c = 16"
  shows "test_build_two ops prot = Inr ()"
proof -
  let ?h = "long_prefix PACKET_TYPE_HANDSHAKE SERVER_CID CLIENT_CID"
  let ?h1 = "?h[0 := ?h ! 0 OR of_nat (1 - 1)]"
  let ?b1 = "numbered [] (?h1 @ [0, 0] @ be_bytes 1 0) [] 0x0f (length ([] :: bytes) + length ?h1) 1 0"
  let ?H1 = "?h1 @ length_field (1 + length (replicate 3 (0 :: byte)) + cx_expansion ops prot) @ be_bytes 1 0"
  have ci: "code Handshake = Inr PACKET_TYPE_HANDSHAKE" by simp
  have l: "long [] Handshake SERVER_CID CLIENT_CID = Inr (open_builder [] ?h 0x0f)"
    by (rule long_open [OF ci])
  have hb: "?h \<noteq> []" "?h ! 0 AND 0x80 = PACKET_BIT_LONG"
    using code_first_byte_long [OF ci] by (simp_all add: long_prefix_def)
  have p1: "pn (open_builder [] ?h 0x0f) 0 1 = Inr ?b1"
    using pn_open [where h = ?h and l = 1 and P = "[]" and fbm = "0x0f" and v = 0] hb by simp
  have pipe: "bind_res (pn (open_builder [] ?h 0x0f) 0 1) (\<lambda>b. build ops prot (builder_encode (replicate 3 0) b))
      = map_sum id (\<lambda>(x, c'). ([] @ x, c')) (seal ops prot 0 0x0f (length ?h + 2) 1 ?H1 (replicate 3 0))"
    using long_open_pipeline [OF ops _ _ hb, of 1 "[]" 0 prot "replicate 3 0"] by simp
  obtain x1 c1 where s1: "seal ops prot 0 0x0f (length ?h + 2) 1 ?H1 (replicate 3 0) = Inr (x1, c1)"
    and lx1: "length x1 = length ?H1 + length (replicate 3 (0 :: byte)) + cx_expansion ops prot"
  proof -
    have n: "4 - 1 + SAMPLE_SIZE \<le> length (replicate 3 (0 :: byte)) + cx_expansion ops prot"
      using e by (simp add: SAMPLE_SIZE_def)
    show ?thesis using seal_total [OF ops tot n, of 0 "0x0f" "length ?h + 2" ?H1] that by blast
  qed
  have b1: "build ops prot (builder_encode (replicate 3 0) ?b1) = Inr (x1, c1)"
    using pipe p1 s1 by simp
  have len1: "length x1 = 45"
    using lx1 e by (simp add: long_prefix_def SERVER_CID_def CLIENT_CID_def)
  obtain x2 c2 where b2: "build ops c1 (builder_encode [0] (numbered x1 (short_header False SERVER_CID 3 1) [] 0x1f 0 3 1))
      = Inr (x1 @ x2, c2)"
    and lx2: "length x2 = length (short_header False SERVER_CID 3 1) + length [0 :: byte] + cx_expansion ops c1"
    using short_test_build [OF ops tot, of 3 "[0]" c1 x1 False SERVER_CID 1] e by (auto simp: SAMPLE_SIZE_def)
  have len2: "length x2 = 29"
    using lx2 e by (simp add: short_header_def SERVER_CID_def)
  have p2: "pn (short x1 False SERVER_CID) 1 3 = Inr (numbered x1 (short_header False SERVER_CID 3 1) [] 0x1f 0 3 1)"
    by (rule pn_short) simp_all
  show ?thesis
    unfolding test_build_two_def l p1 bind_res_Inr Let_def b1 unwrap_Inr
    using len1 len2 b2 by (simp add: p2)
qed

text \<open>
  C28. \<^verbatim>\<open>build_retry_multiple\<close> (32 runs of \<^verbatim>\<open>build_retry\<close> on one thread)
  passes whenever none of the 32 random bytes has the low nibble \<open>0xf\<close>, for every
  Retry AEAD with a 16-byte tag that the thread-local slot holds or creates: each run
  takes the branch that checks the header, which matches the expected bytes for every
  random nibble and every tag, and the slot settles after the first run.  (With the
  nibble \<open>0xf\<close> the run compares the tag with the AES-GCM tag of the expected vector,
  which is outside the model.)
\<close>

theorem test_build_retry_multiple_passes:
  assumes "\<forall>i < 32. rnd i AND 0x0f \<noteq> 0x0f"
    and "slot_aead rp slot = Inr a" and "rp_expansion rp a = 16"
    and "\<forall>aad. \<exists>t. length t = 16 \<and> rp_encrypt rp a 0 aad [] (replicate 16 0) = Inr t"
  shows "test_build_retry_multiple rp rnd slot = Some (Inr (), slot_after rp slot)"
  using retry_loop_pass [OF assms] by (simp add: test_build_retry_multiple_def)

text \<open>
  C29. \<^verbatim>\<open>build_vn\<close> passes for every five random bytes: once the random bits of
  the first byte and of the greased version are erased, the Version Negotiation packet
  for the tests' connection IDs is exactly the expected vector.
\<close>

theorem test_build_vn_passes:
  assumes "length grease = 5"
  shows "test_build_vn grease = Inr ()"
  using assms
  by (simp add: test_build_vn_def vn_layout long_bit_set grease_low_nibbles be_bytes_version replicate_four
      SERVER_CID_def CLIENT_CID_def VN_EXPECTED_def)

text \<open>
  C32. \<^verbatim>\<open>sample_server_initial\<close> passes exactly when the packet protector, after
  the burnt encryption, seals the Initial packet of the specification (type Initial,
  empty destination CID, the server CID, an empty token, length \<open>2 + 98 +
  expansion\<close>, packet number 1 in two bytes, the 98-byte sample payload) into the
  expected bytes; the builder adds nothing else that the vector could disagree with.
\<close>

theorem sample_server_initial_iff:
  assumes "aead_contract ops"
  shows "test_sample_server_initial ops prot = Inr () \<longleftrightarrow>
    (\<exists>burn c c'. cx_encrypt ops prot 0 [] [] = Inr (burn, c) \<and> length burn = cx_expansion ops c
       \<and> seal ops c 1 0x0f 18 2 (sample_header (cx_expansion ops c)) SAMPLE_PAYLOAD = Inr (SAMPLE_EXPECTED, c'))"
proof (cases "cx_encrypt ops prot 0 [] []")
  case (Inl e)
  then show ?thesis by (simp add: test_sample_server_initial_def)
next
  case (Inr r)
  obtain burn c where r: "r = (burn, c)" by (cases r)
  show ?thesis
  proof (cases "length burn = cx_expansion ops c")
    case False
    then show ?thesis using Inr r by (simp add: test_sample_server_initial_def)
  next
    case True
    obtain b where sb: "sample_builder = Inr b"
      and bb: "build ops c (builder_encode SAMPLE_PAYLOAD b)
        = seal ops c 1 0x0f 18 2 (sample_header (cx_expansion ops c)) SAMPLE_PAYLOAD"
      using sample_build [OF assms] by blast
    have "test_sample_server_initial ops prot =
      bind_res sample_builder (\<lambda>builder. bind_res (unwrap (build ops c (builder_encode SAMPLE_PAYLOAD builder)))
        (\<lambda>(packet, prot). if packet \<noteq> SAMPLE_EXPECTED then Inl (Panic AssertionFailed) else Inr ()))"
      using Inr r True by (simp add: test_sample_server_initial_def sample_builder_bind)
    also have "\<dots> = bind_res (unwrap (seal ops c 1 0x0f 18 2 (sample_header (cx_expansion ops c)) SAMPLE_PAYLOAD))
        (\<lambda>(packet, prot). if packet \<noteq> SAMPLE_EXPECTED then Inl (Panic AssertionFailed) else Inr ())"
      unfolding sb bind_res_Inr bb ..
    finally have "test_sample_server_initial ops prot =
      bind_res (unwrap (seal ops c 1 0x0f 18 2 (sample_header (cx_expansion ops c)) SAMPLE_PAYLOAD)) (\<lambda>(packet, prot).
                   if packet \<noteq> SAMPLE_EXPECTED then Inl (Panic AssertionFailed) else Inr ())" .
    then show ?thesis
      using Inr r True
      by (cases "seal ops c 1 0x0f 18 2 (sample_header (cx_expansion ops c)) SAMPLE_PAYLOAD")
        (auto simp: split: if_splits)
  qed
qed

section \<open>Witnesses\<close>

theorem test_build_short_passes_witness:
  "aead_contract (toy_crypto_total 7) \<and> provider_total (toy_crypto_total 7)
   \<and> test_build_short (toy_crypto_total 7) () = Inr ()"
proof -
  have c: "aead_contract (toy_crypto_total 7)" "provider_total (toy_crypto_total 7)"
    using toy_crypto_total_contract by blast+
  have "cx_expansion (toy_crypto_total 7) () = 16" by (simp add: toy_crypto_total_def)
  with c test_build_short_passes [OF c] show ?thesis by blast
qed

theorem test_build_two_passes_witness:
  "aead_contract (toy_crypto_total 7) \<and> provider_total (toy_crypto_total 7)
   \<and> test_build_two (toy_crypto_total 7) () = Inr ()"
proof -
  have c: "aead_contract (toy_crypto_total 7)" "provider_total (toy_crypto_total 7)"
    using toy_crypto_total_contract by blast+
  have "\<forall>c. cx_expansion (toy_crypto_total 7) c = 16" by (simp add: toy_crypto_total_def)
  with c test_build_two_passes [OF c] show ?thesis by blast
qed

theorem test_build_retry_multiple_passes_witness:
  "slot_aead (toy_retry True) Uninit = Inr 0x5a
   \<and> test_build_retry_multiple (toy_retry True) (\<lambda>_. 0x21) Uninit = Some (Inr (), Alive 0x5a)"
proof -
  have m: "make_retry_aead (toy_retry True) = Inr 0x5a" by (simp add: make_retry_aead_def toy_retry_def)
  have a: "slot_aead (toy_retry True) Uninit = Inr 0x5a" by (simp add: slot_aead_def m)
  have h: "\<forall>i < 32. (0x21 :: byte) AND 0x0f \<noteq> 0x0f"
    "rp_expansion (toy_retry True) 0x5a = 16"
    "\<forall>aad. \<exists>t. length t = 16 \<and> rp_encrypt (toy_retry True) 0x5a 0 aad [] (replicate 16 0) = Inr t"
    by (simp_all add: toy_retry_def)
  from test_build_retry_multiple_passes [OF h(1) a h(2,3)] a m show ?thesis
    by (simp add: slot_after_def)
qed

theorem sample_server_initial_iff_witness:
  "aead_contract (toy_crypto_total 7) \<and>
   (test_sample_server_initial (toy_crypto_total 7) () = Inr () \<longleftrightarrow>
    (\<exists>burn c c'. cx_encrypt (toy_crypto_total 7) () 0 [] [] = Inr (burn, c)
       \<and> length burn = cx_expansion (toy_crypto_total 7) c
       \<and> seal (toy_crypto_total 7) c 1 0x0f 18 2 (sample_header (cx_expansion (toy_crypto_total 7) c))
           SAMPLE_PAYLOAD = Inr (SAMPLE_EXPECTED, c')))"
proof -
  have c: "aead_contract (toy_crypto_total 7)" using toy_crypto_total_contract by blast
  show ?thesis using c sample_server_initial_iff [OF c, of "()"] by blast
qed

theorem test_build_vn_passes_witness:
  "test_build_vn [0x12, 0x34, 0x56, 0x78, 0x9a] = Inr ()"
  by (rule test_build_vn_passes) simp

end
