(* ===== verification/Datagram.thy ===== *)
theory Datagram
  imports Builder_Correct
begin

text \<open>
  Coalescing.  A caller of the builder keeps one buffer per datagram and builds the
  packets of the datagram into it one after the other: each \<^verbatim>\<open>build\<close> returns the
  buffer, which the next \<^verbatim>\<open>short\<close> or \<^verbatim>\<open>long\<close> takes as its encoder, and the
  provider's state is threaded through the encryptions.  \<open>packet_plan\<close> is what the
  caller asks for one packet, \<open>build_datagram\<close> runs the builder's operations for a
  list of plans, and \<open>seal_all\<close> is the specification: the concatenation of the sealed
  packets of \<open>Wire\<close>.
\<close>

datatype packet_plan =
    ShortPlan bool bytes u64 nat bytes
  | LongPlan packet_type bytes bytes u64 nat bytes
  | InitialPlan bytes bytes bytes u64 nat bytes

fun plan_pn_len :: "packet_plan \<Rightarrow> nat" where
  "plan_pn_len (ShortPlan _ _ _ l _) = l"
| "plan_pn_len (LongPlan _ _ _ _ l _) = l"
| "plan_pn_len (InitialPlan _ _ _ _ l _) = l"

fun build_packet :: "'c crypto_ops \<Rightarrow> 'c \<Rightarrow> encoder \<Rightarrow> packet_plan \<Rightarrow> (encoder \<times> 'c) res" where
  "build_packet ops c enc (ShortPlan key_phase dcid v l payload) =
     bind_res (pn (short enc key_phase dcid) v l) (\<lambda>b. build ops c (builder_encode payload b))"
| "build_packet ops c enc (LongPlan pt dcid scid v l payload) =
     bind_res (long enc pt dcid scid) (\<lambda>b.
       bind_res (pn b v l) (\<lambda>b. build ops c (builder_encode payload b)))"
| "build_packet ops c enc (InitialPlan dcid scid token v l payload) =
     bind_res (long enc Initial dcid scid) (\<lambda>b.
       bind_res (initial_token b token) (\<lambda>b.
       bind_res (pn b v l) (\<lambda>b. build ops c (builder_encode payload b))))"

fun build_datagram :: "'c crypto_ops \<Rightarrow> 'c \<Rightarrow> encoder \<Rightarrow> packet_plan list \<Rightarrow> (encoder \<times> 'c) res" where
  "build_datagram ops c enc [] = Inr (enc, c)"
| "build_datagram ops c enc (p # ps) =
     bind_res (build_packet ops c enc p) (\<lambda>(enc, c). build_datagram ops c enc ps)"

fun seal_plan :: "'c crypto_ops \<Rightarrow> 'c \<Rightarrow> packet_plan \<Rightarrow> (bytes \<times> 'c) res" where
  "seal_plan ops c (ShortPlan key_phase dcid v l payload) =
     seal ops c v 0x1f (Suc (length dcid)) l (short_header key_phase dcid l v) payload"
| "seal_plan ops c (LongPlan pt dcid scid v l payload) =
     bind_res (code pt) (\<lambda>tc.
       seal ops c v 0x0f (9 + length dcid + length scid) l
         (long_header tc dcid scid [] (l + length payload + cx_expansion ops c) l v) payload)"
| "seal_plan ops c (InitialPlan dcid scid token v l payload) =
     bind_res (encode_vvec token []) (\<lambda>t.
       seal ops c v 0x0f (9 + length dcid + length scid + length t) l
         (long_header PACKET_TYPE_INITIAL dcid scid t (l + length payload + cx_expansion ops c) l v)
         payload)"

fun seal_all :: "'c crypto_ops \<Rightarrow> 'c \<Rightarrow> packet_plan list \<Rightarrow> (bytes \<times> 'c) res" where
  "seal_all ops c [] = Inr ([], c)"
| "seal_all ops c (p # ps) =
     bind_res (seal_plan ops c p) (\<lambda>(x, c). map_sum id (\<lambda>(xs, c'). (x @ xs, c')) (seal_all ops c ps))"

lemma build_packet_seal:
  assumes "aead_contract ops" and "0 < plan_pn_len p" and "plan_pn_len p \<le> 4"
  shows "build_packet ops c P p = map_sum id (\<lambda>(x, c'). (P @ x, c')) (seal_plan ops c p)"
proof (cases p)
  case (ShortPlan key_phase dcid v l payload)
  then show ?thesis using short_pipeline [OF assms(1)] assms(2,3) by simp
next
  case (LongPlan pt dcid scid v l payload)
  show ?thesis
  proof (cases "code pt")
    case (Inl e)
    then show ?thesis using LongPlan by (simp add: long_def)
  next
    case (Inr tc)
    then show ?thesis using LongPlan long_pipeline [OF assms(1) _ _ Inr] assms(2,3) by simp
  qed
next
  case (InitialPlan dcid scid token v l payload)
  then show ?thesis using initial_pipeline [OF assms(1)] assms(2,3)
    by (cases "encode_vvec token []") simp_all
qed

lemma build_datagram_seal:
  assumes "aead_contract ops" and "\<forall>p \<in> set ps. 0 < plan_pn_len p \<and> plan_pn_len p \<le> 4"
  shows "build_datagram ops c P ps = map_sum id (\<lambda>(x, c'). (P @ x, c')) (seal_all ops c ps)"
  using assms(2)
proof (induction ps arbitrary: c P)
  case Nil
  then show ?case by simp
next
  case (Cons p ps)
  have b: "build_packet ops c P p = map_sum id (\<lambda>(x, c'). (P @ x, c')) (seal_plan ops c p)"
    using Cons.prems by (intro build_packet_seal [OF assms(1)]) simp_all
  show ?case
  proof (cases "seal_plan ops c p")
    case (Inl e)
    then show ?thesis using b by simp
  next
    case (Inr r)
    obtain x c' where r: "r = (x, c')" by (cases r)
    show ?thesis
      using b Cons Inr r by (cases "seal_all ops c' ps") auto
  qed
qed

end
