(* ===== verification/Receiver.thy ===== *)
theory Receiver
  imports Datagram Version_Negotiation
begin

text \<open>
  The receiving side of coalescing (RFC 9000, 12.2 and 17.2), written from the
  specification: a long header carries its own length, so a receiver splits a datagram
  into its packets by reading the first byte, the version, both connection IDs, the
  token of an Initial packet and the varint length field, and a short header runs to the
  end of the datagram.  \<open>parse_varint\<close> reads a QUIC variable-length integer.  The
  theory proves that the token field \<^verbatim>\<open>initial_token\<close> writes reads back, and that a
  datagram the builder coalesces splits into exactly the packets it sealed.
\<close>

unbundle bit_operations_syntax

section \<open>Parsing\<close>

definition parse_varint :: "bytes \<Rightarrow> (nat \<times> bytes) option" where
  "parse_varint bs =
     (case bs of [] \<Rightarrow> None
      | b # _ \<Rightarrow>
          let n = 2 ^ (unat b div 64)
          in if n \<le> length bs then Some (decode_be (take n bs) mod 2 ^ (8 * n - 2), drop n bs) else None)"

definition split_packet :: "bytes \<Rightarrow> (bytes \<times> bytes) option" where
  "split_packet bs =
     (case bs of [] \<Rightarrow> None
      | fb # rest \<Rightarrow>
          if fb AND 0x80 = 0 then Some (bs, [])
          else (case rest of
                  v0 # v1 # v2 # v3 # r0 \<Rightarrow>
                    (case parse_cid r0 of None \<Rightarrow> None | Some (dcid, r1) \<Rightarrow>
                     (case parse_cid r1 of None \<Rightarrow> None | Some (scid, r2) \<Rightarrow>
                      let ty = drop_bit 4 fb AND 3
                      in if ty = 3 then None
                      else (case (if ty = 0
                                  then (case parse_varint r2 of None \<Rightarrow> None
                                        | Some (n, r) \<Rightarrow> if n \<le> length r then Some (drop n r) else None)
                                  else Some r2) of
                              None \<Rightarrow> None
                            | Some r3 \<Rightarrow>
                                (case parse_varint r3 of None \<Rightarrow> None
                                 | Some (len, r4) \<Rightarrow>
                                     if len \<le> length r4
                                     then let k = length bs - length r4 + len in Some (take k bs, drop k bs)
                                     else None))))
                | _ \<Rightarrow> None))"

lemma parse_cid_shorter: "parse_cid bs = Some (c, r) \<Longrightarrow> length r < length bs"
  by (auto simp: parse_cid_def split: list.splits if_splits)

lemma parse_varint_shorter: "parse_varint bs = Some (n, r) \<Longrightarrow> length r < length bs"
  by (auto simp: parse_varint_def Let_def split: list.splits if_splits)

lemma split_packet_shorter:
  assumes "split_packet bs = Some (p, rest)"
  shows "length rest < length bs"
  using assms
  by (auto simp: split_packet_def Let_def split: list.splits if_splits option.splits
      dest!: parse_cid_shorter parse_varint_shorter) linarith+

function split_datagram :: "bytes \<Rightarrow> bytes list option" where
  "split_datagram bs =
     (if bs = [] then Some []
      else (case split_packet bs of None \<Rightarrow> None
            | Some (p, rest) \<Rightarrow> map_option (Cons p) (split_datagram rest)))"
  by pat_completeness auto
termination
  by (relation "measure length") (auto dest: split_packet_shorter)

declare split_datagram.simps [simp del]

section \<open>Which datagrams a receiver can split\<close>

text \<open>
  A packet can be followed by another in a datagram only if its header carries a length:
  a long header of type Initial (built with its token), 0-RTT or Handshake.  \<open>E\<close>
  bounds the provider's expansion, so that the length field, 14 bits, does not wrap.
\<close>

fun plan_receivable :: "nat \<Rightarrow> packet_plan \<Rightarrow> bool" where
  "plan_receivable E (ShortPlan key_phase dcid v l payload) \<longleftrightarrow> 0 < l \<and> l \<le> 4"
| "plan_receivable E (LongPlan pt dcid scid v l payload) \<longleftrightarrow>
     0 < l \<and> l \<le> 4 \<and> (pt = ZeroRtt \<or> pt = Handshake) \<and> length dcid < 256 \<and> length scid < 256
     \<and> l + length payload + E < 16384"
| "plan_receivable E (InitialPlan dcid scid token v l payload) \<longleftrightarrow>
     0 < l \<and> l \<le> 4 \<and> length dcid < 256 \<and> length scid < 256 \<and> length token < 2 ^ 64
     \<and> l + length payload + E < 16384"

fun is_short_plan :: "packet_plan \<Rightarrow> bool" where
  "is_short_plan (ShortPlan _ _ _ _ _) = True"
| "is_short_plan _ = False"

fun datagram_receivable :: "nat \<Rightarrow> packet_plan list \<Rightarrow> bool" where
  "datagram_receivable E [] = True"
| "datagram_receivable E [p] = plan_receivable E p"
| "datagram_receivable E (p # q # ps) \<longleftrightarrow>
     plan_receivable E p \<and> \<not> is_short_plan p \<and> datagram_receivable E (q # ps)"

text \<open>The sealed packets of a list of plans, one by one.\<close>

fun seal_list :: "'c crypto_ops \<Rightarrow> 'c \<Rightarrow> packet_plan list \<Rightarrow> (bytes list \<times> 'c) res" where
  "seal_list ops c [] = Inr ([], c)"
| "seal_list ops c (p # ps) =
     bind_res (seal_plan ops c p) (\<lambda>(x, c). map_sum id (\<lambda>(xs, c'). (x # xs, c')) (seal_list ops c ps))"

section \<open>Varints\<close>

lemma decode_be_less: "decode_be bs < 256 ^ length bs"
proof (induction bs rule: rev_induct)
  case Nil
  then show ?case by simp
next
  case (snoc b bs)
  have "unat b < 256" using unsigned_less [of b] by simp
  then have "decode_be bs * 256 + unat b < 256 ^ length bs * 256"
    using snoc by linarith
  then show ?case by (simp add: decode_be_append)
qed

lemma decode_be_Cons_div:
  "decode_be (b # bs) div 256 ^ length bs = unat b"
proof -
  have "decode_be (b # bs) = unat b * 256 ^ length bs + decode_be bs"
    using decode_be_append [of "[b]" bs] by simp
  then show ?thesis using decode_be_less [of bs] by simp
qed

lemma be_bytes_Cons: "0 < n \<Longrightarrow> \<exists>b rest. be_bytes n w = b # rest \<and> length rest = n - 1"
  using length_be_bytes [of n w] by (cases "be_bytes n w") auto

lemma varint_split:
  fixes w :: u64
  assumes n: "n = 2 ^ k" and k: "k < 4" and w: "unat w = 2 ^ (8 * n - 2) * k + u"
    and u: "u < 2 ^ (8 * n - 2)"
  shows "parse_varint (be_bytes n w @ X) = Some (u, X)"
proof -
  have n0: "0 < n" using n by simp
  obtain b rest where br: "be_bytes n w = b # rest" and lr: "length rest = n - 1"
    using be_bytes_Cons [OF n0] by blast
  have e: "8 * n = (8 * n - 2) + 2" using n0 by simp
  have m: "(2 :: nat) ^ (8 * n - 2) * 4 = 2 ^ (8 * n)"
  proof -
    have "(2 :: nat) ^ (8 * n) = 2 ^ ((8 * n - 2) + 2)" using e by simp
    then show ?thesis by (simp add: power_add)
  qed
  have wlt: "unat w < 2 ^ (8 * n)"
  proof -
    have "2 ^ (8 * n - 2) * k + u < 2 ^ (8 * n - 2) * k + 2 ^ (8 * n - 2)" using u by simp
    also have "\<dots> = 2 ^ (8 * n - 2) * Suc k" by simp
    also have "\<dots> \<le> 2 ^ (8 * n - 2) * 4" using k by (intro mult_le_mono2) simp
    finally show ?thesis using w m by simp
  qed
  have dec: "decode_be (b # rest) = unat w"
    using decode_be_bytes [of n w] wlt br by simp
  have "unat b = unat w div 256 ^ (n - 1)"
    using decode_be_Cons_div [of b rest] dec lr by simp
  then have "unat b div 64 = unat w div (256 ^ (n - 1) * 64)"
    by (simp add: div_mult2_eq)
  also have "(256 :: nat) ^ (n - 1) * 64 = 2 ^ (8 * n - 2)"
  proof -
    have "(256 :: nat) ^ (n - 1) * 64 = 2 ^ (8 * (n - 1)) * 2 ^ 6"
      by (simp add: power_mult)
    also have "\<dots> = 2 ^ (8 * (n - 1) + 6)" by (simp add: power_add)
    also have "8 * (n - 1) + 6 = 8 * n - 2" using n0 by simp
    finally show ?thesis .
  qed
  finally have kb: "unat b div 64 = k" using w u by simp
  have d: "decode_be (b # rest) mod 2 ^ (8 * n - 2) = u"
    using dec w u by simp
  have t: "take n (b # rest @ X) = b # rest" "drop n (b # rest @ X) = X" "n \<le> length (b # rest @ X)"
  proof -
    have nl: "n = Suc (length rest)" using lr n0 by simp
    show "take n (b # rest @ X) = b # rest" "drop n (b # rest @ X) = X" "n \<le> length (b # rest @ X)"
      unfolding nl by simp_all
  qed
  show ?thesis
    unfolding br parse_varint_def using t d kb by (simp add: Let_def flip: n)
qed

lemma unat_or_push:
  fixes v p :: u64
  assumes p: "unat p = push_bit m k" and v: "unat v < 2 ^ m"
  shows "unat (v OR p) = 2 ^ m * k + unat v"
proof -
  have "unat (v OR p) = push_bit m k OR unat v"
    by (simp add: unsigned_or_eq p or.commute)
  also have "\<dots> = push_bit m k + unat v" using v by (rule push_bit_or_small)
  finally show ?thesis by (simp add: push_bit_eq_mult)
qed

lemma parse_encode_varint:
  assumes "encode_varint v [] = Inr t"
  shows "parse_varint (t @ X) = Some (unat v, X)"
proof -
  consider (a) "v < 2 ^ 6" | (b) "\<not> v < 2 ^ 6" "v < 2 ^ 14" | (c) "\<not> v < 2 ^ 14" "v < 2 ^ 30"
    | (d) "\<not> v < 2 ^ 30" "v < 2 ^ 62"
    using assms by (auto simp: encode_varint_def split: if_splits)
  then show ?thesis
  proof cases
    case a
    have "t = be_bytes 1 v" using assms a by (simp add: encode_varint_def encode_uint_be_bytes word_less_nat_alt)
    moreover have u: "unat v < 2 ^ (8 * 1 - 2)" using a by (simp add: word_less_nat_alt)
    ultimately show ?thesis using varint_split [of 1 0 v "unat v" X] by simp
  next
    case b
    have "t = be_bytes 2 (v OR push_bit 14 1)" using assms b by (simp add: encode_varint_def encode_uint_be_bytes word_less_nat_alt)
    moreover have u: "unat v < 2 ^ (8 * 2 - 2)" using b(2) by (simp add: word_less_nat_alt)
    moreover have "unat (v OR push_bit 14 1) = 2 ^ (8 * 2 - 2) * 1 + unat v"
      using u by (intro unat_or_push) simp_all
    ultimately show ?thesis using varint_split [of 2 1 "v OR push_bit 14 1" "unat v" X] by simp
  next
    case c
    have "t = be_bytes 4 (v OR push_bit 30 2)" using assms c by (simp add: encode_varint_def encode_uint_be_bytes word_less_nat_alt)
    moreover have u: "unat v < 2 ^ (8 * 4 - 2)" using c(2) by (simp add: word_less_nat_alt)
    moreover have "unat (v OR push_bit 30 2) = 2 ^ (8 * 4 - 2) * 2 + unat v"
      using u by (intro unat_or_push) simp_all
    ultimately show ?thesis using varint_split [of 4 2 "v OR push_bit 30 2" "unat v" X] by simp
  next
    case d
    have "t = be_bytes 8 (v OR push_bit 62 3)" using assms d by (simp add: encode_varint_def encode_uint_be_bytes word_less_nat_alt)
    moreover have u: "unat v < 2 ^ (8 * 8 - 2)" using d(2) by (simp add: word_less_nat_alt)
    moreover have "unat (v OR push_bit 62 3) = 2 ^ (8 * 8 - 2) * 3 + unat v"
      using u by (intro unat_or_push) simp_all
    ultimately show ?thesis using varint_split [of 8 3 "v OR push_bit 62 3" "unat v" X] by simp
  qed
qed



lemma encode_vvec_field:
  assumes "length token < 2 ^ 64" and "encode_vvec token [] = Inr t"
  shows "\<exists>tv. t = tv @ token \<and> (\<forall>Y. parse_varint (tv @ Y) = Some (length token, Y))"
proof -
  obtain tv where tv: "encode_varint (of_nat (length token)) [] = Inr tv" and t: "t = tv @ token"
    using assms(2) by (cases "encode_varint (of_nat (length token)) []") (auto simp: encode_vvec_def encode_def)
  have "unat (of_nat (length token) :: u64) = length token"
    using assms(1) by (simp add: unat_of_nat)
  then have "parse_varint (tv @ Y) = Some (length token, Y)" for Y
    using parse_encode_varint [OF tv, of Y] by simp
  with t show ?thesis by blast
qed

lemma parse_length_field:
  assumes "n < 16384"
  shows "parse_varint (length_field n @ Y) = Some (n, Y)"
proof -
  obtain b0 b1 where lf: "length_field n = [b0, b1]" and b0: "b0 = of_nat (64 + n div 256 mod 64)"
    by (simp add: length_field_def)
  have "unat (of_nat (64 + n div 256 mod 64) :: byte) = 64 + n div 256 mod 64"
    by (rule unat_of_nat_small) simp
  then have k: "unat b0 div 64 = 1" by (simp add: b0)
  have d: "decode_be [b0, b1] mod 2 ^ 14 = n"
    using assms by (simp flip: lf add: decode_length_field)
  show ?thesis
    unfolding lf using k d by (simp add: parse_varint_def)
qed

section \<open>One packet\<close>

lemma split_packet_short: "fb AND 0x80 = 0 \<Longrightarrow> split_packet (fb # rest) = Some (fb # rest, [])"
  by (simp add: split_packet_def)

lemma take_drop_length_append:
  "take (length xs) (xs @ ys) = xs" "drop (length xs) (xs @ ys) = ys"
  by simp_all

lemma split_packet_eq:
  assumes "bs = fb # v0 # v1 # v2 # v3 # r0" and "fb AND 0x80 \<noteq> 0"
    and "parse_cid r0 = Some (dcid, r1)" and "parse_cid r1 = Some (scid, r2)"
    and "drop_bit 4 fb AND 3 \<noteq> 3"
    and "(if drop_bit 4 fb AND 3 = 0
          then (case parse_varint r2 of None \<Rightarrow> None
                | Some (m, r) \<Rightarrow> if m \<le> length r then Some (drop m r) else None)
          else Some r2) = Some r3"
    and "parse_varint r3 = Some (len, r4)" and "len \<le> length r4"
  shows "split_packet bs = Some (take (length bs - length r4 + len) bs, drop (length bs - length r4 + len) bs)"
  using assms by (simp add: split_packet_def Let_def del: take_Suc_Cons drop_Suc_Cons)

lemma split_packet_long:
  assumes fb: "fb AND 0x80 = 0x80" and vs: "length vs = 4"
    and d: "length dcid < 256" and s: "length scid < 256"
    and ty: "drop_bit 4 fb AND 3 = ty" "ty \<noteq> 3"
    and tok: "ty = 0 \<and> (\<exists>tv token. tokf = tv @ token \<and> (\<forall>Y. parse_varint (tv @ Y) = Some (length token, Y)))
              \<or> ty \<noteq> 0 \<and> tokf = []"
    and n: "length body = n" "n < 16384"
  shows "split_packet ((fb # vs @ of_nat (length dcid) # dcid @ of_nat (length scid) # scid @ tokf
      @ length_field n @ body) @ R)
    = Some (fb # vs @ of_nat (length dcid) # dcid @ of_nat (length scid) # scid @ tokf @ length_field n @ body, R)"
proof -
  obtain a b c e where vs4: "vs = [a, b, c, e]"
    using vs by (cases vs rule: parse_versions.cases) (auto simp: numeral_eq_Suc)
  have fb0: "fb AND 0x80 \<noteq> 0" using fb by simp
  have lf: "parse_varint (length_field n @ body @ R) = Some (n, body @ R)"
    using parse_length_field [OF n(2)] by simp
  have tf: "(if ty = 0 then (case parse_varint (tokf @ length_field n @ body @ R) of None \<Rightarrow> None
              | Some (m, r) \<Rightarrow> if m \<le> length r then Some (drop m r) else None)
            else Some (tokf @ length_field n @ body @ R)) = Some (length_field n @ body @ R)"
  proof (cases "ty = 0")
    case True
    then obtain tv token where tk: "tokf = tv @ token" and p: "\<forall>Y. parse_varint (tv @ Y) = Some (length token, Y)"
      using tok by blast
    show ?thesis using True p by (simp add: tk)
  next
    case False
    then show ?thesis using tok by simp
  qed
  let ?x = "fb # vs @ of_nat (length dcid) # dcid @ of_nat (length scid) # scid @ tokf @ length_field n @ body"
  have s: "split_packet (?x @ R) = Some (take (length (?x @ R) - length (body @ R) + n) (?x @ R),
      drop (length (?x @ R) - length (body @ R) + n) (?x @ R))"
  proof (rule split_packet_eq)
    show "?x @ R = fb # a # b # c # e # (of_nat (length dcid) # dcid @ of_nat (length scid) # scid @ tokf
        @ length_field n @ body @ R)" by (simp add: vs4)
    show "parse_cid (of_nat (length dcid) # dcid @ of_nat (length scid) # scid @ tokf @ length_field n @ body @ R)
        = Some (dcid, of_nat (length scid) # scid @ tokf @ length_field n @ body @ R)"
      using parse_cid_prefix [OF d] by simp
    show "parse_cid (of_nat (length scid) # scid @ tokf @ length_field n @ body @ R)
        = Some (scid, tokf @ length_field n @ body @ R)"
      using parse_cid_prefix [OF s] by simp
  qed (use fb0 ty tf lf n(1) in simp_all)
  have kx: "length (?x @ R) - length (body @ R) + n = length ?x" using n(1) by simp
  from s show ?thesis unfolding kx take_drop_length_append .
qed


section \<open>Sealed packets\<close>

lemma seal_Inr_length:
  assumes "aead_contract ops" and "seal ops c v fbm k l hdr body = Inr (x, c')"
  shows "\<exists>msk ct. x = protect fbm k l msk hdr @ ct \<and> length ct = length body + cx_expansion ops c"
proof -
  obtain ct c1 where e: "cx_encrypt ops c v hdr body = Inr (ct, c1)"
    using assms(2) by (auto simp: seal_def bind_res_eq_Inr)
  then obtain msk where "x = protect fbm k l msk hdr @ ct"
    using assms(2) by (auto simp: seal_def bind_res_eq_Inr split: if_splits)
  with aead_contract_encrypt [OF assms(1) e] show ?thesis by blast
qed

lemma long_first_byte_masked:
  assumes "0 < l" "l \<le> 4" "tc \<in> {0, 1, 2}"
  shows "((0xc0 OR push_bit 4 tc OR of_nat (l - 1)) XOR (m AND 0x0f) :: byte) AND 0x80 = 0x80
    \<and> drop_bit 4 ((0xc0 OR push_bit 4 tc OR of_nat (l - 1)) XOR (m AND 0x0f) :: byte) AND 3 = tc"
proof -
  have d: "drop_bit 4 (y XOR (m AND 0x0f)) = drop_bit 4 (y :: byte)" for y
    by (simp add: drop_bit_xor drop_bit_and)
  have "l \<in> {1, 2, 3, 4}" using assms(1,2) by auto
  then show ?thesis
    using assms(3) by (auto simp: d long_bit_after_mask)
qed

lemma short_bit_after_mask: "((y XOR (m AND 0x1f)) AND 0x80 :: byte) = y AND 0x80"
  by (simp add: bit.conj_xor_distrib2 and.assoc)

lemma short_first_byte_masked:
  assumes "0 < l" "l \<le> 4"
  shows "((0x40 OR push_bit 2 (of_bool kp) OR of_nat (l - 1)) XOR (m AND 0x1f) :: byte) AND 0x80 = 0"
proof -
  have "l \<in> {1, 2, 3, 4}" using assms by auto
  then show ?thesis unfolding short_bit_after_mask by (cases kp) auto
qed


lemma seal_long_split:
  assumes ops: "aead_contract ops" and l: "0 < l" "l \<le> 4" and tc: "tc \<in> {0, 1, 2}"
    and d: "length dcid < 256" and s: "length scid < 256"
    and tok: "tc = 0 \<and> (\<exists>tv token. tok = tv @ token \<and> (\<forall>Y. parse_varint (tv @ Y) = Some (length token, Y)))
              \<or> tc \<noteq> 0 \<and> tok = []"
    and N: "N = l + length payload + cx_expansion ops c" "N < 16384"
    and x: "seal ops c v 0x0f (9 + length dcid + length scid + length tok) l
              (long_header tc dcid scid tok N l v) payload = Inr (x, c')"
  shows "split_packet (x @ R) = Some (x, R)"
proof -
  let ?k = "9 + length dcid + length scid + length tok"
  obtain msk ct where xm: "x = protect 0x0f ?k l msk (long_header tc dcid scid tok N l v) @ ct"
    and lc: "length ct = length payload + cx_expansion ops c"
    using seal_Inr_length [OF ops x] by blast
  let ?fb = "0xc0 OR push_bit 4 tc OR of_nat (l - 1) :: byte"
  let ?T = "be_bytes 4 QUIC_VERSION @ of_nat (length dcid) # dcid @ of_nat (length scid) # scid @ tok @ length_field N"
  let ?body = "xor_span (?k - Suc (length ?T)) l 1 msk (be_bytes l v) @ ct"
  have h: "long_header tc dcid scid tok N l v = ?fb # ?T @ be_bytes l v"
    by (simp add: long_header_def)
  have k: "Suc (length ?T) \<le> ?k" by simp
  have xe: "x = (?fb XOR (msk ! 0 AND 0x0f)) # be_bytes 4 QUIC_VERSION @ of_nat (length dcid) # dcid
      @ of_nat (length scid) # scid @ tok @ length_field N @ ?body"
    unfolding xm h protect_keeps_prefix [OF k] by simp
  have fb: "(?fb XOR (msk ! 0 AND 0x0f)) AND 0x80 = 0x80"
    "drop_bit 4 (?fb XOR (msk ! 0 AND 0x0f)) AND 3 = tc"
    using long_first_byte_masked [OF l tc, of "msk ! 0"] by simp_all
  have "split_packet (((?fb XOR (msk ! 0 AND 0x0f)) # be_bytes 4 QUIC_VERSION @ of_nat (length dcid) # dcid
      @ of_nat (length scid) # scid @ tok @ length_field N @ ?body) @ R)
    = Some ((?fb XOR (msk ! 0 AND 0x0f)) # be_bytes 4 QUIC_VERSION @ of_nat (length dcid) # dcid
      @ of_nat (length scid) # scid @ tok @ length_field N @ ?body, R)"
  proof (rule split_packet_long [OF fb(1) _ d s fb(2)])
    show "length ?body = N" using lc N(1) by simp
  qed (use tc tok N(2) in auto)
  then show ?thesis unfolding xe [symmetric] .
qed

lemma seal_short_split:
  assumes ops: "aead_contract ops" and l: "0 < l" "l \<le> 4"
    and x: "seal ops c v 0x1f (Suc (length dcid)) l (short_header kp dcid l v) payload = Inr (x, c')"
  shows "split_packet x = Some (x, [])"
proof -
  obtain msk ct where xm: "x = protect 0x1f (Suc (length dcid)) l msk (short_header kp dcid l v) @ ct"
    using seal_Inr_length [OF ops x] by blast
  let ?fb = "0x40 OR push_bit 2 (of_bool kp) OR of_nat (l - 1) :: byte"
  have h: "short_header kp dcid l v = ?fb # [] @ dcid @ be_bytes l v"
    by (simp add: short_header_def)
  have k: "Suc (length ([] :: bytes)) \<le> Suc (length dcid)" by simp
  have xe: "x = (?fb XOR (msk ! 0 AND 0x1f)) # xor_span (Suc (length dcid) - 1) l 1 msk (dcid @ be_bytes l v) @ ct"
    unfolding xm h protect_keeps_prefix [OF k] by simp
  show ?thesis
    unfolding xe by (rule split_packet_short) (rule short_first_byte_masked [OF l])
qed


lemma plan_split:
  assumes ops: "aead_contract ops" and E: "\<forall>c. cx_expansion ops c \<le> E"
    and ok: "plan_receivable E p" and x: "seal_plan ops c p = Inr (x, c')"
  shows "(\<not> is_short_plan p \<longrightarrow> (\<forall>R. split_packet (x @ R) = Some (x, R))) \<and> split_packet x = Some (x, [])"
proof (cases p)
  case (ShortPlan kp dcid v l payload)
  then show ?thesis using ok x seal_short_split [OF ops] by auto
next
  case (LongPlan pt dcid scid v l payload)
  have N: "l + length payload + cx_expansion ops c < 16384" using ok E [rule_format, of c] LongPlan by simp
  obtain tc where tc: "code pt = Inr tc" "tc \<in> {0, 1, 2}" "tc \<noteq> 0"
    using ok LongPlan by (auto simp: packet_consts)
  have s: "seal ops c v 0x0f (9 + length dcid + length scid + length ([] :: bytes)) l
      (long_header tc dcid scid [] (l + length payload + cx_expansion ops c) l v) payload = Inr (x, c')"
    using x LongPlan tc(1) by simp
  have "split_packet (x @ R) = Some (x, R)" for R
    using ok LongPlan tc(2,3) N by (intro seal_long_split [OF ops _ _ _ _ _ _ refl _ s]) auto
  then show ?thesis using LongPlan by (metis append_Nil2)
next
  case (InitialPlan dcid scid token v l payload)
  have N: "l + length payload + cx_expansion ops c < 16384" using ok E [rule_format, of c] InitialPlan by simp
  obtain tf where tf: "encode_vvec token [] = Inr tf"
    and s: "seal ops c v 0x0f (9 + length dcid + length scid + length tf) l
      (long_header PACKET_TYPE_INITIAL dcid scid tf (l + length payload + cx_expansion ops c) l v) payload = Inr (x, c')"
    using x InitialPlan by (cases "encode_vvec token []") auto
  have f: "\<exists>tv. tf = tv @ token \<and> (\<forall>Y. parse_varint (tv @ Y) = Some (length token, Y))"
    using ok InitialPlan encode_vvec_field [OF _ tf] by simp
  have "split_packet (x @ R) = Some (x, R)" for R
    using ok InitialPlan f N by (intro seal_long_split [OF ops _ _ _ _ _ _ refl _ s]) (auto simp: packet_consts)
  then show ?thesis using InitialPlan by (metis append_Nil2)
qed

lemma split_packet_Nil: "split_packet [] = None"
  by (simp add: split_packet_def)

lemma seal_list_Cons_Inr:
  assumes "seal_list ops c (p # ps) = Inr (xs, c')"
  shows "\<exists>x c1 xs'. seal_plan ops c p = Inr (x, c1) \<and> seal_list ops c1 ps = Inr (xs', c') \<and> xs = x # xs'"
proof -
  obtain x c1 where x: "seal_plan ops c p = Inr (x, c1)"
    using assms by (auto simp: bind_res_eq_Inr)
  then show ?thesis
    using assms by (cases "seal_list ops c1 ps") auto
qed

lemma split_sealed:
  assumes ops: "aead_contract ops" and E: "\<forall>c. cx_expansion ops c \<le> E"
  shows "datagram_receivable E ps \<Longrightarrow> seal_list ops c ps = Inr (xs, c') \<Longrightarrow> split_datagram (concat xs) = Some xs"
proof (induction ps arbitrary: c xs rule: induct_list012)
  case 1
  then show ?case by (simp add: split_datagram.simps)
next
  case (2 p)
  obtain x c1 where x: "seal_plan ops c p = Inr (x, c1)" and xs: "xs = [x]"
    using seal_list_Cons_Inr [OF "2.prems"(2)] by auto
  have sp: "split_packet x = Some (x, [])" using plan_split [OF ops E _ x] 2 by simp
  then have "x \<noteq> []" using split_packet_Nil by auto
  then show ?case using sp xs by (simp add: split_datagram.simps)
next
  case (3 p q ps)
  obtain x c1 xs' where x: "seal_plan ops c p = Inr (x, c1)" and r: "seal_list ops c1 (q # ps) = Inr (xs', c')"
    and xs: "xs = x # xs'"
    using seal_list_Cons_Inr [OF "3.prems"(2)] by blast
  have sp: "split_packet (x @ concat xs') = Some (x, concat xs')" and "split_packet x = Some (x, [])"
    using plan_split [OF ops E _ x] "3.prems"(1) by simp_all
  then have "x @ concat xs' \<noteq> []" using split_packet_Nil by auto
  moreover have "split_datagram (concat xs') = Some xs'"
    using "3.IH"(2) [OF _ r] "3.prems"(1) by simp
  ultimately show ?case using sp xs by (simp add: split_datagram.simps)
qed


lemma seal_all_list:
  "seal_all ops c ps = map_sum id (\<lambda>(xs, c'). (concat xs, c')) (seal_list ops c ps)"
proof (induction ps arbitrary: c)
  case Nil
  then show ?case by simp
next
  case (Cons p ps)
  show ?case
  proof (cases "seal_plan ops c p")
    case (Inl e)
    then show ?thesis by simp
  next
    case (Inr r)
    obtain x c1 where r: "r = (x, c1)" by (cases r)
    show ?thesis using Inr r Cons.IH [of c1] by (cases "seal_list ops c1 ps") auto
  qed
qed

lemma plan_receivable_pn_len: "plan_receivable E p \<Longrightarrow> 0 < plan_pn_len p \<and> plan_pn_len p \<le> 4"
  by (cases p) auto

lemma datagram_receivable_pn_len:
  "datagram_receivable E ps \<Longrightarrow> \<forall>p \<in> set ps. 0 < plan_pn_len p \<and> plan_pn_len p \<le> 4"
  by (induction E ps rule: datagram_receivable.induct) (auto dest: plan_receivable_pn_len)

section \<open>Claims\<close>

text \<open>
  C33. The Initial token field round-trips: whatever \<^verbatim>\<open>initial_token\<close> appends to the
  buffer starts with a QUIC varint that a receiver reads as the token's length, followed
  by exactly the token's bytes, whatever comes after.
\<close>

theorem initial_token_field_roundtrip:
  assumes "initial_token b token = Inr b'" and "length token < 2 ^ 64"
  shows "parse_varint (drop (length (encoder b)) (encoder b') @ X) = Some (length token, token @ X)"
proof -
  obtain enc where e: "encode_vvec token (encoder b) = Inr enc" and b': "b' = b\<lparr>encoder := enc\<rparr>"
    using assms(1) by (auto simp: initial_token_def bind_res_eq_Inr split: if_splits)
  obtain t where t: "encode_vvec token [] = Inr t" and enc: "enc = encoder b @ t"
    using e encode_vvec_append [of token "encoder b"] by (cases "encode_vvec token []") auto
  obtain tv where tv: "t = tv @ token" and p: "\<forall>Y. parse_varint (tv @ Y) = Some (length token, Y)"
    using encode_vvec_field [OF assms(2) t] by blast
  show ?thesis using p by (simp add: b' enc tv)
qed

text \<open>
  C34. Coalesced packets can be separated again: when the builder builds a list of
  packets into one empty buffer, every packet but the last carrying a long header with
  a length (Initial with its token, 0-RTT, Handshake), the connection IDs under 256 bytes
  and every length field under \<open>2^14\<close>, then the datagram is the concatenation of the
  packets the specification seals, and a receiver that splits it by the length fields
  recovers exactly those packets, in order.
\<close>

theorem coalesced_datagram_splits:
  assumes "aead_contract ops" and "\<forall>c. cx_expansion ops c \<le> E" and "datagram_receivable E ps"
    and "build_datagram ops c [] ps = Inr (D, c')"
  shows "\<exists>xs. seal_list ops c ps = Inr (xs, c') \<and> D = concat xs \<and> split_datagram D = Some xs"
proof -
  have "build_datagram ops c [] ps = map_sum id (\<lambda>(x, c'). ([] @ x, c')) (seal_all ops c ps)"
    using assms(1) datagram_receivable_pn_len [OF assms(3)] by (rule build_datagram_seal)
  then obtain xs where xs: "seal_list ops c ps = Inr (xs, c')" and D: "D = concat xs"
    using assms(4) by (cases "seal_list ops c ps") (auto simp: seal_all_list)
  show ?thesis using split_sealed [OF assms(1,2,3) xs] xs D by blast
qed

section \<open>Witnesses\<close>

theorem initial_token_field_roundtrip_witness:
  "\<exists>b b'. long [] Initial [] SERVER_CID = Inr b \<and> initial_token b (replicate 70 0x33) = Inr b'
     \<and> parse_varint (drop (length (encoder b)) (encoder b') @ []) = Some (70, replicate 70 0x33)"
proof -
  let ?h = "long_prefix PACKET_TYPE_INITIAL [] SERVER_CID"
  have l: "long [] Initial [] SERVER_CID = Inr (open_builder [] ?h 0x0f)"
    by (rule long_open) simp
  obtain t where t: "encode_vvec (replicate 70 (0x33 :: byte)) [] = Inr t"
    by (simp add: encode_vvec_def encode_varint_def)
  obtain b' where i: "initial_token (open_builder [] ?h 0x0f) (replicate 70 0x33) = Inr b'"
    by (simp add: initial_token_open t)
  have "parse_varint (drop (length (encoder (open_builder [] ?h 0x0f))) (encoder b') @ [])
      = Some (length (replicate 70 (0x33 :: byte)), replicate 70 0x33 @ [])"
    by (rule initial_token_field_roundtrip [OF i]) simp
  with l i show ?thesis by auto
qed

theorem coalesced_datagram_splits_witness:
  "\<exists>D c' xs. build_datagram (toy_crypto_total 7) () []
       [InitialPlan [] SERVER_CID [0x74, 0x6f, 0x6b, 0x65, 0x6e] 1 2 (replicate 20 0),
        LongPlan Handshake SERVER_CID CLIENT_CID 2 1 (replicate 20 1),
        ShortPlan False SERVER_CID 3 1 (replicate 4 1)] = Inr (D, c')
     \<and> D = concat xs \<and> split_datagram D = Some xs"
proof -
  let ?ps = "[InitialPlan [] SERVER_CID [0x74, 0x6f, 0x6b, 0x65, 0x6e] 1 2 (replicate 20 0),
        LongPlan Handshake SERVER_CID CLIENT_CID 2 1 (replicate 20 1),
        ShortPlan False SERVER_CID 3 1 (replicate 4 1)]"
  have ok: "case build_datagram (toy_crypto_total 7) () [] ?ps of Inl _ \<Rightarrow> False | Inr _ \<Rightarrow> True"
    by code_simp
  then obtain D c' where b: "build_datagram (toy_crypto_total 7) () [] ?ps = Inr (D, c')"
    by (auto split: sum.splits)
  have c: "aead_contract (toy_crypto_total 7)" using toy_crypto_total_contract by blast
  have e: "\<forall>c. cx_expansion (toy_crypto_total 7) c \<le> 16" by (simp add: toy_crypto_total_def)
  have r: "datagram_receivable 16 ?ps" by (simp add: SERVER_CID_def CLIENT_CID_def)
  from coalesced_datagram_splits [OF c e r b] b show ?thesis by blast
qed

end
