(* ===== verification/Spec2Isabelle.thy ===== *)
theory Spec2Isabelle
  imports Packet_Tests Receiver
begin

text \<open>
  \<^bold>\<open>A verification development for \<^verbatim>\<open>neqo-transport/src/packet2.rs\<close>.\<close>

  \<^bold>\<open>The program.\<close>  \<^verbatim>\<open>packet2.rs\<close> writes QUIC packets into a growable byte buffer
  (\<^verbatim>\<open>neqo_common::Encoder\<close>).  \<^verbatim>\<open>PacketBuilder\<close> assembles one protected packet at
  a time and can be started again on the buffer it returns, so several packets coalesce in
  one datagram.  \<^verbatim>\<open>short\<close> and \<^verbatim>\<open>long\<close> write the start of the header, with
  \<^verbatim>\<open>PacketType::code\<close> giving the 2-bit type of a long header.
  \<^verbatim>\<open>initial_token\<close> adds an Initial packet's token.  \<^verbatim>\<open>pn\<close> reserves the 2-byte
  length of a long header, writes the packet number and closes the header.  The caller
  writes the payload through \<^verbatim>\<open>DerefMut\<close>.  \<^verbatim>\<open>build\<close> back-patches the length
  (\<^verbatim>\<open>write_len\<close>), encrypts the payload with the header as associated data through
  the packet protector \<^verbatim>\<open>CryptoDxState\<close>, samples the ciphertext for a header
  protection mask and XORs it into the first byte and the packet number.
  \<^verbatim>\<open>abort\<close> drops the unfinished packet.  Two associated functions build the packets
  that need no builder: \<^verbatim>\<open>retry\<close>, integrity-protected with a fixed-key AEAD that
  \<^verbatim>\<open>make_retry_aead\<close> creates lazily in the thread-local \<^verbatim>\<open>RETRY_AEAD\<close>, and
  \<^verbatim>\<open>version_negotiation\<close>, greased with random bytes.

  \<^bold>\<open>The theories.\<close>
  \<^item> \<open>Prelude\<close>: The types of the model: bytes are \<open>8 word\<close>, packet numbers
    \<open>u64 = 64 word\<close>.  \<^verbatim>\<open>Res\<close> and panics are \<open>'a res = error + 'a\<close>, with
    \<open>bind_res\<close> for \<^verbatim>\<open>?\<close> and \<open>unwrap\<close>.  \<open>get\<close> and \<open>set_at\<close> are checked
    indexing and \<open>slice\<close> is slicing.  The theory also holds the shared list and bit
    lemmas.
  \<^item> \<open>Encoder\<close>: \<^verbatim>\<open>neqo_common::Encoder\<close>, which is outside the repository and is
    modelled from the specification: an encoder is its byte list and every
    \<^verbatim>\<open>encode_*\<close> appends.  The byte loop of \<open>encode_uint\<close> is proved equal to
    the big-endian reference \<open>be_bytes\<close>, and \<open>decode_be\<close> inverts it.
  \<^item> \<open>Packet_Type\<close>: The constants (lines 21--30), \<^verbatim>\<open>PacketType\<close> and \<open>code\<close>,
    and \<open>spec_long_type\<close>, the specification's table of type codes.
  \<^item> \<open>Crypto\<close>: The packet protector as an interface record \<open>crypto_ops\<close> over an
    abstract state: \<^verbatim>\<open>encrypt\<close> returns the new state, \<^verbatim>\<open>compute_mask\<close> and
    \<^verbatim>\<open>expansion\<close> read it.  \<open>aead_contract\<close> is what the specification promises of
    it: ciphertext = plaintext + expansion bytes, and a 5-byte mask.
    \<open>provider_total\<close> says that it never fails.  The theory also holds two
    deterministic stand-ins used by the witnesses.
  \<^item> \<open>Builder\<close>: The builder state as the records \<open>pb_range\<close>,
    \<open>packet_builder_offsets\<close> and \<open>packet_builder\<close>, and one definition per method:
    \<open>short\<close>, \<open>long\<close>, \<open>initial_token\<close>, \<open>pn\<close> (with \<open>reserve_len\<close>),
    \<open>write_len\<close>, \<open>build\<close>, \<open>abort\<close>, \<open>is_empty\<close>, \<open>builder_encode\<close>
    (\<^verbatim>\<open>DerefMut\<close>), \<open>deref\<close> (\<^verbatim>\<open>Deref\<close>) and \<open>into_encoder\<close>.  \<open>build\<close> is \<open>write_len\<close> followed by
    \<open>encrypt_in_place\<close>.  The masking loop is \<open>xor_pn\<close> over \<open>pn_indices\<close> inside
    \<open>apply_mask\<close>.  Methods on \<^verbatim>\<open>&mut self\<close> return the new builder.  Every index,
    \<^verbatim>\<open>debug_assert!\<close>, \<^verbatim>\<open>assert!\<close> and \<^verbatim>\<open>usize\<close> subtraction is a
    \<open>Panic\<close> branch; the model is of a debug build.
  \<^item> \<open>Wire\<close>: The wire format as the specification states it: \<open>short_header\<close>,
    \<open>long_header\<close>, the length field, header protection \<open>protect\<close>, and \<open>seal\<close>
    (encrypt, sample at \<open>4 - pn_len\<close>, mask), and the receiver's removal of header
    protection \<open>unprotect\<close> (RFC 9001, 5.4.1).
  \<^item> \<open>Builder_Correct\<close>: Refinement: \<open>short\<close>/\<open>long\<close>/\<open>initial_token\<close>, then
    \<open>pn\<close>, payload and \<open>build\<close>, append exactly \<open>seal\<close> of the specification's
    header (C1--C3).
  \<^item> \<open>Builder_Invariant\<close>: The builder's life cycle as the step relation
    \<open>builder_reach\<close> over \<open>builder_op\<close>.  The invariant \<open>builder_wf\<close> holds on
    every reachable builder (C4, by rule induction).  \<open>abort\<close> restores the buffer
    (C5), and \<open>build\<close> fails only by the provider or the sampling assertion (C6).
  \<^item> \<open>Builder_Properties\<close>: \<open>is_empty\<close> (C7, C8), the 14-bit length field
    (C9), and that header protection touches only the protected bits (C11).
  \<^item> \<open>Builder_Preconditions\<close>: What the panics guard: \<open>pn\<close>'s length (C12),
    \<open>pn\<close>'s encoding (C13), \<open>long\<close>'s type (C14) and \<open>initial_token\<close>'s type
    (C15), and that \<open>initial_token\<close> after \<open>pn\<close> goes unnoticed (C16).  C14
    checks \<open>long\<close>'s type bits against the specification's table.
  \<^item> \<open>Builder_Finish\<close>: When \<open>build\<close> succeeds: exactly when payload, expansion
    and \<open>pn_len\<close> reach 20 bytes (C17).  What it leaves: the earlier packets, then
    exactly the provider's ciphertext (C18).
  \<^item> \<open>Builder_Header\<close>: That a receiver's \<open>unprotect\<close> removes the protection
    \<^verbatim>\<open>build\<close> applies (C10), the fixed bit of every reachable header (C24), the
    masking loop against its reference \<open>xor_span\<close> (C25), and what a second
    \<open>pn\<close> does to a long header (C31).
  \<^item> \<open>Retry\<close>: \<open>retry\<close>, \<open>make_retry_aead\<close>, and the thread-local as
    \<open>'a tls_slot\<close> (\<open>Uninit\<close>, \<open>Alive\<close>, \<open>Destroyed\<close>) with
    \<open>tls_try_with\<close> for \<^verbatim>\<open>try_with(..).map_err(..)??\<close>.  \<open>retry\<close> takes the slot
    and returns it; the random byte is a parameter.  The Retry AEAD is an interface
    record \<open>retry_provider\<close>.  The theory proves the wire format (C19), the errors
    (C20), and that a failed initialisation panics (C21).
  \<^item> \<open>Version_Negotiation\<close>: \<open>version_negotiation\<close> with \<^verbatim>\<open>random(5)\<close> as a
    parameter and \<open>grease_loop\<close>.  The theory proves its shape (C22) and a round trip
    through \<open>parse_vn\<close>, a reader written from the specification's table (C23).
  \<^item> \<open>Packet_Tests\<close>: The unit tests as functions that return \<open>Inr ()\<close> when they
    pass, proved to pass for every protector meeting the contract and every random
    input (C26, C27, C28, C29).  The loop of \<^verbatim>\<open>build_retry_multiple\<close> is the
    \<open>while_option\<close> \<open>retry_loop\<close>.  \<^verbatim>\<open>sample_server_initial\<close> passes exactly
    when the protector seals the specification's Initial packet into the expected bytes
    (C32).  \<^verbatim>\<open>build_abort\<close> is modelled as \<open>test_build_abort\<close>; that it passes is
    an instance of C5.
  \<^item> \<open>Datagram\<close>: The caller the specification describes but the repository does
    not contain: \<open>build_datagram\<close> builds a list of \<open>packet_plan\<close>s into one buffer,
    threading the provider state; \<open>build_datagram_seal\<close> shows it appends the
    concatenation of the sealed packets, which the receiver's theorem C34 uses.
  \<^item> \<open>Receiver\<close>: The receiving side, written from the specification (RFC 9000,
    12.2 and 16): \<open>parse_varint\<close> reads a QUIC varint, \<open>split_packet\<close> cuts one
    packet off a datagram by its long header's length field (a short header runs to the
    end), and \<open>split_datagram\<close> repeats it; its termination is proved with the measure
    of the remaining length.  The token field \<^verbatim>\<open>initial_token\<close> writes reads back
    (C33), and a datagram the builder coalesces splits into exactly the sealed packets
    (C34).
  \<^item> \<open>Spec2Isabelle\<close>: This theory: every long-header packet the module emits
    (builder, Retry, Version Negotiation) carries the version-independent long header
    that \<open>parse_long_invariant\<close> reads back (C30).

  \<^bold>\<open>Bounds and choices.\<close>  The masking loop and the grease loop are structural
  recursion over a list of at most four elements.  The test loop \<^verbatim>\<open>for _ in 0..32\<close>
  is a \<open>while_option\<close> over the counter, the last outcome and the thread-local slot,
  so a non-terminating loop would be \<open>None\<close>; the lemma \<open>retry_loop_halts\<close> shows it
  is not, with the measure \<open>32 - i\<close> (\<open>measure_while_option_Some\<close>).  The receiver's \<open>split_datagram\<close> is a
  \<open>function\<close> whose termination rests on every parsed packet being non-empty.  No fuel is needed.  Lengths are
  \<open>nat\<close>, since \<^verbatim>\<open>usize\<close> does not overflow on these buffers.  Subtractions that
  could underflow (\<^verbatim>\<open>4 - pn.len()\<close>, \<^verbatim>\<open>len - (offsets.len + 2)\<close>) are guarded
  with \<open>Panic ArithmeticOverflow\<close>, and the theorems show that no reachable builder
  takes those branches.  Words are kept at their width wherever the code truncates: the
  length field (\<^verbatim>\<open>& 0x3f\<close>, \<^verbatim>\<open>as u8\<close>) and the packet number (\<open>encode_uint\<close>
  of a \<open>u64\<close>).  The witnesses use concrete providers; they are no ciphers, only
  deterministic stand-ins that meet the contracts.

  \<^bold>\<open>Not modelled.\<close>  The cryptography: AES-GCM, HKDF and AES header protection live in
  \<^verbatim>\<open>neqo_crypto\<close> and \<^verbatim>\<open>crate::crypto\<close>, outside the excerpt, and are
  interfaces with contracts, and \<^verbatim>\<open>default_protector()\<close> is a parameter.  So the
  ciphertext and mask bytes of the golden vector of \<^verbatim>\<open>sample_server_initial\<close>,
  and the tag in the full-vector branch of \<^verbatim>\<open>build_retry\<close> that its random nibble
  \<open>0xf\<close> selects, are not checked: C32 states what the protector must produce for
  the former to pass, and C28 checks the rest of the latter.
  \<^verbatim>\<open>random\<close> is a parameter.  \<^verbatim>\<open>qdebug!\<close>/\<^verbatim>\<open>qtrace!\<close> logging has no
  effect on the buffer and is omitted.  \<^verbatim>\<open>ConnectionId\<close> is a plain byte list.
  \<^verbatim>\<open>RefCell\<close> borrows in \<open>retry\<close> cannot fail (the AEAD is only ever borrowed
  immutably) and are not modelled.  A release build, in which the
  \<^verbatim>\<open>debug_assert!\<close>s vanish, is not modelled.
\<close>

unbundle bit_operations_syntax

definition parse_long_invariant :: "bytes \<Rightarrow> (nat \<times> bytes \<times> bytes) option" where
  "parse_long_invariant bs =
     (case bs of
        fb # v0 # v1 # v2 # v3 # rest \<Rightarrow>
          if fb AND 0x80 = 0x80 then
            (case parse_cid rest of None \<Rightarrow> None | Some (dcid, rest) \<Rightarrow>
             (case parse_cid rest of None \<Rightarrow> None | Some (scid, _) \<Rightarrow>
              Some (decode_be [v0, v1, v2, v3], dcid, scid)))
          else None
      | _ \<Rightarrow> None)"

lemma parse_long_invariant_layout:
  assumes "fb AND 0x80 = 0x80" and "length vs = 4" and "length dcid < 256" and "length scid < 256"
  shows "parse_long_invariant (fb # vs @ of_nat (length dcid) # dcid @ of_nat (length scid) # scid @ rest)
    = Some (decode_be vs, dcid, scid)"
proof -
  obtain a b c e where vs: "vs = [a, b, c, e]"
    using assms(2) by (cases vs rule: parse_versions.cases) (auto simp: numeral_eq_Suc)
  show ?thesis
    using assms(1,3,4) parse_cid_prefix [of dcid "of_nat (length scid) # scid @ rest"]
      parse_cid_prefix [of scid rest]
    by (simp add: parse_long_invariant_def vs)
qed

lemma long_built_invariant:
  assumes ops: "aead_contract ops" and l: "0 < l" "l \<le> 4" and c: "code pt = Inr c0"
    and d: "length dcid < 256" and s: "length scid < 256"
    and r: "bind_res (long P pt dcid scid) (\<lambda>b. bind_res (pn b v l) (\<lambda>b. build ops c (builder_encode payload b)))
      = Inr (E, c')"
  shows "parse_long_invariant (drop (length P) E) = Some (unat QUIC_VERSION, dcid, scid)"
proof -
  let ?n = "l + length payload + cx_expansion ops c"
  let ?fb = "0xc0 OR push_bit 4 c0 OR of_nat (l - 1) :: byte"
  let ?T = "be_bytes 4 QUIC_VERSION @ of_nat (length dcid) # dcid @ of_nat (length scid) # scid"
  let ?R = "length_field ?n @ be_bytes l v"
  obtain x where x: "seal ops c v 0x0f (9 + length dcid + length scid) l (long_header c0 dcid scid [] ?n l v) payload
      = Inr (x, c')" and E: "E = P @ x"
    using r long_pipeline [OF ops l c, of P dcid scid v c payload] by (cases "seal ops c v 0x0f (9 + length dcid + length scid) l (long_header c0 dcid scid [] ?n l v) payload") auto
  obtain msk ct where xm: "x = protect 0x0f (9 + length dcid + length scid) l msk (long_header c0 dcid scid [] ?n l v) @ ct"
    using seal_Inr [OF x] by blast
  have h: "long_header c0 dcid scid [] ?n l v = ?fb # ?T @ ?R"
    by (simp add: long_header_def)
  have k: "Suc (length ?T) \<le> 9 + length dcid + length scid" by simp
  have fb: "(?fb XOR (msk ! 0 AND 0x0f)) AND 0x80 = 0x80"
  proof -
    have "(0xc0 OR push_bit 4 c0) AND 0x80 = PACKET_BIT_LONG" using c by (rule code_first_byte_long)
    then have "is_long_byte (0xc0 OR push_bit 4 c0)" by (simp add: is_long_byte_def)
    moreover have "is_long_byte ((0xc0 OR push_bit 4 c0) OR of_nat (l - 1))
        = is_long_byte (0xc0 OR push_bit 4 c0)"
      using l by (intro is_long_byte_or_small) arith
    ultimately have "is_long_byte ?fb" by (simp only: or.assoc)
    then show ?thesis by (simp add: long_bit_after_mask is_long_byte_def PACKET_BIT_LONG_def)
  qed
  let ?rest = "xor_span (9 + length dcid + length scid - Suc (length ?T)) l 1 msk ?R @ ct"
  have "drop (length P) E = (?fb XOR (msk ! 0 AND 0x0f)) # be_bytes 4 QUIC_VERSION
      @ of_nat (length dcid) # dcid @ of_nat (length scid) # scid @ ?rest"
    unfolding E xm h protect_keeps_prefix [OF k] by simp
  also have "parse_long_invariant \<dots> = Some (decode_be (be_bytes 4 QUIC_VERSION), dcid, scid)"
    using fb d s by (intro parse_long_invariant_layout) simp_all
  finally show ?thesis by (simp add: decode_be_version)
qed

lemma retry_invariant:
  assumes "length dcid < 256" and "length scid < 256" and "fst (retry rp slot rnd dcid scid token odcid) = Inr out"
  shows "parse_long_invariant out = Some (unat QUIC_VERSION, dcid, scid)"
proof -
  obtain tag where out: "out = retry_header rnd dcid scid token @ tag"
    using assms(3) by (auto simp: retry_eq bind_res_eq_Inr)
  have fb: "(0xf0 OR (rnd AND 0x0f) :: byte) AND 0x80 = 0x80"
    by (simp add: bit.conj_disj_distrib2 and.assoc)
  have "parse_long_invariant ((0xf0 OR (rnd AND 0x0f)) # be_bytes 4 QUIC_VERSION @ of_nat (length dcid) # dcid
      @ of_nat (length scid) # scid @ token @ tag) = Some (decode_be (be_bytes 4 QUIC_VERSION), dcid, scid)"
    using fb assms(1,2) by (intro parse_long_invariant_layout) simp_all
  then show ?thesis by (simp add: out retry_header_def decode_be_version)
qed

lemma vn_invariant:
  assumes "length grease = 5" and "length dcid < 256" and "length scid < 256"
    and "version_negotiation dcid scid grease = Inr out"
  shows "parse_long_invariant out = Some (0, dcid, scid)"
proof -
  have out: "out = (0x80 OR (grease ! 4 AND 0x7f)) # [0, 0, 0, 0] @ of_nat (length dcid) # dcid
      @ of_nat (length scid) # scid @ be_bytes 4 QUIC_VERSION @ grease_loop (take 4 grease)"
    using assms(1,4) vn_layout [of grease dcid scid] by simp
  have "parse_long_invariant out = Some (decode_be [0, 0, 0, 0], dcid, scid)"
    unfolding out using assms(2,3) long_bit_set by (intro parse_long_invariant_layout) simp_all
  then show ?thesis by (simp add: decode_be_def)
qed

text \<open>
  C30. Every long-header packet the module emits has the version-independent long
  header of QUIC (RFC 8999): a reader that knows only the long-header bit, the version
  field and the two length-prefixed connection IDs reads back the version and both
  connection IDs (under 256 bytes) from a sealed builder packet (header protection
  leaves these bytes alone), from a Retry packet, and from a Version Negotiation packet,
  whose version is 0.
\<close>

theorem long_header_invariants:
  "(aead_contract ops \<and> 0 < l \<and> l \<le> 4 \<and> code pt = Inr tc \<and> length dcid < 256 \<and> length scid < 256
      \<and> bind_res (long P pt dcid scid) (\<lambda>b. bind_res (pn b v l) (\<lambda>b. build ops c (builder_encode payload b)))
         = Inr (E, c')
    \<longrightarrow> parse_long_invariant (drop (length P) E) = Some (unat QUIC_VERSION, dcid, scid))
   \<and> (length dcid < 256 \<and> length scid < 256 \<and> fst (retry rp slot rnd dcid scid token odcid) = Inr out
    \<longrightarrow> parse_long_invariant out = Some (unat QUIC_VERSION, dcid, scid))
   \<and> (length grease = 5 \<and> length dcid < 256 \<and> length scid < 256
      \<and> version_negotiation dcid scid grease = Inr out'
    \<longrightarrow> parse_long_invariant out' = Some (0, dcid, scid))"
proof (intro conjI impI)
  assume "aead_contract ops \<and> 0 < l \<and> l \<le> 4 \<and> code pt = Inr tc \<and> length dcid < 256 \<and> length scid < 256
      \<and> bind_res (long P pt dcid scid) (\<lambda>b. bind_res (pn b v l) (\<lambda>b. build ops c (builder_encode payload b)))
         = Inr (E, c')"
  then show "parse_long_invariant (drop (length P) E) = Some (unat QUIC_VERSION, dcid, scid)"
    by (elim conjE) (rule long_built_invariant)
next
  assume "length dcid < 256 \<and> length scid < 256 \<and> fst (retry rp slot rnd dcid scid token odcid) = Inr out"
  then show "parse_long_invariant out = Some (unat QUIC_VERSION, dcid, scid)"
    by (elim conjE) (rule retry_invariant)
next
  assume "length grease = 5 \<and> length dcid < 256 \<and> length scid < 256
      \<and> version_negotiation dcid scid grease = Inr out'"
  then show "parse_long_invariant out' = Some (0, dcid, scid)"
    by (elim conjE) (rule vn_invariant)
qed

theorem long_header_invariants_witness:
  "\<exists>E c' out out'.
     bind_res (long [] Handshake SERVER_CID CLIENT_CID)
       (\<lambda>b. bind_res (pn b 0 1) (\<lambda>b. build (toy_crypto 7) 0 (builder_encode [0, 0, 0] b))) = Inr (E, c')
     \<and> parse_long_invariant E = Some (unat QUIC_VERSION, SERVER_CID, CLIENT_CID)
     \<and> fst (retry (toy_retry True) Uninit 0 SERVER_CID CLIENT_CID TOKEN []) = Inr out
     \<and> parse_long_invariant out = Some (unat QUIC_VERSION, SERVER_CID, CLIENT_CID)
     \<and> version_negotiation SERVER_CID CLIENT_CID [1, 2, 3, 4, 5] = Inr out'
     \<and> parse_long_invariant out' = Some (0, SERVER_CID, CLIENT_CID)"
proof -
  have ops: "aead_contract (toy_crypto 7)" by (rule toy_crypto_contract)
  have ci: "code Handshake = Inr PACKET_TYPE_HANDSHAKE" by simp
  have cids: "length SERVER_CID < 256" "length CLIENT_CID < 256" by (simp_all add: SERVER_CID_def CLIENT_CID_def)
  have "\<exists>E c'. bind_res (long [] Handshake SERVER_CID CLIENT_CID)
       (\<lambda>b. bind_res (pn b 0 1) (\<lambda>b. build (toy_crypto 7) 0 (builder_encode [0, 0, 0] b))) = Inr (E, c')"
    using long_pipeline [OF ops _ _ ci, of 1 "[]" SERVER_CID CLIENT_CID 0 0 "[0, 0, 0]"]
    by (simp add: seal_def toy_crypto_def long_header_def SERVER_CID_def CLIENT_CID_def SAMPLE_SIZE_def slice_def)
  then obtain E c' where b: "bind_res (long [] Handshake SERVER_CID CLIENT_CID)
       (\<lambda>b. bind_res (pn b 0 1) (\<lambda>b. build (toy_crypto 7) 0 (builder_encode [0, 0, 0] b))) = Inr (E, c')"
    by blast
  have m: "make_retry_aead (toy_retry True) = Inr 0x5a" by (simp add: make_retry_aead_def toy_retry_def)
  obtain out where r: "fst (retry (toy_retry True) Uninit 0 SERVER_CID CLIENT_CID TOKEN []) = Inr out"
    by (simp add: retry_eq slot_aead_def retry_tag_def toy_retry_def make_retry_aead_def)
  obtain out' where vn: "version_negotiation SERVER_CID CLIENT_CID [1, 2, 3, 4, 5] = Inr out'"
    using vn_layout [of "[1, 2, 3, 4, 5]" SERVER_CID CLIENT_CID] by simp
  have "length ([1, 2, 3, 4, 5] :: bytes) = 5" by simp
  with long_header_invariants [where ops = "toy_crypto 7" and l = 1 and pt = Handshake
      and tc = PACKET_TYPE_HANDSHAKE and dcid = SERVER_CID and scid = CLIENT_CID and P = "[]" and v = 0
      and c = 0 and payload = "[0, 0, 0]" and E = E and c' = c' and rp = "toy_retry True" and slot = Uninit
      and rnd = 0 and token = TOKEN and odcid = "[]" and out = out and grease = "[1, 2, 3, 4, 5]"
      and out' = out'] ops ci cids b r vn
  show ?thesis by auto
qed

end
